theory Spec2Isabelle
  imports Complex_Main "HOL-Library.Multiset"
begin

section \<open>Content store\<close>

text \<open>
  The relational schema of the study assistant (tables, foreign keys, triggers and SQL
  functions) and the client code that writes to it. A table is the list of its rows; a
  row is a record of the columns that the triggers, constraints and functions below read
  or write. Display-only columns (names, titles, sizes) and the timestamps \<open>created_at\<close>,
  \<open>updated_at\<close>, \<open>uploaded_at\<close>, \<open>started_at\<close> and \<open>last_used_at\<close> are left out, with the
  triggers that only maintain them (\<open>set_updated_at\<close>, \<open>bump_topic_last_used_from_topic\<close>),
  and so are the tables \<open>profiles\<close> and \<open>user_preferences\<close>. A \<open>uuid\<close> is a natural
  number. Every statement runs alone (no concurrent sessions).

  Row-level security is enabled on every table. It is part of the model for \<open>topics\<close>
  and \<open>categories\<close>, whose policies compare \<open>user_id\<close> with \<open>auth.uid()\<close>: the statements of
  the browser on these tables, and the trigger functions they fire, take the signed-in
  user as the argument \<open>uid\<close> and reach the rows of that user only. The policies of the
  other tables go through the topic of a row; for them a statement is taken in a
  session that owns the topic of the rows it addresses, so that it reaches those rows
  and fails only by a constraint of the schema.
\<close>

type_synonym uuid = nat
type_synonym timestamptz = nat
type_synonym jsonb = string

text \<open>
  \<open>vector_status text check (vector_status in (...))\<close>: the five admitted texts.
\<close>

datatype vector_status = Not_ingested | Ingesting | Ingested | Excluded | Deleted

datatype processing_status = Pending | Processing | Ready | Failed

record category =
  cat_id :: uuid
  cat_user_id :: uuid

record topic =
  topic_id :: uuid
  topic_user_id :: uuid
  category_id :: "uuid option"

record topic_file =
  tf_id :: uuid
  tf_topic_id :: uuid
  tf_user_id :: uuid
  storage_path :: string
  include_in_rag :: bool
  vector_status :: vector_status
  deleted_at :: "timestamptz option"

record document =
  doc_id :: uuid
  doc_topic_id :: uuid
  topic_file_id :: uuid

text \<open>
  The embedding type \<open>vector(1536)\<close> belongs to the pgvector extension; it is the type
  parameter \<open>'e\<close>. The column is nullable.
\<close>

record 'e chunk =
  chunk_id :: nat
  document_id :: uuid
  chunk_topic_id :: uuid
  content :: string
  embedding :: "'e option"
  is_active :: bool
  metadata :: "jsonb option"

datatype summary_type = Short | Long | Key_concepts

record topic_summary =
  ts_id :: uuid
  ts_topic_id :: uuid
  ts_type :: summary_type
  ts_status :: processing_status

record quiz =
  quiz_id :: uuid
  quiz_topic_id :: uuid
  quiz_user_id :: uuid
  quiz_length :: int
  quiz_status :: processing_status

record quiz_question =
  qq_id :: uuid
  qq_quiz_id :: uuid
  order_index :: int

record quiz_option =
  qo_id :: uuid
  qo_question_id :: uuid
  qo_is_correct :: bool

record quiz_attempt =
  qa_id :: uuid
  qa_quiz_id :: uuid
  qa_user_id :: uuid
  submitted_at :: "timestamptz option"
  score_percent :: "int option"

record attempt_answer =
  aa_attempt_id :: uuid
  aa_question_id :: uuid
  selected_option_id :: uuid
  aa_is_correct :: bool

text \<open>
  Who issued an \<open>UPDATE\<close> of \<open>chunks.is_active\<close>: the trigger function
  \<open>sync_chunks_active_from_file\<close> (the synchronizer) or the upload component of the
  frontend. The log is a history variable: no code reads it.
\<close>

datatype writer = Synchronizer | Orchestrator | Frontend

text \<open>
  A second history variable: who wrote the column \<open>status\<close> of a quiz or of a topic
  summary (the job), and the value written. The orchestrator is the generation backend,
  which is not among the sources: no definition below writes in its name.
\<close>

datatype job = Quiz_job uuid | Summary_job uuid

record 'e db =
  categories :: "category list"
  topics :: "topic list"
  topic_summaries :: "topic_summary list"
  topic_files :: "topic_file list"
  documents :: "document list"
  chunks :: "'e chunk list"
  chunks_id_seq :: nat
  quizzes :: "quiz list"
  quiz_questions :: "quiz_question list"
  quiz_options :: "quiz_option list"
  quiz_attempts :: "quiz_attempt list"
  attempt_answers :: "attempt_answer list"
  is_active_writes :: "(writer \<times> nat \<times> bool) list"
  status_writes :: "(writer \<times> job \<times> processing_status) list"

datatype db_error =
  Unique_violation
  | Foreign_key_violation
  | Not_null_violation
  | Check_violation
  | Invalid_limit

subsection \<open>Chunk syncing\<close>

text \<open>
  \<^verbatim>\<open>select d.id from public.documents d where d.topic_file_id = new.id\<close>
\<close>

definition file_document_ids :: "'e db \<Rightarrow> uuid \<Rightarrow> uuid list" where
  "file_document_ids s fid = map doc_id (filter (\<lambda>d. topic_file_id d = fid) (documents s))"

text \<open>
  The trigger function: every chunk of a document of the file \<open>new\<close> gets
  \<open>is_active = (new.include_in_rag and new.vector_status = 'ingested')\<close>.
\<close>

definition sync_chunks_active_from_file :: "topic_file \<Rightarrow> 'e db \<Rightarrow> 'e db" where
  "sync_chunks_active_from_file new s =
     (let v = (include_in_rag new \<and> vector_status new = Ingested);
          hit = (\<lambda>c. document_id c \<in> set (file_document_ids s (tf_id new)))
      in s\<lparr>chunks := map (\<lambda>c. if hit c then c\<lparr>is_active := v\<rparr> else c) (chunks s),
            is_active_writes := is_active_writes s @
              map (\<lambda>c. (Synchronizer, chunk_id c, v)) (filter hit (chunks s))\<rparr>)"

text \<open>
  \<open>update topic_files set ... where id = fid\<close>. A column argument \<open>None\<close> means that
  the column is not in the \<open>SET\<close> list. The trigger \<open>t_file_sync_chunks\<close> is
  \<open>after update of include_in_rag, vector_status ... for each row\<close>: it fires for every
  updated row when one of the two columns is in the \<open>SET\<close> list, whether or not the value
  differs from the old one.
\<close>

definition set_columns ::
  "bool option \<Rightarrow> vector_status option \<Rightarrow> timestamptz option \<Rightarrow> topic_file \<Rightarrow> topic_file" where
  "set_columns inc vs del f =
     f\<lparr>include_in_rag := (case inc of None \<Rightarrow> include_in_rag f | Some b \<Rightarrow> b),
       vector_status := (case vs of None \<Rightarrow> vector_status f | Some v \<Rightarrow> v),
       deleted_at := (case del of None \<Rightarrow> deleted_at f | Some t \<Rightarrow> Some t)\<rparr>"

definition update_topic_files ::
  "uuid \<Rightarrow> bool option \<Rightarrow> vector_status option \<Rightarrow> timestamptz option \<Rightarrow> 'e db \<Rightarrow> 'e db" where
  "update_topic_files fid inc vs del s =
     (let news = map (set_columns inc vs del) (filter (\<lambda>f. tf_id f = fid) (topic_files s));
          s1 = s\<lparr>topic_files :=
                 map (\<lambda>f. if tf_id f = fid then set_columns inc vs del f else f) (topic_files s)\<rparr>
      in if inc \<noteq> None \<or> vs \<noteq> None then fold sync_chunks_active_from_file news s1 else s1)"

text \<open>Invariant 1 for one file row and the chunks of its documents.\<close>

definition active_in_sync :: "'e db \<Rightarrow> topic_file \<Rightarrow> bool" where
  "active_in_sync s f =
     (\<forall>c \<in> set (chunks s). document_id c \<in> set (file_document_ids s (tf_id f)) \<longrightarrow>
        is_active c = (include_in_rag f \<and> vector_status f = Ingested))"

subsection \<open>Inserting chunks\<close>

text \<open>
  \<open>insert into chunks (...) values (...)\<close>. The id is the next value of the sequence of
  the \<open>bigserial\<close> column; \<open>is_active boolean not null default true\<close> takes the default
  when the statement gives no value (\<open>act = None\<close>). No trigger is defined on \<open>chunks\<close>
  or on \<open>documents\<close>. A failed statement leaves every table as it was.
\<close>

definition insert_chunk ::
  "uuid \<Rightarrow> uuid \<Rightarrow> string \<Rightarrow> 'e option \<Rightarrow> bool option \<Rightarrow> jsonb option \<Rightarrow> 'e db
     \<Rightarrow> db_error + 'e db" where
  "insert_chunk doc tid txt emb act meta s =
     (if chunks_id_seq s \<in> chunk_id ` set (chunks s) then Inl Unique_violation
      else if doc \<notin> doc_id ` set (documents s) then Inl Foreign_key_violation
      else if tid \<notin> topic_id ` set (topics s) then Inl Foreign_key_violation
      else Inr (s\<lparr>chunks := chunks s @
                  [\<lparr>chunk_id = chunks_id_seq s, document_id = doc, chunk_topic_id = tid,
                    content = txt, embedding = emb,
                    is_active = (case act of None \<Rightarrow> True | Some b \<Rightarrow> b),
                    metadata = meta\<rparr>],
                chunks_id_seq := Suc (chunks_id_seq s)\<rparr>))"

subsection \<open>The upload component (TopicUpload.tsx)\<close>

text \<open>
  \<open>insert into topic_files\<close>: primary key, \<open>unique(topic_id, storage_path)\<close>, and the
  foreign key to \<open>topics\<close>. The sync trigger is an update trigger and does not fire.
\<close>

definition insert_topic_file :: "topic_file \<Rightarrow> 'e db \<Rightarrow> db_error + 'e db" where
  "insert_topic_file f s =
     (if tf_id f \<in> tf_id ` set (topic_files s) then Inl Unique_violation
      else if (\<exists>g \<in> set (topic_files s).
                 tf_topic_id g = tf_topic_id f \<and> storage_path g = storage_path f)
        then Inl Unique_violation
      else if tf_topic_id f \<notin> topic_id ` set (topics s) then Inl Foreign_key_violation
      else Inr (s\<lparr>topic_files := topic_files s @ [f]\<rparr>))"

text \<open>
  The row that \<open>handleFiles\<close> inserts for one uploaded file, before it calls the
  ingestion endpoint: \<open>include_in_rag: true, vector_status: "ingesting"\<close>. The id is
  the \<open>gen_random_uuid()\<close> default, here an argument.
\<close>

definition handleFiles_insert :: "uuid \<Rightarrow> uuid \<Rightarrow> uuid \<Rightarrow> string \<Rightarrow> 'e db \<Rightarrow> db_error + 'e db" where
  "handleFiles_insert new_id tid user storagePath s =
     insert_topic_file
       \<lparr>tf_id = new_id, tf_topic_id = tid, tf_user_id = user, storage_path = storagePath,
        include_in_rag = True, vector_status = Ingesting, deleted_at = None\<rparr> s"

text \<open>
  \<open>setChunksActiveForFile\<close>: reads the ids of the file's documents, returns when there
  are none, and otherwise issues \<open>update chunks set is_active = active where document_id
  in (ids)\<close> from the browser.
\<close>

definition setChunksActiveForFile :: "uuid \<Rightarrow> bool \<Rightarrow> 'e db \<Rightarrow> 'e db" where
  "setChunksActiveForFile topicFileId active s =
     (let ids = file_document_ids s topicFileId
      in if ids = [] then s
         else s\<lparr>chunks :=
                  map (\<lambda>c. if document_id c \<in> set ids then c\<lparr>is_active := active\<rparr> else c)
                    (chunks s),
                is_active_writes := is_active_writes s @
                  map (\<lambda>c. (Frontend, chunk_id c, active))
                    (filter (\<lambda>c. document_id c \<in> set ids) (chunks s))\<rparr>)"

text \<open>
  \<open>toggleInclude(file, next)\<close>: \<open>update topic_files set include_in_rag = next,
  vector_status = (next ? "ingested" : "excluded") where id = file.id\<close>, then
  \<open>setChunksActiveForFile(file.id, next)\<close>.
\<close>

definition toggleInclude :: "uuid \<Rightarrow> bool \<Rightarrow> 'e db \<Rightarrow> 'e db" where
  "toggleInclude file_id next s =
     setChunksActiveForFile file_id next
       (update_topic_files file_id (Some next) (Some (if next then Ingested else Excluded)) None s)"

definition delete_chunks :: "('e chunk \<Rightarrow> bool) \<Rightarrow> 'e db \<Rightarrow> 'e db" where
  "delete_chunks P s = s\<lparr>chunks := filter (\<lambda>c. \<not> P c) (chunks s)\<rparr>"

text \<open>\<open>chunks.document_id ... on delete cascade\<close>.\<close>

definition delete_documents :: "(document \<Rightarrow> bool) \<Rightarrow> 'e db \<Rightarrow> 'e db" where
  "delete_documents P s =
     (let ids = map doc_id (filter P (documents s))
      in delete_chunks (\<lambda>c. document_id c \<in> set ids)
           (s\<lparr>documents := filter (\<lambda>d. \<not> P d) (documents s)\<rparr>))"

text \<open>
  \<open>deleteFile(file)\<close>: deletes the chunks and the documents of the file when it has
  documents, then marks the row: \<open>deleted_at = now, vector_status = "deleted",
  include_in_rag = false\<close>.
\<close>

definition deleteFile :: "uuid \<Rightarrow> timestamptz \<Rightarrow> 'e db \<Rightarrow> 'e db" where
  "deleteFile file_id now s =
     (let docIds = file_document_ids s file_id;
          s1 = (if docIds = [] then s
                else delete_documents (\<lambda>d. doc_id d \<in> set docIds)
                       (delete_chunks (\<lambda>c. document_id c \<in> set docIds) s))
      in update_topic_files file_id (Some False) (Some Deleted) (Some now) s1)"

text \<open>
  The transitions that Invariant 4 of the specification admits, written from its words:
  \<open>not_ingested \<rightarrow> ingesting \<rightarrow> {ingested | excluded}\<close>, and \<open>deleted\<close> from any state.
\<close>

definition spec_vector_status_edge :: "vector_status \<Rightarrow> vector_status \<Rightarrow> bool" where
  "spec_vector_status_edge a b =
     ((a = Not_ingested \<and> b = Ingesting) \<or> (a = Ingesting \<and> (b = Ingested \<or> b = Excluded))
      \<or> b = Deleted)"

subsection \<open>Vector search\<close>

text \<open>
  \<open>match_documents(query_embedding, match_count, p_topic_id default null, p_only_active
  default true)\<close>. The operator \<open><=>\<close> (cosine distance) belongs to pgvector and is the
  parameter \<open>cosd\<close>; \<open>float\<close> values are real numbers here. Every argument of the SQL
  function can be \<open>NULL\<close> (\<open>None\<close>).
\<close>

record match_row =
  mr_document_id :: uuid
  mr_content :: string
  mr_metadata :: "jsonb option"
  similarity :: "real option"

text \<open>\<open>c.embedding <=> query_embedding\<close>: \<open>NULL\<close> when an operand is.\<close>

definition distance :: "('e \<Rightarrow> 'e \<Rightarrow> real) \<Rightarrow> 'e option \<Rightarrow> 'e option \<Rightarrow> real option" where
  "distance cosd a b =
     (case a of None \<Rightarrow> None | Some x \<Rightarrow> (case b of None \<Rightarrow> None | Some y \<Rightarrow> Some (cosd x y)))"

text \<open>
  \<open>from chunks c join documents d on d.id = c.document_id where (p_topic_id is null or
  c.topic_id = p_topic_id) and (not p_only_active or c.is_active)\<close>. A row is selected
  when the condition is true; with \<open>p_only_active\<close> \<open>NULL\<close> the second conjunct is true
  exactly for the active chunks.
\<close>

definition match_where :: "uuid option \<Rightarrow> bool option \<Rightarrow> 'e chunk \<Rightarrow> bool" where
  "match_where p_topic_id p_only_active c =
     ((p_topic_id = None \<or> p_topic_id = Some (chunk_topic_id c))
      \<and> (case p_only_active of None \<Rightarrow> is_active c | Some b \<Rightarrow> \<not> b \<or> is_active c))"

definition match_candidates ::
  "uuid option \<Rightarrow> bool option \<Rightarrow> 'e db \<Rightarrow> ('e chunk \<times> document) list" where
  "match_candidates p_topic_id p_only_active s =
     filter (\<lambda>cd. match_where p_topic_id p_only_active (fst cd))
       (concat (map (\<lambda>c. map (\<lambda>d. (c, d)) (filter (\<lambda>d. doc_id d = document_id c) (documents s)))
                  (chunks s)))"

text \<open>Ascending order of the sort key, \<open>NULL\<close> last.\<close>

definition nulls_last_le :: "real option \<Rightarrow> real option \<Rightarrow> bool" where
  "nulls_last_le a b =
     (case b of None \<Rightarrow> True | Some y \<Rightarrow> (case a of None \<Rightarrow> False | Some x \<Rightarrow> x \<le> y))"

text \<open>
  \<open>order by c.embedding <=> query_embedding\<close> has one sort key and no tie-break. SQL
  leaves the order of rows with equal keys to the executor, and the \<open>ivfflat\<close> index on
  \<open>chunks.embedding\<close> answers this ordering approximately and may skip rows. So the
  executor's output \<open>ys\<close> is any list of selected rows, none taken twice, that ascends in
  the key.
\<close>

definition order_by_distance ::
  "('e \<Rightarrow> 'e \<Rightarrow> real) \<Rightarrow> 'e option \<Rightarrow> ('e chunk \<times> document) list \<Rightarrow> ('e chunk \<times> document) list
     \<Rightarrow> bool" where
  "order_by_distance cosd q cands ys =
     (mset ys \<subseteq># mset cands \<and>
      sorted_wrt (\<lambda>a b. nulls_last_le (distance cosd (embedding (fst a)) q)
                                    (distance cosd (embedding (fst b)) q)) ys)"

definition select_row :: "('e \<Rightarrow> 'e \<Rightarrow> real) \<Rightarrow> 'e option \<Rightarrow> 'e chunk \<times> document \<Rightarrow> match_row" where
  "select_row cosd q cd =
     \<lparr>mr_document_id = doc_id (snd cd), mr_content = content (fst cd),
      mr_metadata = metadata (fst cd),
      similarity = map_option (\<lambda>x. 1 - x) (distance cosd (embedding (fst cd)) q)\<rparr>"

text \<open>
  The function's result for the executor's ordering \<open>ys\<close>: \<open>limit match_count\<close> takes
  the first rows, a \<open>NULL\<close> limit takes all, a negative one is an error.
\<close>

definition match_documents ::
  "('e \<Rightarrow> 'e \<Rightarrow> real) \<Rightarrow> 'e option \<Rightarrow> int option \<Rightarrow> ('e chunk \<times> document) list
     \<Rightarrow> db_error + match_row list" where
  "match_documents cosd query_embedding match_count ys =
     (case match_count of
        None \<Rightarrow> Inr (map (select_row cosd query_embedding) ys)
      | Some n \<Rightarrow>
          if n < 0 then Inl Invalid_limit
          else Inr (map (select_row cosd query_embedding) (take (nat n) ys)))"

text \<open>
  \<open>rows\<close> is a possible answer of \<open>match_documents\<close> in state \<open>s\<close>.
\<close>

definition match_documents_returns ::
  "('e \<Rightarrow> 'e \<Rightarrow> real) \<Rightarrow> 'e option \<Rightarrow> int option \<Rightarrow> uuid option \<Rightarrow> bool option \<Rightarrow> 'e db
     \<Rightarrow> ('e chunk \<times> document) list \<Rightarrow> match_row list \<Rightarrow> bool" where
  "match_documents_returns cosd q n p_topic_id p_only_active s ys rows =
     (order_by_distance cosd q (match_candidates p_topic_id p_only_active s) ys
      \<and> match_documents cosd q n ys = Inr rows)"

subsection \<open>Quiz content\<close>

text \<open>
  Deletes with the foreign-key actions of the schema. \<open>attempt_answers\<close> is referenced by
  no table. \<open>attempt_answers.attempt_id\<close> and \<open>attempt_answers.question_id\<close> are
  \<open>on delete cascade\<close>; \<open>attempt_answers.selected_option_id\<close> is \<open>on delete restrict\<close>.
  PostgreSQL runs the actions of a statement level by level: the rows that the
  statement deletes, then the cascades from those rows, then the cascades from the rows
  so deleted; the \<open>restrict\<close> of a deleted option is checked one level after the delete of
  the option, against the answers that exist then. A violation undoes the statement.
\<close>

definition delete_attempt_answers :: "(attempt_answer \<Rightarrow> bool) \<Rightarrow> 'e db \<Rightarrow> 'e db" where
  "delete_attempt_answers P s = s\<lparr>attempt_answers := filter (\<lambda>a. \<not> P a) (attempt_answers s)\<rparr>"

definition delete_quiz_attempts :: "(quiz_attempt \<Rightarrow> bool) \<Rightarrow> 'e db \<Rightarrow> 'e db" where
  "delete_quiz_attempts P s =
     (let ids = map qa_id (filter P (quiz_attempts s))
      in delete_attempt_answers (\<lambda>a. aa_attempt_id a \<in> set ids)
           (s\<lparr>quiz_attempts := filter (\<lambda>a. \<not> P a) (quiz_attempts s)\<rparr>))"

text \<open>The check of \<open>on delete restrict\<close> for the deleted options \<open>ids\<close>.\<close>

definition restrict_selected_options :: "uuid list \<Rightarrow> 'e db \<Rightarrow> db_error + 'e db" where
  "restrict_selected_options ids s =
     (if \<exists>a \<in> set (attempt_answers s). selected_option_id a \<in> set ids
      then Inl Foreign_key_violation else Inr s)"

definition delete_quiz_options :: "(quiz_option \<Rightarrow> bool) \<Rightarrow> 'e db \<Rightarrow> db_error + 'e db" where
  "delete_quiz_options P s =
     restrict_selected_options (map qo_id (filter P (quiz_options s)))
       (s\<lparr>quiz_options := filter (\<lambda>x. \<not> P x) (quiz_options s)\<rparr>)"

text \<open>
  A delete of questions: the questions, then their options and the answers to them,
  then the \<open>restrict\<close> check for those options.
\<close>

definition delete_quiz_questions :: "(quiz_question \<Rightarrow> bool) \<Rightarrow> 'e db \<Rightarrow> db_error + 'e db" where
  "delete_quiz_questions P s =
     (let ids = map qq_id (filter P (quiz_questions s));
          s1 = s\<lparr>quiz_questions := filter (\<lambda>q. \<not> P q) (quiz_questions s)\<rparr>;
          oids = map qo_id (filter (\<lambda>x. qo_question_id x \<in> set ids) (quiz_options s1));
          s2 = s1\<lparr>quiz_options := filter (\<lambda>x. qo_question_id x \<notin> set ids) (quiz_options s1)\<rparr>
      in restrict_selected_options oids
           (delete_attempt_answers (\<lambda>a. aa_question_id a \<in> set ids) s2))"

definition quiz_question_ids :: "'e db \<Rightarrow> uuid \<Rightarrow> uuid list" where
  "quiz_question_ids s p = map qq_id (filter (\<lambda>q. qq_quiz_id q = p) (quiz_questions s))"

text \<open>
  \<open>delete_quiz_content(p_quiz_id)\<close>, a plpgsql function: four deletes in this order,
  inside the caller's transaction. \<open>delete_quiz_content_steps\<close> lists what the function
  has reached after each statement: the state after the statement, or the error that
  stops the function, after which no further statement runs.
\<close>

definition delete_quiz_content_steps :: "uuid \<Rightarrow> 'e db \<Rightarrow> (db_error + 'e db) list" where
  "delete_quiz_content_steps p_quiz_id s =
     (let s1 = delete_attempt_answers
                 (\<lambda>aa. aa_question_id aa \<in> set (quiz_question_ids s p_quiz_id)) s;
          s2 = delete_quiz_attempts (\<lambda>qa. qa_quiz_id qa = p_quiz_id) s1
      in Inr s1 # Inr s2 #
         (case delete_quiz_options
                 (\<lambda>qo. qo_question_id qo \<in> set (quiz_question_ids s2 p_quiz_id)) s2 of
            Inl e \<Rightarrow> [Inl e]
          | Inr s3 \<Rightarrow> [Inr s3, delete_quiz_questions (\<lambda>qq3. qq_quiz_id qq3 = p_quiz_id) s3]))"

text \<open>
  The result of the function: the state after the last statement, or the error, which
  undoes the earlier statements.
\<close>

definition delete_quiz_content :: "uuid \<Rightarrow> 'e db \<Rightarrow> db_error + 'e db" where
  "delete_quiz_content p_quiz_id s = last (delete_quiz_content_steps p_quiz_id s)"

text \<open>
  Inserts. \<open>uq_correct_option_per_question\<close> is a unique index on
  \<open>quiz_options(question_id) where is_correct\<close>: among the rows with \<open>is_correct\<close>, no
  two have the same \<open>question_id\<close>.
\<close>

definition insert_quiz_question :: "quiz_question \<Rightarrow> 'e db \<Rightarrow> db_error + 'e db" where
  "insert_quiz_question q s =
     (if qq_id q \<in> qq_id ` set (quiz_questions s) then Inl Unique_violation
      else if qq_quiz_id q \<notin> quiz_id ` set (quizzes s) then Inl Foreign_key_violation
      else Inr (s\<lparr>quiz_questions := quiz_questions s @ [q]\<rparr>))"

definition insert_quiz_option :: "quiz_option \<Rightarrow> 'e db \<Rightarrow> db_error + 'e db" where
  "insert_quiz_option x s =
     (if qo_id x \<in> qo_id ` set (quiz_options s) then Inl Unique_violation
      else if qo_is_correct x \<and>
              (\<exists>y \<in> set (quiz_options s). qo_is_correct y \<and> qo_question_id y = qo_question_id x)
        then Inl Unique_violation
      else if qo_question_id x \<notin> qq_id ` set (quiz_questions s) then Inl Foreign_key_violation
      else Inr (s\<lparr>quiz_options := quiz_options s @ [x]\<rparr>))"

text \<open>Several rows in one transaction: the first error undoes all of them.\<close>

fun insert_all :: "('a \<Rightarrow> 'e db \<Rightarrow> db_error + 'e db) \<Rightarrow> 'a list \<Rightarrow> 'e db \<Rightarrow> db_error + 'e db" where
  "insert_all ins [] s = Inr s"
| "insert_all ins (x # xs) s =
     (case ins x s of Inl e \<Rightarrow> Inl e | Inr s1 \<Rightarrow> insert_all ins xs s1)"

text \<open>
  Modelled from the spec: the job that regenerates a quiz runs in the backend, which is
  not among the sources. Section 4.4 of the specification: it removes the prior content
  in dependency order, then inserts the new set, all inside one transaction.
\<close>

definition regenerate_quiz ::
  "uuid \<Rightarrow> quiz_question list \<Rightarrow> quiz_option list \<Rightarrow> 'e db \<Rightarrow> db_error + 'e db" where
  "regenerate_quiz p new_questions new_options s =
     (case delete_quiz_content p s of
        Inl e \<Rightarrow> Inl e
      | Inr s1 \<Rightarrow>
          (case insert_all insert_quiz_question new_questions s1 of
             Inl e \<Rightarrow> Inl e
           | Inr s2 \<Rightarrow> insert_all insert_quiz_option new_options s2))"

text \<open>Every answer row refers to a question row (the foreign key on \<open>question_id\<close>).\<close>

definition answers_have_questions :: "'e db \<Rightarrow> bool" where
  "answers_have_questions s =
     (\<forall>a \<in> set (attempt_answers s). aa_question_id a \<in> qq_id ` set (quiz_questions s))"

text \<open>
  The option that an answer selects is an option of the answer's question, as the quiz
  runner writes it (the radio group of a question offers the question's choices).
\<close>

definition answers_select_own_options :: "'e db \<Rightarrow> bool" where
  "answers_select_own_options s =
     (\<forall>a \<in> set (attempt_answers s). \<forall>x \<in> set (quiz_options s).
        qo_id x = selected_option_id a \<longrightarrow> qo_question_id x = aa_question_id a)"

subsection \<open>Topics and categories\<close>

text \<open>
  The policies \<open>"topics owner rw"\<close> and \<open>"categories owner rw"\<close> are
  \<open>using (user_id = auth.uid()) with check (user_id = auth.uid())\<close>: a statement of the
  session of user \<open>uid\<close> reads, updates and deletes the rows with \<open>user_id = uid\<close> and no
  other. The checks and actions of the foreign keys are not subject to the policies.

  \<open>delete from categories\<close> in the session of \<open>uid\<close>; \<open>topics.category_id ... on delete
  set null\<close> clears the reference in the topics of every user. (The update trigger
  that the \<open>set null\<close> fires on those topics looks for the category just deleted and
  finds no row.)
\<close>

definition delete_categories :: "uuid \<Rightarrow> (category \<Rightarrow> bool) \<Rightarrow> 'e db \<Rightarrow> 'e db" where
  "delete_categories uid P s =
     (let ids = map cat_id (filter (\<lambda>c. P c \<and> cat_user_id c = uid) (categories s))
      in s\<lparr>categories := filter (\<lambda>c. \<not> (P c \<and> cat_user_id c = uid)) (categories s),
            topics := map (\<lambda>t. case category_id t of
                                 None \<Rightarrow> t
                               | Some c \<Rightarrow> if c \<in> set ids then t\<lparr>category_id := None\<rparr> else t)
                        (topics s)\<rparr>)"

text \<open>
  The trigger function \<open>prune_orphan_category\<close>, for the old row of a deleted or
  re-pointed topic. It is not \<open>security definer\<close>: it runs in the session of the user
  \<open>uid\<close> who deleted or updated the topic, and its \<open>select ... from public.topics\<close> finds
  the topics of that user only.
\<close>

definition prune_orphan_category :: "uuid \<Rightarrow> topic \<Rightarrow> 'e db \<Rightarrow> 'e db" where
  "prune_orphan_category uid old s =
     (case category_id old of
        None \<Rightarrow> s
      | Some c \<Rightarrow>
          if \<not> (\<exists>t \<in> set (topics s). topic_user_id t = uid \<and> category_id t = Some c)
          then delete_categories uid (\<lambda>x. cat_id x = c \<and> cat_user_id x = topic_user_id old) s
          else s)"

text \<open>\<open>topic_summaries.topic_id ... on delete cascade\<close>.\<close>

definition delete_topic_summaries :: "(topic_summary \<Rightarrow> bool) \<Rightarrow> 'e db \<Rightarrow> 'e db" where
  "delete_topic_summaries P s = s\<lparr>topic_summaries := filter (\<lambda>x. \<not> P x) (topic_summaries s)\<rparr>"

text \<open>\<open>documents.topic_file_id ... on delete cascade\<close>.\<close>

definition delete_topic_files :: "(topic_file \<Rightarrow> bool) \<Rightarrow> 'e db \<Rightarrow> 'e db" where
  "delete_topic_files P s =
     (let ids = map tf_id (filter P (topic_files s))
      in delete_documents (\<lambda>d. topic_file_id d \<in> set ids)
           (s\<lparr>topic_files := filter (\<lambda>f. \<not> P f) (topic_files s)\<rparr>))"

text \<open>
  A delete of quizzes (\<open>quiz_questions.quiz_id\<close> and \<open>quiz_attempts.quiz_id\<close> are
  \<open>on delete cascade\<close>): the quizzes; then their questions and attempts; then the
  options of those questions and the answers to those questions or of those attempts;
  then the \<open>restrict\<close> check for those options.
\<close>

definition delete_quizzes :: "(quiz \<Rightarrow> bool) \<Rightarrow> 'e db \<Rightarrow> db_error + 'e db" where
  "delete_quizzes P s =
     (let ids = map quiz_id (filter P (quizzes s));
          qids = map qq_id (filter (\<lambda>q. qq_quiz_id q \<in> set ids) (quiz_questions s));
          aids = map qa_id (filter (\<lambda>a. qa_quiz_id a \<in> set ids) (quiz_attempts s));
          oids = map qo_id (filter (\<lambda>x. qo_question_id x \<in> set qids) (quiz_options s))
      in restrict_selected_options oids
           (s\<lparr>quizzes := filter (\<lambda>q. \<not> P q) (quizzes s),
              quiz_questions := filter (\<lambda>q. qq_quiz_id q \<notin> set ids) (quiz_questions s),
              quiz_attempts := filter (\<lambda>a. qa_quiz_id a \<notin> set ids) (quiz_attempts s),
              quiz_options := filter (\<lambda>x. qo_question_id x \<notin> set qids) (quiz_options s),
              attempt_answers :=
                filter (\<lambda>a. aa_question_id a \<notin> set qids \<and> aa_attempt_id a \<notin> set aids)
                  (attempt_answers s)\<rparr>))"

text \<open>
  \<open>delete from topics where id = tid\<close>, as the settings and archive views issue it in
  the session of user \<open>uid\<close>: the statement deletes the rows of that user; then the
  cascades to \<open>topic_summaries\<close>, \<open>topic_files\<close>, \<open>documents\<close>, \<open>chunks\<close> and \<open>quizzes\<close>,
  and the trigger \<open>t_topics_prune_category_after_delete\<close> for each deleted row. The
  trigger reads and writes \<open>topics\<close> and \<open>categories\<close> only, which no cascade touches, so
  its place among the cascades does not matter; a \<open>restrict\<close> violation in a cascade
  undoes all of it.
\<close>

definition delete_topics :: "uuid \<Rightarrow> uuid \<Rightarrow> 'e db \<Rightarrow> db_error + 'e db" where
  "delete_topics uid tid s =
     (let olds = filter (\<lambda>t. topic_id t = tid \<and> topic_user_id t = uid) (topics s);
          s0 = s\<lparr>topics := filter (\<lambda>t. \<not> (topic_id t = tid \<and> topic_user_id t = uid)) (topics s)\<rparr>;
          s1 = delete_topic_summaries (\<lambda>x. ts_topic_id x = tid \<and> olds \<noteq> []) s0;
          s2 = delete_topic_files (\<lambda>f. tf_topic_id f = tid \<and> olds \<noteq> []) s1;
          s3 = delete_documents (\<lambda>d. doc_topic_id d = tid \<and> olds \<noteq> []) s2;
          s4 = delete_chunks (\<lambda>c. chunk_topic_id c = tid \<and> olds \<noteq> []) s3
      in case delete_quizzes (\<lambda>q. quiz_topic_id q = tid \<and> olds \<noteq> []) s4 of
           Inl e \<Rightarrow> Inl e
         | Inr s5 \<Rightarrow> Inr (fold (prune_orphan_category uid) olds s5))"

text \<open>
  \<open>update topics set name = ..., category_id = cid where id = tid\<close>, as the settings view
  issues it in the session of user \<open>uid\<close>: the statement updates the rows of that user
  (\<open>user_id\<close> is not written, so the new row passes the policy). The foreign key is
  checked for a row whose \<open>category_id\<close> changes. The trigger
  \<open>t_topics_prune_category_after_update\<close> fires for the rows with
  \<open>old.category_id is distinct from new.category_id\<close>.
\<close>

definition update_topics_category ::
  "uuid \<Rightarrow> uuid \<Rightarrow> uuid option \<Rightarrow> 'e db \<Rightarrow> db_error + 'e db" where
  "update_topics_category uid tid cid s =
     (let changed = filter (\<lambda>t. topic_id t = tid \<and> topic_user_id t = uid \<and> category_id t \<noteq> cid)
                      (topics s)
      in if changed \<noteq> [] \<and> (case cid of None \<Rightarrow> False
                                | Some c \<Rightarrow> c \<notin> cat_id ` set (categories s))
         then Inl Foreign_key_violation
         else Inr (fold (prune_orphan_category uid) changed
                     (s\<lparr>topics := map (\<lambda>t. if topic_id t = tid \<and> topic_user_id t = uid
                                           then t\<lparr>category_id := cid\<rparr> else t)
                                     (topics s)\<rparr>)))"

subsection \<open>Creating quizzes and topics (TopicQuizzes.tsx, CreateTopicDialog.tsx)\<close>

text \<open>
  \<open>insert into quizzes\<close>: \<open>check (length in (5,10,20))\<close>, the primary key and the
  foreign key to \<open>topics\<close>.
\<close>

definition insert_quiz :: "quiz \<Rightarrow> 'e db \<Rightarrow> db_error + 'e db" where
  "insert_quiz q s =
     (if quiz_length q \<notin> {5, 10, 20} then Inl Check_violation
      else if quiz_id q \<in> quiz_id ` set (quizzes s) then Inl Unique_violation
      else if quiz_topic_id q \<notin> topic_id ` set (topics s) then Inl Foreign_key_violation
      else Inr (s\<lparr>quizzes := quizzes s @ [q]\<rparr>))"

text \<open>
  \<open>generate\<close>, up to its call of the generation endpoint: it inserts the quiz row with
  \<open>status: "pending"\<close>. \<open>len\<close> is \<open>parseInt(config.count || "10", 10)\<close>, \<open>None\<close> when
  that is \<open>NaN\<close>, which is sent as \<open>null\<close> for the \<open>not null\<close> column \<open>length\<close>. The id is
  the \<open>gen_random_uuid()\<close> default, here an argument. After the call of the endpoint
  \<open>generate\<close> only reads the status (\<open>pollStatus\<close>).
\<close>

definition generate_insert ::
  "uuid \<Rightarrow> uuid \<Rightarrow> uuid \<Rightarrow> int option \<Rightarrow> 'e db \<Rightarrow> db_error + 'e db" where
  "generate_insert new_id tid user len s =
     (case len of
        None \<Rightarrow> Inl Not_null_violation
      | Some n \<Rightarrow>
          (case insert_quiz \<lparr>quiz_id = new_id, quiz_topic_id = tid, quiz_user_id = user,
                             quiz_length = n, quiz_status = Pending\<rparr> s of
             Inl e \<Rightarrow> Inl e
           | Inr s1 \<Rightarrow>
               Inr (s1\<lparr>status_writes := status_writes s1 @ [(Frontend, Quiz_job new_id, Pending)]\<rparr>)))"

text \<open>
  \<open>insert into topics\<close>: the primary key and the foreign key to \<open>categories\<close>.
  \<open>insert into topic_summaries\<close>: the primary key, \<open>unique(topic_id, type)\<close> and the
  foreign key to \<open>topics\<close>.
\<close>

definition insert_topic :: "topic \<Rightarrow> 'e db \<Rightarrow> db_error + 'e db" where
  "insert_topic t s =
     (if topic_id t \<in> topic_id ` set (topics s) then Inl Unique_violation
      else if (case category_id t of None \<Rightarrow> False | Some c \<Rightarrow> c \<notin> cat_id ` set (categories s))
        then Inl Foreign_key_violation
      else Inr (s\<lparr>topics := topics s @ [t]\<rparr>))"

definition insert_topic_summary :: "topic_summary \<Rightarrow> 'e db \<Rightarrow> db_error + 'e db" where
  "insert_topic_summary x s =
     (if ts_id x \<in> ts_id ` set (topic_summaries s) then Inl Unique_violation
      else if (\<exists>y \<in> set (topic_summaries s). ts_topic_id y = ts_topic_id x \<and> ts_type y = ts_type x)
        then Inl Unique_violation
      else if ts_topic_id x \<notin> topic_id ` set (topics s) then Inl Foreign_key_violation
      else Inr (s\<lparr>topic_summaries := topic_summaries s @ [x]\<rparr>))"

text \<open>
  \<open>handleCreate\<close>, after \<open>ensureCategory\<close> has returned \<open>categoryId\<close>: it inserts the topic
  for the signed-in user (so the new row passes the policy of \<open>topics\<close>), then the three
  summaries with \<open>status: "pending"\<close> in one statement, whose result it does not look
  at. The ids are the \<open>gen_random_uuid()\<close> defaults, here arguments.
\<close>

definition handleCreate ::
  "uuid \<Rightarrow> uuid \<Rightarrow> uuid \<Rightarrow> uuid \<Rightarrow> uuid \<Rightarrow> uuid option \<Rightarrow> 'e db \<Rightarrow> 'e db \<times> db_error option" where
  "handleCreate new_id id1 id2 id3 user categoryId s =
     (case insert_topic \<lparr>topic_id = new_id, topic_user_id = user, category_id = categoryId\<rparr> s of
        Inl e \<Rightarrow> (s, Some e)
      | Inr s1 \<Rightarrow>
          (case insert_all insert_topic_summary
                  [\<lparr>ts_id = id1, ts_topic_id = new_id, ts_type = Short, ts_status = Pending\<rparr>,
                   \<lparr>ts_id = id2, ts_topic_id = new_id, ts_type = Long, ts_status = Pending\<rparr>,
                   \<lparr>ts_id = id3, ts_topic_id = new_id, ts_type = Key_concepts,
                     ts_status = Pending\<rparr>] s1 of
             Inl e \<Rightarrow> (s1, None)
           | Inr s2 \<Rightarrow>
               (s2\<lparr>status_writes := status_writes s2 @
                     [(Frontend, Summary_job id1, Pending), (Frontend, Summary_job id2, Pending),
                      (Frontend, Summary_job id3, Pending)]\<rparr>, None)))"

subsection \<open>The quiz runner (quizzes/[quizId]/page.tsx)\<close>

text \<open>
  The runner's state: the questions loaded for the quiz, each with its choices, and the
  answers given so far (question id to chosen option id).
\<close>

record choice =
  ch_id :: uuid
  isCorrect :: bool

record question =
  q_id :: uuid
  q_choices :: "choice list"

record detail =
  d_id :: uuid
  correctChoiceId :: "uuid option"
  yourChoiceId :: "uuid option"

text \<open>
  \<open>correctChoiceId: correctOpt?.id || ""\<close> is \<open>None\<close> for the empty string, and
  \<open>yourChoiceId: answers[qq.id] ?? null\<close> is \<open>None\<close> for \<open>null\<close>. An id is never empty, and
  \<open>null === ""\<close> is false.
\<close>

definition details_of :: "question list \<Rightarrow> (uuid \<rightharpoonup> uuid) \<Rightarrow> detail list" where
  "details_of questions answers =
     map (\<lambda>qq. \<lparr>d_id = q_id qq,
                correctChoiceId = map_option ch_id (find isCorrect (q_choices qq)),
                yourChoiceId = answers (q_id qq)\<rparr>) questions"

definition strict_equal :: "uuid option \<Rightarrow> uuid option \<Rightarrow> bool" where
  "strict_equal your correct = (case your of None \<Rightarrow> False | Some y \<Rightarrow> correct = Some y)"

text \<open>A row of the \<open>attempt_answers\<close> insert; \<open>selected_option_id\<close> may be \<open>null\<close>.\<close>

record answer_row =
  ar_attempt_id :: uuid
  ar_question_id :: uuid
  ar_selected_option_id :: "uuid option"
  ar_is_correct :: bool

definition insert_quiz_attempt :: "quiz_attempt \<Rightarrow> 'e db \<Rightarrow> db_error + 'e db" where
  "insert_quiz_attempt a s =
     (if qa_id a \<in> qa_id ` set (quiz_attempts s) then Inl Unique_violation
      else if qa_quiz_id a \<notin> quiz_id ` set (quizzes s) then Inl Foreign_key_violation
      else Inr (s\<lparr>quiz_attempts := quiz_attempts s @ [a]\<rparr>))"

text \<open>
  One row: \<open>selected_option_id uuid not null\<close>, the primary key
  \<open>(attempt_id, question_id)\<close>, and the three foreign keys.
\<close>

definition insert_attempt_answer :: "answer_row \<Rightarrow> 'e db \<Rightarrow> db_error + 'e db" where
  "insert_attempt_answer r s =
     (case ar_selected_option_id r of
        None \<Rightarrow> Inl Not_null_violation
      | Some sel \<Rightarrow>
          if \<exists>a \<in> set (attempt_answers s).
               aa_attempt_id a = ar_attempt_id r \<and> aa_question_id a = ar_question_id r
          then Inl Unique_violation
          else if ar_attempt_id r \<notin> qa_id ` set (quiz_attempts s) then Inl Foreign_key_violation
          else if ar_question_id r \<notin> qq_id ` set (quiz_questions s) then Inl Foreign_key_violation
          else if sel \<notin> qo_id ` set (quiz_options s) then Inl Foreign_key_violation
          else Inr (s\<lparr>attempt_answers := attempt_answers s @
                       [\<lparr>aa_attempt_id = ar_attempt_id r, aa_question_id = ar_question_id r,
                         selected_option_id = sel, aa_is_correct = ar_is_correct r\<rparr>]\<rparr>))"

text \<open>
  A JavaScript number is an IEEE 754 double. A finite double that is not negative is
  written here as a pair \<open>(p, q)\<close> of natural numbers, for the value \<open>p / q\<close>. The result
  of \<open>/\<close> and of \<open>*\<close> is the exact quotient or product rounded to 53 significant bits: to
  the nearest such number, and to the one with an even last bit when two are nearest.
  \<open>normalise\<close> scales a fraction by a power of two into the interval from \<open>2^52\<close> to
  \<open>2^53\<close>, where the numbers with 53 significant bits are the integers. The exponent
  range of a double (\<open>2^-1022\<close> to \<open>2^1024\<close>) is not modelled: the quotient of two
  array lengths and its product with 100 are far inside it.
\<close>

function normalise :: "nat \<Rightarrow> nat \<Rightarrow> nat \<times> nat" where
  "normalise p q =
     (if p = 0 \<or> q = 0 then (p, q)
      else if p < 2 ^ 52 * q then normalise (2 * p) q
      else if 2 ^ 53 * q \<le> p then normalise p (2 * q)
      else (p, q))"
  by pat_completeness auto
termination
  by (relation "measure (\<lambda>(p, q). (2 ^ 52 * q - p) + (Suc p - 2 ^ 53 * q))") auto

declare normalise.simps [simp del]

definition round_half_even :: "nat \<Rightarrow> nat \<Rightarrow> nat" where
  "round_half_even p q =
     (let d = p div q; r = p mod q
      in if 2 * r < q then d else if q < 2 * r then d + 1 else if even d then d else d + 1)"

text \<open>The double nearest to \<open>p / q\<close>.\<close>

definition to_double :: "nat \<Rightarrow> nat \<Rightarrow> nat \<times> nat" where
  "to_double p q =
     (if p = 0 then (0, 1)
      else (let (p', q') = normalise p q
            in (round_half_even p' q' * (q' div q), p' div p)))"

text \<open>
  \<open>a / b\<close> for two array lengths, \<open>x * n\<close> for a double and an integer constant, and
  \<open>Math.round\<close>, which is \<open>floor(x + 0.5)\<close> taken exactly.
\<close>

definition double_divide :: "nat \<Rightarrow> nat \<Rightarrow> nat \<times> nat" where
  "double_divide a b = to_double a b"

definition double_times :: "nat \<times> nat \<Rightarrow> nat \<Rightarrow> nat \<times> nat" where
  "double_times x n = to_double (fst x * n) (snd x)"

definition Math_round :: "nat \<times> nat \<Rightarrow> int" where
  "Math_round x = int ((2 * fst x + snd x) div (2 * snd x))"

text \<open>
  \<open>Math.round((correct / total) * 100)\<close>. With no question the quotient is \<open>NaN\<close> (or
  an infinity), which the client sends as \<open>null\<close>.
\<close>

definition score_of :: "nat \<Rightarrow> nat \<Rightarrow> int option" where
  "score_of correct total_questions =
     (if total_questions = 0 then None
      else Some (Math_round (double_times (double_divide correct total_questions) 100)))"

text \<open>
  \<open>update quiz_attempts set submitted_at = now, score_percent = score where id =
  attemptId\<close>, with \<open>check (score_percent between 0 and 100)\<close>.
\<close>

definition finalize_attempt ::
  "uuid \<Rightarrow> timestamptz \<Rightarrow> int option \<Rightarrow> 'e db \<Rightarrow> db_error + 'e db" where
  "finalize_attempt attemptId now score s =
     (if (\<exists>a \<in> set (quiz_attempts s). qa_id a = attemptId)
         \<and> (case score of None \<Rightarrow> False | Some v \<Rightarrow> v < 0 \<or> 100 < v)
      then Inl Check_violation
      else Inr (s\<lparr>quiz_attempts :=
                  map (\<lambda>a. if qa_id a = attemptId
                            then a\<lparr>submitted_at := Some now, score_percent := score\<rparr> else a)
                    (quiz_attempts s)\<rparr>))"

text \<open>
  \<open>submit\<close>: creates the attempt, inserts one answer row per question (one statement),
  computes the score and finalizes the attempt. Each call to the database is a
  transaction of its own: an error stops \<open>submit\<close> and keeps what the earlier calls wrote.
  The result is the state and the error, if any.
\<close>

definition submit ::
  "uuid \<Rightarrow> uuid \<Rightarrow> uuid \<Rightarrow> timestamptz \<Rightarrow> question list \<Rightarrow> (uuid \<rightharpoonup> uuid) \<Rightarrow> 'e db
     \<Rightarrow> 'e db \<times> db_error option" where
  "submit attemptId user quizId now questions answers s =
     (case insert_quiz_attempt
             \<lparr>qa_id = attemptId, qa_quiz_id = quizId, qa_user_id = user,
              submitted_at = None, score_percent = None\<rparr> s of
        Inl e \<Rightarrow> (s, Some e)
      | Inr s1 \<Rightarrow>
          (let details = details_of questions answers;
               answerRows = map (\<lambda>d. \<lparr>ar_attempt_id = attemptId, ar_question_id = d_id d,
                                       ar_selected_option_id = yourChoiceId d,
                                       ar_is_correct = strict_equal (yourChoiceId d) (correctChoiceId d)\<rparr>)
                              details;
               correct = length (filter (\<lambda>d. strict_equal (yourChoiceId d) (correctChoiceId d)) details);
               total_questions = length questions
           in case insert_all insert_attempt_answer answerRows s1 of
                Inl e \<Rightarrow> (s1, Some e)
              | Inr s2 \<Rightarrow>
                  (case finalize_attempt attemptId now (score_of correct total_questions) s2 of
                     Inl e \<Rightarrow> (s2, Some e)
                   | Inr s3 \<Rightarrow> (s3, None))))"

text \<open>Descending order of the reported similarity, \<open>NULL\<close> last.\<close>

definition nulls_last_ge :: "real option \<Rightarrow> real option \<Rightarrow> bool" where
  "nulls_last_ge a b =
     (case b of None \<Rightarrow> True | Some y \<Rightarrow> (case a of None \<Rightarrow> False | Some x \<Rightarrow> y \<le> x))"

text \<open>
  The tie-break of the specification, written from its words: in the executor's output,
  rows with equal sort key are in insertion order (ascending \<open>chunks.id\<close>).
\<close>

definition spec_ties_in_insertion_order ::
  "('e \<Rightarrow> 'e \<Rightarrow> real) \<Rightarrow> 'e option \<Rightarrow> ('e chunk \<times> document) list \<Rightarrow> bool" where
  "spec_ties_in_insertion_order cosd q ys =
     sorted_wrt (\<lambda>a b. distance cosd (embedding (fst a)) q = distance cosd (embedding (fst b)) q
                       \<longrightarrow> chunk_id (fst a) < chunk_id (fst b)) ys"

text \<open>
  What the insert stores for a row whose \<open>selected_option_id\<close> is not \<open>null\<close>.
\<close>

definition stored_answer :: "answer_row \<Rightarrow> attempt_answer" where
  "stored_answer r = \<lparr>aa_attempt_id = ar_attempt_id r, aa_question_id = ar_question_id r,
     selected_option_id = the (ar_selected_option_id r), aa_is_correct = ar_is_correct r\<rparr>"

text \<open>
  The number of questions whose chosen option is the question's correct option, as
  \<open>submit\<close> counts it.
\<close>

definition correct_count :: "question list \<Rightarrow> (uuid \<rightharpoonup> uuid) \<Rightarrow> nat" where
  "correct_count questions answers =
     length (filter (\<lambda>qq. strict_equal (answers (q_id qq))
                             (map_option ch_id (find isCorrect (q_choices qq)))) questions)"

subsection \<open>Example states\<close>

definition file1 :: topic_file where
  "file1 = \<lparr>tf_id = 1, tf_topic_id = 1, tf_user_id = 1, storage_path = ''1/1/0_a.pdf'',
            include_in_rag = True, vector_status = Ingested, deleted_at = None\<rparr>"

definition chunk1 :: "nat chunk" where
  "chunk1 = \<lparr>chunk_id = 1, document_id = 1, chunk_topic_id = 1, content = ''alpha'',
             embedding = Some 0, is_active = True, metadata = None\<rparr>"

definition chunk2 :: "nat chunk" where
  "chunk2 = \<lparr>chunk_id = 2, document_id = 1, chunk_topic_id = 1, content = ''beta'',
             embedding = Some 0, is_active = True, metadata = None\<rparr>"

definition db0 :: "nat db" where
  "db0 = \<lparr>categories = [], topics = [\<lparr>topic_id = 1, topic_user_id = 1, category_id = None\<rparr>],
          topic_summaries = [], topic_files = [file1],
          documents = [\<lparr>doc_id = 1, doc_topic_id = 1, topic_file_id = 1\<rparr>],
          chunks = [chunk1, chunk2], chunks_id_seq = 3,
          quizzes = [], quiz_questions = [], quiz_options = [], quiz_attempts = [],
          attempt_answers = [], is_active_writes = [], status_writes = []\<rparr>"

text \<open>A file whose ingestion has started: its document is stored, no chunk yet.\<close>

definition file_ingesting :: topic_file where
  "file_ingesting = file1\<lparr>vector_status := Ingesting\<rparr>"

definition db_ingesting :: "nat db" where
  "db_ingesting = db0\<lparr>topic_files := [file_ingesting], chunks := []\<rparr>"

text \<open>A quiz with two questions, two options each, and one submitted attempt.\<close>

definition opt1 :: quiz_option where
  "opt1 = \<lparr>qo_id = 1, qo_question_id = 1, qo_is_correct = True\<rparr>"

definition opt_second_correct :: quiz_option where
  "opt_second_correct = \<lparr>qo_id = 9, qo_question_id = 1, qo_is_correct = True\<rparr>"

definition db_quiz :: "nat db" where
  "db_quiz = db0\<lparr>
     quizzes := [\<lparr>quiz_id = 1, quiz_topic_id = 1, quiz_user_id = 1, quiz_length = 10,
                  quiz_status = Ready\<rparr>],
     quiz_questions := [\<lparr>qq_id = 1, qq_quiz_id = 1, order_index = 0\<rparr>,
                        \<lparr>qq_id = 2, qq_quiz_id = 1, order_index = 1\<rparr>],
     quiz_options := [opt1, \<lparr>qo_id = 2, qo_question_id = 1, qo_is_correct = False\<rparr>,
                      \<lparr>qo_id = 3, qo_question_id = 2, qo_is_correct = True\<rparr>,
                      \<lparr>qo_id = 4, qo_question_id = 2, qo_is_correct = False\<rparr>],
     quiz_attempts := [\<lparr>qa_id = 1, qa_quiz_id = 1, qa_user_id = 1, submitted_at = Some 5,
                        score_percent = Some 50\<rparr>],
     attempt_answers := [\<lparr>aa_attempt_id = 1, aa_question_id = 1, selected_option_id = 1,
                           aa_is_correct = True\<rparr>,
                         \<lparr>aa_attempt_id = 1, aa_question_id = 2, selected_option_id = 4,
                           aa_is_correct = False\<rparr>]\<rparr>"

text \<open>
  Two topics. In topic 1 the chunks 1 and 2 have the same embedding and chunk 4 is
  inactive; chunk 3 belongs to topic 2. The example distance is 0 between equal
  embeddings and 1 otherwise.
\<close>

definition example_distance :: "nat \<Rightarrow> nat \<Rightarrow> real" where
  "example_distance a b = (if a = b then 0 else 1)"

definition doc1 :: document where
  "doc1 = \<lparr>doc_id = 1, doc_topic_id = 1, topic_file_id = 1\<rparr>"

definition doc2 :: document where
  "doc2 = \<lparr>doc_id = 2, doc_topic_id = 2, topic_file_id = 2\<rparr>"

definition chunk3 :: "nat chunk" where
  "chunk3 = \<lparr>chunk_id = 3, document_id = 2, chunk_topic_id = 2, content = ''other topic'',
             embedding = Some 5, is_active = True, metadata = None\<rparr>"

definition chunk4 :: "nat chunk" where
  "chunk4 = \<lparr>chunk_id = 4, document_id = 1, chunk_topic_id = 1, content = ''inactive'',
             embedding = Some 5, is_active = False, metadata = None\<rparr>"

definition db_search :: "nat db" where
  "db_search = db0\<lparr>
     topics := [\<lparr>topic_id = 1, topic_user_id = 1, category_id = None\<rparr>,
                \<lparr>topic_id = 2, topic_user_id = 1, category_id = None\<rparr>],
     documents := [doc1, doc2],
     chunks := [chunk1, chunk2, chunk3, chunk4], chunks_id_seq := 5\<rparr>"





text \<open>The file of \<open>db0\<close> after the user has switched it off.\<close>

definition file_excluded :: topic_file where
  "file_excluded = file1\<lparr>include_in_rag := False, vector_status := Excluded\<rparr>"

definition db_excluded :: "nat db" where
  "db_excluded = db0\<lparr>topic_files := [file_excluded],
                     chunks := [chunk1\<lparr>is_active := False\<rparr>, chunk2\<lparr>is_active := False\<rparr>]\<rparr>"

text \<open>
  One category of user 1 with two topics of user 1; and a category of user 2 that a
  topic of user 1 refers to (the foreign key does not look at the owner).
\<close>

definition topic1 :: topic where
  "topic1 = \<lparr>topic_id = 1, topic_user_id = 1, category_id = Some 1\<rparr>"

definition topic2 :: topic where
  "topic2 = \<lparr>topic_id = 2, topic_user_id = 1, category_id = Some 1\<rparr>"

definition db_category :: "nat db" where
  "db_category = db0\<lparr>categories := [\<lparr>cat_id = 1, cat_user_id = 1\<rparr>],
                     topics := [topic1, topic2], topic_files := [], documents := [],
                     chunks := []\<rparr>"

definition db_foreign_category :: "nat db" where
  "db_foreign_category = db0\<lparr>categories := [\<lparr>cat_id = 1, cat_user_id = 2\<rparr>],
                             topics := [topic1], topic_files := [], documents := [],
                             chunks := []\<rparr>"

text \<open>The category of user 1, with a topic of user 1 and a topic of user 2.\<close>

definition topic3 :: topic where
  "topic3 = \<lparr>topic_id = 3, topic_user_id = 2, category_id = Some 1\<rparr>"

definition db_shared_category :: "nat db" where
  "db_shared_category = db_category\<lparr>topics := [topic1, topic3]\<rparr>"

text \<open>
  The quiz of \<open>db_quiz\<close> and a second quiz with one question, two options and one
  attempt.
\<close>

definition db_two_quizzes :: "nat db" where
  "db_two_quizzes = db_quiz\<lparr>
     quizzes := quizzes db_quiz @
       [\<lparr>quiz_id = 2, quiz_topic_id = 1, quiz_user_id = 1, quiz_length = 5, quiz_status = Ready\<rparr>],
     quiz_questions := quiz_questions db_quiz @ [\<lparr>qq_id = 3, qq_quiz_id = 2, order_index = 0\<rparr>],
     quiz_options := quiz_options db_quiz @
       [\<lparr>qo_id = 5, qo_question_id = 3, qo_is_correct = True\<rparr>,
        \<lparr>qo_id = 6, qo_question_id = 3, qo_is_correct = False\<rparr>],
     quiz_attempts := quiz_attempts db_quiz @
       [\<lparr>qa_id = 2, qa_quiz_id = 2, qa_user_id = 1, submitted_at = Some 6,
         score_percent = Some 100\<rparr>],
     attempt_answers := attempt_answers db_quiz @
       [\<lparr>aa_attempt_id = 2, aa_question_id = 3, selected_option_id = 5, aa_is_correct = True\<rparr>]\<rparr>"





section \<open>Chunk syncing: proofs\<close>

lemma filter_key_singleton:
  "distinct (map k xs) \<Longrightarrow> x \<in> set xs \<Longrightarrow> filter (\<lambda>y. k y = k x) xs = [x]"
proof (induction xs)
  case Nil
  then show ?case by simp
next
  case (Cons a xs)
  show ?case
  proof (cases "a = x")
    case True
    from Cons.prems True have "k x \<notin> k ` set xs" by simp
    then have "\<forall>y \<in> set xs. k y \<noteq> k x" by (auto simp: image_iff)
    then have "filter (\<lambda>y. k y = k x) xs = []" by (simp add: filter_empty_conv)
    with True show ?thesis by simp
  next
    case False
    with Cons.prems have in_tl: "x \<in> set xs" and "distinct (map k xs)" by auto
    moreover from Cons.prems have "k a \<notin> k ` set xs" by simp
    with in_tl have "k a \<noteq> k x" by (auto simp: image_iff)
    ultimately show ?thesis using Cons.IH by simp
  qed
qed

lemma sync_documents [simp]: "documents (sync_chunks_active_from_file new s) = documents s"
  by (simp add: sync_chunks_active_from_file_def Let_def)

lemma sync_topic_files [simp]: "topic_files (sync_chunks_active_from_file new s) = topic_files s"
  by (simp add: sync_chunks_active_from_file_def Let_def)

lemma sync_file_document_ids [simp]:
  "file_document_ids (sync_chunks_active_from_file new s) fid = file_document_ids s fid"
  by (simp add: file_document_ids_def)

lemma sync_active_in_sync: "active_in_sync (sync_chunks_active_from_file new s) new"
  by (auto simp: active_in_sync_def sync_chunks_active_from_file_def Let_def file_document_ids_def)

lemma sync_fold_frame:
  "topic_files (fold sync_chunks_active_from_file news s) = topic_files s
   \<and> documents (fold sync_chunks_active_from_file news s) = documents s"
  by (induction news arbitrary: s) simp_all

lemma update_topic_files_rows:
  "topic_files (update_topic_files fid inc vs del s) =
     map (\<lambda>f. if tf_id f = fid then set_columns inc vs del f else f) (topic_files s)"
  by (simp add: update_topic_files_def Let_def sync_fold_frame)

lemma update_topic_files_documents [simp]:
  "documents (update_topic_files fid inc vs del s) = documents s"
  by (simp add: update_topic_files_def Let_def sync_fold_frame)

lemma update_topic_files_document_ids [simp]:
  "file_document_ids (update_topic_files fid inc vs del s) g = file_document_ids s g"
  by (simp add: file_document_ids_def)

lemma update_topic_files_one:
  assumes pk: "distinct (map tf_id (topic_files s))"
    and row: "f \<in> set (topic_files s)"
    and cols: "inc \<noteq> None \<or> vs \<noteq> None"
  shows "update_topic_files (tf_id f) inc vs del s =
           sync_chunks_active_from_file (set_columns inc vs del f)
             (s\<lparr>topic_files :=
                  map (\<lambda>g. if tf_id g = tf_id f then set_columns inc vs del g else g)
                    (topic_files s)\<rparr>)"
proof -
  have "filter (\<lambda>g. tf_id g = tf_id f) (topic_files s) = [f]"
    using filter_key_singleton [OF pk row] .
  with cols show ?thesis by (simp add: update_topic_files_def Let_def)
qed

lemma key_row_unique:
  assumes pk: "distinct (map k xs)" and x: "x \<in> set xs" and y: "y \<in> set xs"
    and same: "k y = k x"
  shows "y = x"
proof -
  from y same have "y \<in> set (filter (\<lambda>z. k z = k x) xs)" by simp
  then show ?thesis by (simp add: filter_key_singleton [OF pk x])
qed

text \<open>
  C1 (as amended). When an \<open>UPDATE\<close> of a file row names \<open>include_in_rag\<close> or
  \<open>vector_status\<close> (as every statement that changes one of them does), the row with that
  id becomes the updated row, and the chunks after the statement are the chunks before
  it, in the same order, where every chunk of a document of the file has \<open>is_active =
  (include_in_rag \<and> vector_status = ingested)\<close> of the updated row and every other chunk
  is as it was; no file row of another id and no document is changed. So Invariant 1
  holds for the file once the statement and its trigger are done. An \<open>UPDATE\<close> of the
  row that names neither column changes no chunk.
\<close>

theorem file_update_syncs_chunks:
  assumes pk: "distinct (map tf_id (topic_files s))"
    and row: "f \<in> set (topic_files s)"
    and cols: "inc \<noteq> None \<or> vs \<noteq> None"
  shows "chunks (update_topic_files (tf_id f) inc vs del s) =
           map (\<lambda>c. if document_id c \<in> set (file_document_ids s (tf_id f))
                     then c\<lparr>is_active := (include_in_rag (set_columns inc vs del f)
                                           \<and> vector_status (set_columns inc vs del f) = Ingested)\<rparr>
                     else c) (chunks s)
       \<and> topic_files (update_topic_files (tf_id f) inc vs del s) =
           map (\<lambda>g. if tf_id g = tf_id f then set_columns inc vs del f else g) (topic_files s)
       \<and> documents (update_topic_files (tf_id f) inc vs del s) = documents s
       \<and> active_in_sync (update_topic_files (tf_id f) inc vs del s) (set_columns inc vs del f)
       \<and> chunks (update_topic_files (tf_id f) None None del s) = chunks s"
proof -
  let ?new = "set_columns inc vs del f"
  let ?s1 = "s\<lparr>topic_files :=
     map (\<lambda>g. if tf_id g = tf_id f then set_columns inc vs del g else g) (topic_files s)\<rparr>"
  have upd: "update_topic_files (tf_id f) inc vs del s = sync_chunks_active_from_file ?new ?s1"
    by (rule update_topic_files_one [OF pk row cols])
  have id_new: "tf_id ?new = tf_id f" by (simp add: set_columns_def)
  have docs: "file_document_ids ?s1 (tf_id f) = file_document_ids s (tf_id f)"
    by (simp add: file_document_ids_def)
  have a: "chunks (update_topic_files (tf_id f) inc vs del s) =
           map (\<lambda>c. if document_id c \<in> set (file_document_ids s (tf_id f))
                     then c\<lparr>is_active := (include_in_rag ?new \<and> vector_status ?new = Ingested)\<rparr>
                     else c) (chunks s)"
    unfolding upd by (simp add: sync_chunks_active_from_file_def Let_def id_new docs)
  have "map (\<lambda>g. if tf_id g = tf_id f then set_columns inc vs del g else g) (topic_files s) =
        map (\<lambda>g. if tf_id g = tf_id f then ?new else g) (topic_files s)"
  proof (rule map_cong [OF refl])
    fix g assume g: "g \<in> set (topic_files s)"
    show "(if tf_id g = tf_id f then set_columns inc vs del g else g) =
          (if tf_id g = tf_id f then ?new else g)"
      using key_row_unique [OF pk row g] by auto
  qed
  then have b: "topic_files (update_topic_files (tf_id f) inc vs del s) =
           map (\<lambda>g. if tf_id g = tf_id f then ?new else g) (topic_files s)"
    by (simp only: update_topic_files_rows)
  have c: "documents (update_topic_files (tf_id f) inc vs del s) = documents s" by simp
  have d: "active_in_sync (update_topic_files (tf_id f) inc vs del s) ?new"
    unfolding upd by (rule sync_active_in_sync)
  have e: "chunks (update_topic_files (tf_id f) None None del s) = chunks s"
    by (simp add: update_topic_files_def Let_def)
  from a b c d e show ?thesis by (intro conjI)
qed

theorem file_update_syncs_chunks_witness:
  "distinct (map tf_id (topic_files db_search)) \<and> file1 \<in> set (topic_files db_search)
   \<and> map (\<lambda>c. (chunk_id c, document_id c, is_active c)) (chunks db_search) =
        [(1, 1, True), (2, 1, True), (3, 2, True), (4, 1, False)]
   \<and> file_document_ids db_search (tf_id file1) = [1]
   \<and> map (\<lambda>c. (chunk_id c, document_id c, is_active c))
        (chunks (update_topic_files (tf_id file1) (Some False) None None db_search)) =
        [(1, 1, False), (2, 1, False), (3, 2, True), (4, 1, False)]
   \<and> map (\<lambda>c. (chunk_id c, document_id c, is_active c))
        (chunks (update_topic_files (tf_id file1) None (Some Ingested) None db_search)) =
        [(1, 1, True), (2, 1, True), (3, 2, True), (4, 1, True)]"
proof -
  have pk: "distinct (map tf_id (topic_files db_search))" by (simp add: db_search_def db0_def)
  have row: "file1 \<in> set (topic_files db_search)" by (simp add: db_search_def db0_def)
  have before: "map (\<lambda>c. (chunk_id c, document_id c, is_active c)) (chunks db_search) =
        [(1, 1, True), (2, 1, True), (3, 2, True), (4, 1, False)]"
    by (simp add: db_search_def chunk1_def chunk2_def chunk3_def chunk4_def)
  have docs: "file_document_ids db_search (tf_id file1) = [1]"
    by (simp add: file_document_ids_def db_search_def doc1_def doc2_def file1_def)
  have c1: "Some False \<noteq> None \<or> (None :: vector_status option) \<noteq> None" by simp
  have c2: "(None :: bool option) \<noteq> None \<or> Some Ingested \<noteq> None" by simp
  from file_update_syncs_chunks [OF pk row c1, where del = None]
  have "chunks (update_topic_files (tf_id file1) (Some False) None None db_search) =
           map (\<lambda>c. if document_id c \<in> set (file_document_ids db_search (tf_id file1))
                     then c\<lparr>is_active := (include_in_rag (set_columns (Some False) None None file1)
                                 \<and> vector_status (set_columns (Some False) None None file1) = Ingested)\<rparr>
                     else c) (chunks db_search)"
    by (rule conjunct1)
  then have off: "map (\<lambda>c. (chunk_id c, document_id c, is_active c))
        (chunks (update_topic_files (tf_id file1) (Some False) None None db_search)) =
        [(1, 1, False), (2, 1, False), (3, 2, True), (4, 1, False)]"
    by (simp only: docs)
      (simp add: set_columns_def db_search_def chunk1_def chunk2_def chunk3_def chunk4_def)
  from file_update_syncs_chunks [OF pk row c2, where del = None]
  have "chunks (update_topic_files (tf_id file1) None (Some Ingested) None db_search) =
           map (\<lambda>c. if document_id c \<in> set (file_document_ids db_search (tf_id file1))
                     then c\<lparr>is_active := (include_in_rag (set_columns None (Some Ingested) None file1)
                                 \<and> vector_status (set_columns None (Some Ingested) None file1) = Ingested)\<rparr>
                     else c) (chunks db_search)"
    by (rule conjunct1)
  then have on: "map (\<lambda>c. (chunk_id c, document_id c, is_active c))
        (chunks (update_topic_files (tf_id file1) None (Some Ingested) None db_search)) =
        [(1, 1, True), (2, 1, True), (3, 2, True), (4, 1, True)]"
    by (simp only: docs)
      (simp add: set_columns_def file1_def db_search_def chunk1_def chunk2_def chunk3_def
        chunk4_def)
  from pk row before docs off on show ?thesis by (intro conjI)
qed

text \<open>
  C1, the claim as stated: a chunk is stored for the document of a file that is in
  \<open>ingesting\<close>; then an \<open>UPDATE\<close> of the file row sets \<open>deleted_at\<close> only. The statement is
  a mutation of the file, and after it the chunk is active although the file is not
  ingested.
\<close>

theorem file_update_without_columns_counterexample:
  "\<exists>t. insert_chunk 1 1 ''gamma'' None None None db_ingesting = Inr t
      \<and> topic_files (update_topic_files 1 None None (Some 7) t) =
          [file_ingesting\<lparr>deleted_at := Some 7\<rparr>]
      \<and> vector_status (file_ingesting\<lparr>deleted_at := Some 7\<rparr>) = Ingesting
      \<and> file_document_ids (update_topic_files 1 None None (Some 7) t) 1 = [1]
      \<and> map (\<lambda>c. (document_id c, is_active c))
           (chunks (update_topic_files 1 None None (Some 7) t)) = [(1, True)]
      \<and> \<not> active_in_sync (update_topic_files 1 None None (Some 7) t)
            (file_ingesting\<lparr>deleted_at := Some 7\<rparr>)"
proof -
  let ?t = "db_ingesting\<lparr>chunks := [\<lparr>chunk_id = 3, document_id = 1, chunk_topic_id = 1,
                                     content = ''gamma'', embedding = None, is_active = True,
                                     metadata = None\<rparr>],
                       chunks_id_seq := 4\<rparr>"
  let ?u = "update_topic_files 1 None None (Some 7) ?t"
  have run: "insert_chunk 1 1 ''gamma'' None None None db_ingesting = Inr ?t"
    by (simp add: insert_chunk_def db_ingesting_def db0_def)
  have rows: "topic_files ?u = [file_ingesting\<lparr>deleted_at := Some 7\<rparr>]"
    by (simp add: update_topic_files_def set_columns_def db_ingesting_def file_ingesting_def
        file1_def Let_def)
  have status: "vector_status (file_ingesting\<lparr>deleted_at := Some 7\<rparr>) = Ingesting"
    by (simp add: file_ingesting_def)
  have docs: "file_document_ids ?u 1 = [1]"
    by (simp add: file_document_ids_def db_ingesting_def db0_def)
  have cs: "map (\<lambda>c. (document_id c, is_active c)) (chunks ?u) = [(1, True)]"
    by (simp add: update_topic_files_def Let_def)
  have out: "\<not> active_in_sync ?u (file_ingesting\<lparr>deleted_at := Some 7\<rparr>)"
    by (simp add: active_in_sync_def update_topic_files_def Let_def file_document_ids_def
        db_ingesting_def db0_def file_ingesting_def file1_def)
  from run rows status docs cs out show ?thesis by (intro exI [of _ ?t] conjI)
qed

section \<open>Quiz options: proofs\<close>

lemma insert_all_append:
  "insert_all ins (xs @ ys) s =
     (case insert_all ins xs s of Inl e \<Rightarrow> Inl e | Inr s1 \<Rightarrow> insert_all ins ys s1)"
  by (induction xs arbitrary: s) (auto split: sum.splits)

lemma insert_quiz_option_Inr:
  "insert_quiz_option x s = Inr s1 \<Longrightarrow> s1 = s\<lparr>quiz_options := quiz_options s @ [x]\<rparr>"
  by (auto simp: insert_quiz_option_def split: if_splits)

lemma insert_all_options_grow:
  "insert_all insert_quiz_option xs s = Inr s1 \<Longrightarrow> set (quiz_options s) \<subseteq> set (quiz_options s1)"
proof (induction xs arbitrary: s)
  case Nil
  then show ?case by simp
next
  case (Cons x xs)
  from Cons.prems obtain s0 where first: "insert_quiz_option x s = Inr s0"
    and rest: "insert_all insert_quiz_option xs s0 = Inr s1"
    by (auto split: sum.splits)
  from first have "set (quiz_options s) \<subseteq> set (quiz_options s0)"
    by (auto dest: insert_quiz_option_Inr)
  with Cons.IH [OF rest] show ?case by blast
qed

text \<open>
  C4. When a question already has an option with \<open>is_correct\<close>, the insert of another
  option with \<open>is_correct\<close> for that question fails with a unique violation, and so does
  every insert of several options that has it among its rows; a failed insert stores
  nothing.
\<close>

theorem second_correct_option_rejected:
  assumes "y \<in> set (quiz_options s)" and "qo_is_correct y"
    and "qo_question_id y = qo_question_id x" and "qo_is_correct x"
  shows "insert_quiz_option x s = Inl Unique_violation
       \<and> isl (insert_all insert_quiz_option (before @ x # after) s)"
proof
  show "insert_quiz_option x s = Inl Unique_violation"
    using assms by (auto simp: insert_quiz_option_def)
  show "isl (insert_all insert_quiz_option (before @ x # after) s)"
  proof (cases "insert_all insert_quiz_option before s")
    case (Inl e)
    then show ?thesis by (simp add: insert_all_append)
  next
    case (Inr s1)
    then have "y \<in> set (quiz_options s1)"
      using assms(1) insert_all_options_grow by blast
    with assms have "insert_quiz_option x s1 = Inl Unique_violation"
      by (auto simp: insert_quiz_option_def)
    with Inr show ?thesis by (simp add: insert_all_append)
  qed
qed

theorem second_correct_option_rejected_witness:
  "opt1 \<in> set (quiz_options db_quiz) \<and> qo_is_correct opt1
   \<and> qo_question_id opt1 = qo_question_id opt_second_correct
   \<and> qo_is_correct opt_second_correct
   \<and> insert_quiz_option opt_second_correct db_quiz = Inl Unique_violation
   \<and> isl (insert_all insert_quiz_option [opt_second_correct] db_quiz)"
proof -
  have a: "opt1 \<in> set (quiz_options db_quiz)" by (simp add: db_quiz_def)
  have b: "qo_is_correct opt1" by (simp add: opt1_def)
  have c: "qo_question_id opt1 = qo_question_id opt_second_correct"
    by (simp add: opt1_def opt_second_correct_def)
  have d: "qo_is_correct opt_second_correct" by (simp add: opt_second_correct_def)
  from second_correct_option_rejected [OF a b c d, of "[]" "[]"] a b c d
  show ?thesis by simp
qed

section \<open>Chunk insertion: proofs\<close>

lemma insert_chunk_ingesting:
  "insert_chunk 1 1 ''gamma'' None None None db_ingesting =
     Inr (db_ingesting\<lparr>chunks := [\<lparr>chunk_id = 3, document_id = 1, chunk_topic_id = 1,
                                     content = ''gamma'', embedding = None, is_active = True,
                                     metadata = None\<rparr>],
                       chunks_id_seq := 4\<rparr>)"
  by (simp add: insert_chunk_def db_ingesting_def db0_def)

lemma ingesting_in_sync_before: "active_in_sync db_ingesting file_ingesting"
  by (simp add: active_in_sync_def db_ingesting_def)

lemma ingesting_out_of_sync_after:
  "\<not> active_in_sync
       (db_ingesting\<lparr>chunks := [\<lparr>chunk_id = 3, document_id = 1, chunk_topic_id = 1,
                                     content = ''gamma'', embedding = None, is_active = True,
                                     metadata = None\<rparr>],
                       chunks_id_seq := 4\<rparr>) file_ingesting"
  by (simp add: active_in_sync_def file_document_ids_def db_ingesting_def db0_def
      file_ingesting_def file1_def)

text \<open>
  C10. An insert into \<open>chunks\<close> that gives no \<open>is_active\<close> stores the chunk with
  \<open>is_active = true\<close>, whatever the state of the owning file, and changes no other chunk,
  no file and no document: nothing recomputes the flag at insert time. There is a state
  (a file in \<open>ingesting\<close> with a stored document) where the inserted chunk breaks
  Invariant 1, and the invariant holds again after the next update of the file row that
  names \<open>vector_status\<close> or \<open>include_in_rag\<close>.
\<close>

theorem chunk_insert_defaults_active:
  assumes "insert_chunk doc tid txt emb None meta s = Inr s'"
  shows "chunks s' = chunks s @
           [\<lparr>chunk_id = chunks_id_seq s, document_id = doc, chunk_topic_id = tid, content = txt,
             embedding = emb, is_active = True, metadata = meta\<rparr>]
       \<and> topic_files s' = topic_files s \<and> documents s' = documents s
       \<and> is_active_writes s' = is_active_writes s
       \<and> (\<exists>t. insert_chunk 1 1 ''gamma'' None None None db_ingesting = Inr t
              \<and> active_in_sync db_ingesting file_ingesting
              \<and> \<not> active_in_sync t file_ingesting
              \<and> \<not> active_in_sync (update_topic_files 1 None None (Some 7) t) file_ingesting
              \<and> active_in_sync (update_topic_files 1 None (Some Excluded) None t)
                    (set_columns None (Some Excluded) None file_ingesting))"
proof -
  from assms have s': "s' = s\<lparr>chunks := chunks s @
           [\<lparr>chunk_id = chunks_id_seq s, document_id = doc, chunk_topic_id = tid, content = txt,
             embedding = emb, is_active = True, metadata = meta\<rparr>],
           chunks_id_seq := Suc (chunks_id_seq s)\<rparr>"
    by (auto simp: insert_chunk_def split: if_splits)
  let ?t = "db_ingesting\<lparr>chunks := [\<lparr>chunk_id = 3, document_id = 1, chunk_topic_id = 1,
                                     content = ''gamma'', embedding = None, is_active = True,
                                     metadata = None\<rparr>],
                       chunks_id_seq := 4\<rparr>"
  have noop: "\<not> active_in_sync (update_topic_files 1 None None (Some 7) ?t) file_ingesting"
    by (simp add: active_in_sync_def update_topic_files_def file_document_ids_def
        db_ingesting_def db0_def file_ingesting_def file1_def Let_def)
  have fixed: "active_in_sync (update_topic_files 1 None (Some Excluded) None ?t)
                    (set_columns None (Some Excluded) None file_ingesting)"
    by (simp add: active_in_sync_def update_topic_files_def sync_chunks_active_from_file_def
        file_document_ids_def set_columns_def db_ingesting_def db0_def file_ingesting_def
        file1_def Let_def)
  from s' insert_chunk_ingesting ingesting_in_sync_before ingesting_out_of_sync_after noop fixed
  show ?thesis by simp
qed

theorem chunk_insert_defaults_active_witness:
  "insert_chunk 1 1 ''gamma'' None None None db_ingesting =
     Inr (db_ingesting\<lparr>chunks := [\<lparr>chunk_id = 3, document_id = 1, chunk_topic_id = 1,
                                     content = ''gamma'', embedding = None, is_active = True,
                                     metadata = None\<rparr>],
                       chunks_id_seq := 4\<rparr>)
   \<and> map is_active (chunks (db_ingesting\<lparr>chunks := [\<lparr>chunk_id = 3, document_id = 1,
          chunk_topic_id = 1, content = ''gamma'', embedding = None, is_active = True,
          metadata = None\<rparr>], chunks_id_seq := 4\<rparr>)) = [True]
   \<and> vector_status file_ingesting = Ingesting"
proof -
  note run = insert_chunk_ingesting
  from chunk_insert_defaults_active [OF run]
  have "chunks (db_ingesting\<lparr>chunks := [\<lparr>chunk_id = 3, document_id = 1,
          chunk_topic_id = 1, content = ''gamma'', embedding = None, is_active = True,
          metadata = None\<rparr>], chunks_id_seq := 4\<rparr>) = chunks db_ingesting @
           [\<lparr>chunk_id = chunks_id_seq db_ingesting, document_id = 1, chunk_topic_id = 1,
             content = ''gamma'', embedding = None, is_active = True, metadata = None\<rparr>]"
    by (rule conjunct1)
  then have "map is_active (chunks (db_ingesting\<lparr>chunks := [\<lparr>chunk_id = 3, document_id = 1,
          chunk_topic_id = 1, content = ''gamma'', embedding = None, is_active = True,
          metadata = None\<rparr>], chunks_id_seq := 4\<rparr>)) = [True]"
    by (simp add: db_ingesting_def)
  moreover have "vector_status file_ingesting = Ingesting" by (simp add: file_ingesting_def)
  ultimately show ?thesis using run by (intro conjI)
qed

section \<open>Vector search: proofs\<close>

lemma match_candidates_D:
  assumes "cd \<in> set (match_candidates p_topic_id p_only_active s)"
  shows "fst cd \<in> set (chunks s)" and "snd cd \<in> set (documents s)"
    and "doc_id (snd cd) = document_id (fst cd)"
    and "match_where p_topic_id p_only_active (fst cd)"
  using assms by (auto simp: match_candidates_def)

lemma order_by_distance_subset:
  "order_by_distance cosd q cands ys \<Longrightarrow> set ys \<subseteq> set cands"
proof -
  assume "order_by_distance cosd q cands ys"
  then have "mset ys \<subseteq># mset cands" by (simp add: order_by_distance_def)
  then have "set_mset (mset ys) \<subseteq> set_mset (mset cands)" by (rule set_mset_mono)
  then show ?thesis by simp
qed

lemma match_documents_Inr:
  assumes "match_documents cosd q n ys = Inr rows"
  shows "\<exists>k. rows = map (select_row cosd q) (take k ys)"
proof (cases n)
  case None
  with assms have "rows = map (select_row cosd q) (take (length ys) ys)"
    by (simp add: match_documents_def)
  then show ?thesis ..
next
  case (Some m)
  with assms have "rows = map (select_row cosd q) (take (nat m) ys)"
    by (auto simp: match_documents_def split: if_splits)
  then show ?thesis ..
qed

lemma db_search_candidates:
  "match_candidates (Some 1) (Some True) db_search = [(chunk1, doc1), (chunk2, doc1)]"
  by (simp add: match_candidates_def match_where_def db_search_def db0_def
      chunk1_def chunk2_def chunk3_def chunk4_def doc1_def doc2_def)

text \<open>
  C2. With a topic id \<open>T\<close>, every row that \<open>match_documents\<close> returns is the row of a
  stored chunk of topic \<open>T\<close> joined with its document, whatever the other topics hold;
  and unless \<open>p_only_active\<close> is false, that chunk has \<open>is_active\<close>.
\<close>

theorem match_documents_scoped:
  assumes "match_documents_returns cosd q n (Some T) a s ys rows"
  shows "\<exists>cds. rows = map (select_row cosd q) cds
           \<and> (\<forall>cd \<in> set cds. fst cd \<in> set (chunks s) \<and> snd cd \<in> set (documents s)
                 \<and> doc_id (snd cd) = document_id (fst cd)
                 \<and> chunk_topic_id (fst cd) = T
                 \<and> (a \<noteq> Some False \<longrightarrow> is_active (fst cd)))"
proof -
  from assms have ord: "order_by_distance cosd q (match_candidates (Some T) a s) ys"
    and res: "match_documents cosd q n ys = Inr rows"
    by (simp_all add: match_documents_returns_def)
  from match_documents_Inr [OF res] obtain k where rows: "rows = map (select_row cosd q) (take k ys)" ..
  have "\<forall>cd \<in> set (take k ys). fst cd \<in> set (chunks s) \<and> snd cd \<in> set (documents s)
                 \<and> doc_id (snd cd) = document_id (fst cd)
                 \<and> chunk_topic_id (fst cd) = T
                 \<and> (a \<noteq> Some False \<longrightarrow> is_active (fst cd))"
  proof
    fix cd assume "cd \<in> set (take k ys)"
    then have "cd \<in> set ys" by (rule in_set_takeD)
    with order_by_distance_subset [OF ord] have cand: "cd \<in> set (match_candidates (Some T) a s)" by blast
    from match_candidates_D(4) [OF cand] have "chunk_topic_id (fst cd) = T"
      and "a \<noteq> Some False \<longrightarrow> is_active (fst cd)"
      by (auto simp: match_where_def split: option.splits)
    with match_candidates_D(1-3) [OF cand]
    show "fst cd \<in> set (chunks s) \<and> snd cd \<in> set (documents s)
                 \<and> doc_id (snd cd) = document_id (fst cd)
                 \<and> chunk_topic_id (fst cd) = T
                 \<and> (a \<noteq> Some False \<longrightarrow> is_active (fst cd))" by simp
  qed
  with rows show ?thesis by blast
qed

lemma db_search_returns:
  "match_documents_returns example_distance (Some 5) (Some 1) (Some 1) (Some True) db_search
     [(chunk1, doc1), (chunk2, doc1)]
     [\<lparr>mr_document_id = 1, mr_content = ''alpha'', mr_metadata = None, similarity = Some 0\<rparr>]"
proof -
  have "order_by_distance example_distance (Some 5) [(chunk1, doc1), (chunk2, doc1)]
          [(chunk1, doc1), (chunk2, doc1)]"
    by (simp add: order_by_distance_def distance_def nulls_last_le_def example_distance_def
        chunk1_def chunk2_def)
  moreover have "match_documents example_distance (Some 5) (Some 1) [(chunk1, doc1), (chunk2, doc1)]
      = Inr [\<lparr>mr_document_id = 1, mr_content = ''alpha'', mr_metadata = None, similarity = Some 0\<rparr>]"
    by (simp add: match_documents_def select_row_def distance_def example_distance_def
        chunk1_def doc1_def)
  ultimately show ?thesis
    by (simp only: match_documents_returns_def db_search_candidates simp_thms)
qed

theorem match_documents_scoped_witness:
  "match_documents_returns example_distance (Some 5) (Some 1) (Some 1) (Some True) db_search
     [(chunk1, doc1), (chunk2, doc1)]
     [\<lparr>mr_document_id = 1, mr_content = ''alpha'', mr_metadata = None, similarity = Some 0\<rparr>]
   \<and> (\<exists>cds. [\<lparr>mr_document_id = 1, mr_content = ''alpha'', mr_metadata = None, similarity = Some 0\<rparr>]
               = map (select_row example_distance (Some 5)) cds
            \<and> list_all (\<lambda>cd. chunk_topic_id (fst cd) = 1 \<and> is_active (fst cd)) cds)
   \<and> chunk_topic_id chunk3 = 2
   \<and> distance example_distance (embedding chunk3) (Some 5) = Some 0"
proof -
  from match_documents_scoped [OF db_search_returns]
  obtain cds where rows: "[\<lparr>mr_document_id = 1, mr_content = ''alpha'', mr_metadata = None,
        similarity = Some 0\<rparr>] = map (select_row example_distance (Some 5)) cds"
    and all: "\<forall>cd \<in> set cds. fst cd \<in> set (chunks db_search) \<and> snd cd \<in> set (documents db_search)
                 \<and> doc_id (snd cd) = document_id (fst cd)
                 \<and> chunk_topic_id (fst cd) = 1
                 \<and> (Some True \<noteq> Some False \<longrightarrow> is_active (fst cd))"
    by (elim exE conjE) (rule that)
  from all have each: "\<forall>cd \<in> set cds. chunk_topic_id (fst cd) = 1 \<and> is_active (fst cd)"
    by simp
  from each have "list_all (\<lambda>cd. chunk_topic_id (fst cd) = 1 \<and> is_active (fst cd)) cds"
    by (simp only: list_all_iff)
  with rows have "\<exists>cds. [\<lparr>mr_document_id = 1, mr_content = ''alpha'', mr_metadata = None, similarity = Some 0\<rparr>]
               = map (select_row example_distance (Some 5)) cds
            \<and> list_all (\<lambda>cd. chunk_topic_id (fst cd) = 1 \<and> is_active (fst cd)) cds"
    by (intro exI [of _ cds] conjI)
  moreover have "chunk_topic_id chunk3 = 2
     \<and> distance example_distance (embedding chunk3) (Some 5) = Some 0"
    by (simp add: chunk3_def distance_def example_distance_def)
  ultimately show ?thesis using db_search_returns by (intro conjI) simp_all
qed

lemma select_row_similarity:
  "similarity (select_row cosd q cd) = map_option (\<lambda>x. 1 - x) (distance cosd (embedding (fst cd)) q)"
  by (simp add: select_row_def)

lemma nulls_last_flip:
  "nulls_last_le a b \<Longrightarrow> nulls_last_ge (map_option (\<lambda>x. 1 - x) a) (map_option (\<lambda>x. 1 - x) b)"
  by (auto simp: nulls_last_le_def nulls_last_ge_def split: option.splits)

lemma sorted_wrt_take: "sorted_wrt R xs \<Longrightarrow> sorted_wrt R (take k xs)"
proof -
  assume "sorted_wrt R xs"
  then have "sorted_wrt R (take k xs @ drop k xs)" by simp
  then show ?thesis by (simp only: sorted_wrt_append)
qed

text \<open>
  C8 (as amended). Each returned row is the projection of a selected chunk, and its
  similarity is 1 minus the distance between the chunk's embedding and the query
  embedding (\<open>NULL\<close> when one of them is \<open>NULL\<close>); the rows descend in similarity, \<open>NULL\<close>
  last. Nothing is said about the order of rows of equal similarity.
\<close>

theorem match_documents_ranked:
  assumes "match_documents_returns cosd q n p_topic_id p_only_active s ys rows"
  shows "(\<exists>cds. rows = map (select_row cosd q) cds
            \<and> set cds \<subseteq> set (match_candidates p_topic_id p_only_active s)
            \<and> map similarity rows =
                map (\<lambda>cd. map_option (\<lambda>x. 1 - x) (distance cosd (embedding (fst cd)) q)) cds)
       \<and> sorted_wrt (\<lambda>r r'. nulls_last_ge (similarity r) (similarity r')) rows"
proof -
  from assms have ord: "order_by_distance cosd q (match_candidates p_topic_id p_only_active s) ys"
    and res: "match_documents cosd q n ys = Inr rows"
    by (simp_all add: match_documents_returns_def)
  from match_documents_Inr [OF res] obtain k where rows: "rows = map (select_row cosd q) (take k ys)" ..
  have sub: "set (take k ys) \<subseteq> set (match_candidates p_topic_id p_only_active s)"
    using order_by_distance_subset [OF ord] set_take_subset [of k ys] by blast
  have sims: "map similarity rows =
      map (\<lambda>cd. map_option (\<lambda>x. 1 - x) (distance cosd (embedding (fst cd)) q)) (take k ys)"
    by (simp add: rows select_row_similarity)
  from ord have "sorted_wrt (\<lambda>a b. nulls_last_le (distance cosd (embedding (fst a)) q)
                                    (distance cosd (embedding (fst b)) q)) ys"
    by (simp add: order_by_distance_def)
  then have "sorted_wrt (\<lambda>a b. nulls_last_le (distance cosd (embedding (fst a)) q)
                                    (distance cosd (embedding (fst b)) q)) (take k ys)"
    by (rule sorted_wrt_take)
  then have "sorted_wrt (\<lambda>a b. nulls_last_ge (similarity (select_row cosd q a))
                                    (similarity (select_row cosd q b))) (take k ys)"
    by (rule sorted_wrt_mono_rel [rotated]) (simp add: select_row_similarity nulls_last_flip)
  then have "sorted_wrt (\<lambda>r r'. nulls_last_ge (similarity r) (similarity r')) rows"
    by (simp add: rows sorted_wrt_map)
  with rows sub sims show ?thesis by blast
qed


lemma db_search_returns_reversed:
  "match_documents_returns example_distance (Some 5) (Some 2) (Some 1) (Some True) db_search
     [(chunk2, doc1), (chunk1, doc1)]
     [\<lparr>mr_document_id = 1, mr_content = ''beta'', mr_metadata = None, similarity = Some 0\<rparr>,
      \<lparr>mr_document_id = 1, mr_content = ''alpha'', mr_metadata = None, similarity = Some 0\<rparr>]"
proof -
  have "mset [(chunk2, doc1), (chunk1, doc1)] \<subseteq># mset [(chunk1, doc1), (chunk2, doc1)]"
    by (simp add: add_mset_commute)
  moreover have "sorted_wrt (\<lambda>a b. nulls_last_le (distance example_distance (embedding (fst a)) (Some 5))
                                    (distance example_distance (embedding (fst b)) (Some 5)))
      [(chunk2, doc1), (chunk1, doc1)]"
    by (simp add: distance_def nulls_last_le_def example_distance_def chunk1_def chunk2_def)
  ultimately have "order_by_distance example_distance (Some 5) [(chunk1, doc1), (chunk2, doc1)]
          [(chunk2, doc1), (chunk1, doc1)]"
    by (simp only: order_by_distance_def simp_thms)
  moreover have "match_documents example_distance (Some 5) (Some 2) [(chunk2, doc1), (chunk1, doc1)]
      = Inr [\<lparr>mr_document_id = 1, mr_content = ''beta'', mr_metadata = None, similarity = Some 0\<rparr>,
      \<lparr>mr_document_id = 1, mr_content = ''alpha'', mr_metadata = None, similarity = Some 0\<rparr>]"
    by (simp add: match_documents_def select_row_def distance_def example_distance_def
        chunk1_def chunk2_def doc1_def)
  ultimately show ?thesis
    by (simp only: match_documents_returns_def db_search_candidates simp_thms)
qed

theorem match_documents_ranked_witness:
  "match_documents_returns example_distance (Some 5) (Some 2) (Some 1) (Some True) db_search
     [(chunk2, doc1), (chunk1, doc1)]
     [\<lparr>mr_document_id = 1, mr_content = ''beta'', mr_metadata = None, similarity = Some 0\<rparr>,
      \<lparr>mr_document_id = 1, mr_content = ''alpha'', mr_metadata = None, similarity = Some 0\<rparr>]
   \<and> sorted_wrt (\<lambda>r r'. nulls_last_ge (similarity r) (similarity r'))
     [\<lparr>mr_document_id = 1, mr_content = ''beta'', mr_metadata = None, similarity = Some 0\<rparr>,
      \<lparr>mr_document_id = 1, mr_content = ''alpha'', mr_metadata = None, similarity = Some 0\<rparr>]"
  using match_documents_ranked [OF db_search_returns_reversed] db_search_returns_reversed
  by (intro conjI) (assumption, erule conjunct2)

text \<open>
  C8, the claim as stated: a possible answer lists the chunk inserted second before the
  chunk inserted first, both with the same similarity.
\<close>

theorem match_documents_tie_order_counterexample:
  "match_documents_returns example_distance (Some 5) (Some 2) (Some 1) (Some True) db_search
     [(chunk2, doc1), (chunk1, doc1)]
     [\<lparr>mr_document_id = 1, mr_content = ''beta'', mr_metadata = None, similarity = Some 0\<rparr>,
      \<lparr>mr_document_id = 1, mr_content = ''alpha'', mr_metadata = None, similarity = Some 0\<rparr>]
   \<and> content chunk1 = ''alpha'' \<and> content chunk2 = ''beta''
   \<and> chunk_id chunk1 < chunk_id chunk2
   \<and> \<not> spec_ties_in_insertion_order example_distance (Some 5) [(chunk2, doc1), (chunk1, doc1)]"
proof -
  have "content chunk1 = ''alpha'' \<and> content chunk2 = ''beta'' \<and> chunk_id chunk1 < chunk_id chunk2"
    by (simp add: chunk1_def chunk2_def)
  moreover have "\<not> spec_ties_in_insertion_order example_distance (Some 5)
      [(chunk2, doc1), (chunk1, doc1)]"
    by (simp add: spec_ties_in_insertion_order_def distance_def example_distance_def
        chunk1_def chunk2_def)
  ultimately show ?thesis using db_search_returns_reversed by (intro conjI) simp_all
qed

section \<open>Quiz runner: proofs\<close>

lemma insert_quiz_attempt_Inr:
  assumes "insert_quiz_attempt a s = Inr s1"
  shows "s1 = s\<lparr>quiz_attempts := quiz_attempts s @ [a]\<rparr>"
    and "qa_id a \<notin> qa_id ` set (quiz_attempts s)"
  using assms by (auto simp: insert_quiz_attempt_def split: if_splits)

lemma insert_attempt_answer_Inr:
  assumes "insert_attempt_answer r s = Inr s1"
  shows "s1 = s\<lparr>attempt_answers := attempt_answers s @ [stored_answer r]\<rparr>"
    and "ar_selected_option_id r \<noteq> None"
  using assms
  by (auto simp: insert_attempt_answer_def stored_answer_def split: option.splits if_splits)

lemma insert_all_answers_Inr:
  "insert_all insert_attempt_answer rows s = Inr s1 \<Longrightarrow>
     s1 = s\<lparr>attempt_answers := attempt_answers s @ map stored_answer rows\<rparr>
     \<and> (\<forall>r \<in> set rows. ar_selected_option_id r \<noteq> None)"
proof (induction rows arbitrary: s)
  case Nil
  then show ?case by simp
next
  case (Cons r rows)
  from Cons.prems obtain s0 where first: "insert_attempt_answer r s = Inr s0"
    and rest: "insert_all insert_attempt_answer rows s0 = Inr s1"
    by (auto split: sum.splits)
  from insert_attempt_answer_Inr [OF first] Cons.IH [OF rest] show ?case by simp
qed


lemma finalize_attempt_Inr:
  assumes "finalize_attempt attemptId now score s = Inr s1"
  shows "s1 = s\<lparr>quiz_attempts :=
                  map (\<lambda>a. if qa_id a = attemptId
                            then a\<lparr>submitted_at := Some now, score_percent := score\<rparr> else a)
                    (quiz_attempts s)\<rparr>"
  using assms by (auto simp: finalize_attempt_def split: if_splits)



lemma details_correct:
  "length (filter (\<lambda>d. strict_equal (yourChoiceId d) (correctChoiceId d)) (details_of questions answers))
     = correct_count questions answers"
  by (simp add: details_of_def correct_count_def filter_map comp_def)

lemma submit_unfold:
  "submit attemptId user quizId now questions answers s =
     (case insert_quiz_attempt
             \<lparr>qa_id = attemptId, qa_quiz_id = quizId, qa_user_id = user,
              submitted_at = None, score_percent = None\<rparr> s of
        Inl e \<Rightarrow> (s, Some e)
      | Inr s1 \<Rightarrow>
          (case insert_all insert_attempt_answer
                  (map (\<lambda>d. \<lparr>ar_attempt_id = attemptId, ar_question_id = d_id d,
                              ar_selected_option_id = yourChoiceId d,
                              ar_is_correct = strict_equal (yourChoiceId d) (correctChoiceId d)\<rparr>)
                     (details_of questions answers)) s1 of
             Inl e \<Rightarrow> (s1, Some e)
           | Inr s2 \<Rightarrow>
               (case finalize_attempt attemptId now
                       (score_of (correct_count questions answers) (length questions)) s2 of
                  Inl e \<Rightarrow> (s2, Some e)
                | Inr s3 \<Rightarrow> (s3, None))))"
  by (simp add: submit_def Let_def details_correct split: sum.splits)


lemmas double_unfold =
  score_of_def double_times_def double_divide_def to_double_def Math_round_def
  round_half_even_def normalise.simps Let_def





lemma score_of_five:
  "score_of 0 5 = Some 0 \<and> score_of 1 5 = Some 20 \<and> score_of 2 5 = Some 40 \<and>
   score_of 3 5 = Some 60 \<and> score_of 4 5 = Some 80 \<and> score_of 5 5 = Some 100"
  by (simp add: double_unfold)

lemma score_of_ten:
  "score_of 0 10 = Some 0 \<and> score_of 1 10 = Some 10 \<and> score_of 2 10 = Some 20 \<and>
   score_of 3 10 = Some 30 \<and> score_of 4 10 = Some 40 \<and> score_of 5 10 = Some 50 \<and>
   score_of 6 10 = Some 60 \<and> score_of 7 10 = Some 70 \<and> score_of 8 10 = Some 80 \<and>
   score_of 9 10 = Some 90 \<and> score_of 10 10 = Some 100"
  by (simp add: double_unfold)

lemma score_of_twenty:
  "score_of 0 20 = Some 0 \<and> score_of 1 20 = Some 5 \<and> score_of 2 20 = Some 10 \<and>
   score_of 3 20 = Some 15 \<and> score_of 4 20 = Some 20 \<and> score_of 5 20 = Some 25 \<and>
   score_of 6 20 = Some 30 \<and> score_of 7 20 = Some 35 \<and> score_of 8 20 = Some 40 \<and>
   score_of 9 20 = Some 45 \<and> score_of 10 20 = Some 50 \<and> score_of 11 20 = Some 55 \<and>
   score_of 12 20 = Some 60 \<and> score_of 13 20 = Some 65 \<and>
   score_of 14 20 = Some 70 \<and> score_of 15 20 = Some 75 \<and>
   score_of 16 20 = Some 80 \<and> score_of 17 20 = Some 85 \<and>
   score_of 18 20 = Some 90 \<and> score_of 19 20 = Some 95 \<and> score_of 20 20 = Some 100"
  by (simp add: double_unfold)

text \<open>
  For the lengths that \<open>quizzes.length\<close> admits, the double arithmetic is exact enough:
  the stored score is the rounded percentage.
\<close>

lemma score_of_admitted_lengths:
  assumes "t \<in> {5, 10, 20}" and "c \<le> t"
  shows "score_of c t = Some (round (100 * real c / real t))"
proof -
  from assms consider (five) "t = 5" "c \<le> 5" | (ten) "t = 10" "c \<le> 10"
    | (twenty) "t = 20" "c \<le> 20"
    by auto
  then show ?thesis
  proof cases
    case five
    from five(2) have "c = 0 \<or> c = 1 \<or> c = 2 \<or> c = 3 \<or> c = 4 \<or> c = 5"
      by arith
    then show ?thesis using score_of_five unfolding five(1)
      by (elim disjE) (simp_all add: round_def)
  next
    case ten
    from ten(2) have "c = 0 \<or> c = 1 \<or> c = 2 \<or> c = 3 \<or> c = 4 \<or> c = 5 \<or>
        c = 6 \<or> c = 7 \<or> c = 8 \<or> c = 9 \<or> c = 10"
      by arith
    then show ?thesis using score_of_ten unfolding ten(1)
      by (elim disjE) (simp_all add: round_def)
  next
    case twenty
    from twenty(2) have "c = 0 \<or> c = 1 \<or> c = 2 \<or> c = 3 \<or> c = 4 \<or> c = 5 \<or>
        c = 6 \<or> c = 7 \<or> c = 8 \<or> c = 9 \<or> c = 10 \<or>
        c = 11 \<or> c = 12 \<or> c = 13 \<or> c = 14 \<or> c = 15 \<or>
        c = 16 \<or> c = 17 \<or> c = 18 \<or> c = 19 \<or> c = 20"
      by arith
    then show ?thesis using score_of_twenty unfolding twenty(1)
      by (elim disjE) (simp_all add: round_def)
  qed
qed









section \<open>Upload component: proofs\<close>

lemma setChunksActiveForFile_frame [simp]:
  "topic_files (setChunksActiveForFile fid b s) = topic_files s"
  "documents (setChunksActiveForFile fid b s) = documents s"
  by (simp_all add: setChunksActiveForFile_def Let_def)

lemma toggle_rows:
  "topic_files (toggleInclude fid next s) =
     map (\<lambda>f. if tf_id f = fid
               then f\<lparr>include_in_rag := next,
                      vector_status := (if next then Ingested else Excluded)\<rparr>
               else f) (topic_files s)"
  by (simp add: toggleInclude_def update_topic_files_rows set_columns_def)

lemma toggle_documents [simp]: "documents (toggleInclude fid next s) = documents s"
  by (simp add: toggleInclude_def)

lemma writes_after_flagging:
  "map (\<lambda>c. (w, chunk_id c, b))
     (filter (\<lambda>c. document_id c \<in> D)
        (map (\<lambda>c. if document_id c \<in> D then c\<lparr>is_active := v\<rparr> else c) xs))
   = map (\<lambda>c. (w, chunk_id c, b)) (filter (\<lambda>c. document_id c \<in> D) xs)"
  by (induction xs) auto

lemma toggle_effect:
  assumes pk: "distinct (map tf_id (topic_files s))"
    and row: "f \<in> set (topic_files s)"
  shows "chunks (toggleInclude (tf_id f) next s) =
           map (\<lambda>c. if document_id c \<in> set (file_document_ids s (tf_id f))
                     then c\<lparr>is_active := next\<rparr> else c) (chunks s)"
    and "chunks (toggleInclude (tf_id f) next s) =
           chunks (update_topic_files (tf_id f) (Some next)
                     (Some (if next then Ingested else Excluded)) None s)"
    and "is_active_writes (toggleInclude (tf_id f) next s) =
           is_active_writes s
           @ map (\<lambda>c. (Synchronizer, chunk_id c, next))
               (filter (\<lambda>c. document_id c \<in> set (file_document_ids s (tf_id f))) (chunks s))
           @ map (\<lambda>c. (Frontend, chunk_id c, next))
               (filter (\<lambda>c. document_id c \<in> set (file_document_ids s (tf_id f))) (chunks s))"
proof -
  let ?st = "Some (if next then Ingested else Excluded)"
  let ?D = "set (file_document_ids s (tf_id f))"
  let ?u = "update_topic_files (tf_id f) (Some next) ?st None s"
  have v: "(include_in_rag (set_columns (Some next) ?st None f)
            \<and> vector_status (set_columns (Some next) ?st None f) = Ingested) = next"
    by (simp add: set_columns_def)
  have idn: "tf_id (set_columns (Some next) ?st None f) = tf_id f" by (simp add: set_columns_def)
  have u: "?u = sync_chunks_active_from_file (set_columns (Some next) ?st None f)
             (s\<lparr>topic_files :=
                  map (\<lambda>g. if tf_id g = tf_id f then set_columns (Some next) ?st None g else g)
                    (topic_files s)\<rparr>)"
    by (rule update_topic_files_one [OF pk row]) simp
  have cu: "chunks ?u = map (\<lambda>c. if document_id c \<in> ?D then c\<lparr>is_active := next\<rparr> else c) (chunks s)"
    by (simp add: u sync_chunks_active_from_file_def Let_def v idn file_document_ids_def)
  have wu: "is_active_writes ?u = is_active_writes s
           @ map (\<lambda>c. (Synchronizer, chunk_id c, next)) (filter (\<lambda>c. document_id c \<in> ?D) (chunks s))"
    by (simp add: u sync_chunks_active_from_file_def Let_def v idn file_document_ids_def)
  have again: "map (\<lambda>c. if document_id c \<in> ?D then c\<lparr>is_active := next\<rparr> else c) (chunks ?u) = chunks ?u"
    by (simp add: cu)
  have same: "map (\<lambda>c. (Frontend, chunk_id c, next)) (filter (\<lambda>c. document_id c \<in> ?D) (chunks ?u))
      = map (\<lambda>c. (Frontend, chunk_id c, next)) (filter (\<lambda>c. document_id c \<in> ?D) (chunks s))"
    unfolding cu by (rule writes_after_flagging)
  have none: "file_document_ids s (tf_id f) = [] \<Longrightarrow> filter (\<lambda>c. document_id c \<in> ?D) (chunks s) = []"
    by simp
  show c2: "chunks (toggleInclude (tf_id f) next s) = chunks ?u"
    using again by (simp add: toggleInclude_def setChunksActiveForFile_def Let_def)
  from c2 cu show "chunks (toggleInclude (tf_id f) next s) =
           map (\<lambda>c. if document_id c \<in> ?D then c\<lparr>is_active := next\<rparr> else c) (chunks s)"
    by simp
  show "is_active_writes (toggleInclude (tf_id f) next s) =
           is_active_writes s
           @ map (\<lambda>c. (Synchronizer, chunk_id c, next)) (filter (\<lambda>c. document_id c \<in> ?D) (chunks s))
           @ map (\<lambda>c. (Frontend, chunk_id c, next)) (filter (\<lambda>c. document_id c \<in> ?D) (chunks s))"
    using same wu none by (simp add: toggleInclude_def setChunksActiveForFile_def Let_def)
qed


lemma toggle_db0_off:
  "map is_active (chunks (toggleInclude 1 False db0)) = [False, False]"
  "is_active_writes (toggleInclude 1 False db0) =
     [(Synchronizer, 1, False), (Synchronizer, 2, False), (Frontend, 1, False), (Frontend, 2, False)]"
  by (simp_all add: toggleInclude_def setChunksActiveForFile_def update_topic_files_def
      sync_chunks_active_from_file_def file_document_ids_def set_columns_def db0_def file1_def
      chunk1_def chunk2_def Let_def)

lemma toggle_db0_off_on:
  "map is_active (chunks (toggleInclude 1 True (toggleInclude 1 False db0))) = [True, True]"
  by (simp add: toggleInclude_def setChunksActiveForFile_def update_topic_files_def
      sync_chunks_active_from_file_def file_document_ids_def set_columns_def db0_def file1_def
      chunk1_def chunk2_def Let_def)

lemma delete_frames [simp]:
  "topic_files (delete_chunks P s) = topic_files s"
  "topic_files (delete_documents Q s) = topic_files s"
  by (simp_all add: delete_chunks_def delete_documents_def Let_def)

lemma sync_fold_jobs:
  "quizzes (fold sync_chunks_active_from_file news s) = quizzes s
   \<and> topic_summaries (fold sync_chunks_active_from_file news s) = topic_summaries s
   \<and> status_writes (fold sync_chunks_active_from_file news s) = status_writes s"
  by (induction news arbitrary: s) (simp_all add: sync_chunks_active_from_file_def Let_def)

lemma update_topic_files_jobs [simp]:
  "quizzes (update_topic_files fid inc vs del s) = quizzes s"
  "topic_summaries (update_topic_files fid inc vs del s) = topic_summaries s"
  "status_writes (update_topic_files fid inc vs del s) = status_writes s"
  by (simp_all add: update_topic_files_def Let_def sync_fold_jobs)

lemma setChunksActiveForFile_jobs [simp]:
  "quizzes (setChunksActiveForFile fid b s) = quizzes s"
  "topic_summaries (setChunksActiveForFile fid b s) = topic_summaries s"
  "status_writes (setChunksActiveForFile fid b s) = status_writes s"
  by (simp_all add: setChunksActiveForFile_def Let_def)

lemma delete_jobs [simp]:
  "quizzes (delete_chunks P s) = quizzes s"
  "topic_summaries (delete_chunks P s) = topic_summaries s"
  "status_writes (delete_chunks P s) = status_writes s"
  "quizzes (delete_documents Q s) = quizzes s"
  "topic_summaries (delete_documents Q s) = topic_summaries s"
  "status_writes (delete_documents Q s) = status_writes s"
  by (simp_all add: delete_chunks_def delete_documents_def Let_def)

lemma frontend_file_operations_jobs:
  "quizzes (toggleInclude fid next s) = quizzes s"
  "topic_summaries (toggleInclude fid next s) = topic_summaries s"
  "status_writes (toggleInclude fid next s) = status_writes s"
  "quizzes (deleteFile fid now s) = quizzes s"
  "topic_summaries (deleteFile fid now s) = topic_summaries s"
  "status_writes (deleteFile fid now s) = status_writes s"
  by (simp_all add: toggleInclude_def deleteFile_def Let_def)

lemma handleFiles_insert_jobs:
  assumes "handleFiles_insert new_id tid user storagePath s = Inr s'"
  shows "quizzes s' = quizzes s \<and> topic_summaries s' = topic_summaries s
       \<and> status_writes s' = status_writes s"
  using assms by (auto simp: handleFiles_insert_def insert_topic_file_def split: if_splits)

lemma insert_all_answers_jobs:
  "insert_all insert_attempt_answer rows s = Inr s1 \<Longrightarrow>
     quizzes s1 = quizzes s \<and> topic_summaries s1 = topic_summaries s
     \<and> status_writes s1 = status_writes s"
  by (drule insert_all_answers_Inr) simp

lemma submit_jobs:
  "quizzes (fst (submit attemptId user quizId now questions answers s)) = quizzes s
   \<and> topic_summaries (fst (submit attemptId user quizId now questions answers s)) = topic_summaries s
   \<and> status_writes (fst (submit attemptId user quizId now questions answers s)) = status_writes s"
proof -
  let ?a = "\<lparr>qa_id = attemptId, qa_quiz_id = quizId, qa_user_id = user,
              submitted_at = None, score_percent = None\<rparr>"
  let ?rows = "map (\<lambda>d. \<lparr>ar_attempt_id = attemptId, ar_question_id = d_id d,
                           ar_selected_option_id = yourChoiceId d,
                           ar_is_correct = strict_equal (yourChoiceId d) (correctChoiceId d)\<rparr>)
                 (details_of questions answers)"
  let ?score = "score_of (correct_count questions answers) (length questions)"
  show ?thesis
  proof (cases "insert_quiz_attempt ?a s")
    case (Inl e)
    then show ?thesis by (simp add: submit_unfold)
  next
    case (Inr s1)
    note a1 = this
    from insert_quiz_attempt_Inr(1) [OF a1]
    have j1: "quizzes s1 = quizzes s \<and> topic_summaries s1 = topic_summaries s
       \<and> status_writes s1 = status_writes s"
      by simp
    show ?thesis
    proof (cases "insert_all insert_attempt_answer ?rows s1")
      case (Inl e)
      with a1 j1 show ?thesis by (simp add: submit_unfold)
    next
      case (Inr s2)
      note a2 = this
      from insert_all_answers_jobs [OF a2] j1
      have j2: "quizzes s2 = quizzes s \<and> topic_summaries s2 = topic_summaries s
         \<and> status_writes s2 = status_writes s"
        by simp
      show ?thesis
      proof (cases "finalize_attempt attemptId now ?score s2")
        case (Inl e)
        with a1 a2 j2 show ?thesis by (simp add: submit_unfold)
      next
        case (Inr s3)
        from finalize_attempt_Inr [OF Inr] j2
        have "quizzes s3 = quizzes s \<and> topic_summaries s3 = topic_summaries s
           \<and> status_writes s3 = status_writes s"
          by simp
        with a1 a2 Inr show ?thesis by (simp add: submit_unfold)
      qed
    qed
  qed
qed

lemma generate_insert_Inr:
  assumes "generate_insert new_id tid user len s = Inr s'"
  shows "\<exists>n. len = Some n \<and> n \<in> {5, 10, 20}
           \<and> s' = s\<lparr>quizzes := quizzes s @
                     [\<lparr>quiz_id = new_id, quiz_topic_id = tid, quiz_user_id = user,
                       quiz_length = n, quiz_status = Pending\<rparr>],
                   status_writes := status_writes s @ [(Frontend, Quiz_job new_id, Pending)]\<rparr>"
  using assms
  by (auto simp: generate_insert_def insert_quiz_def split: option.splits if_splits sum.splits)

lemma insert_all_summaries_Inr:
  "insert_all insert_topic_summary xs s = Inr s1 \<Longrightarrow>
     s1 = s\<lparr>topic_summaries := topic_summaries s @ xs\<rparr>"
proof (induction xs arbitrary: s)
  case Nil
  then show ?case by simp
next
  case (Cons x xs)
  from Cons.prems obtain s0 where first: "insert_topic_summary x s = Inr s0"
    and rest: "insert_all insert_topic_summary xs s0 = Inr s1"
    by (auto split: sum.splits)
  from first have "s0 = s\<lparr>topic_summaries := topic_summaries s @ [x]\<rparr>"
    by (auto simp: insert_topic_summary_def split: if_splits)
  with Cons.IH [OF rest] show ?case by simp
qed

lemma handleCreate_jobs:
  "quizzes (fst (handleCreate new_id id1 id2 id3 user categoryId s)) = quizzes s
   \<and> ((topic_summaries (fst (handleCreate new_id id1 id2 id3 user categoryId s)) = topic_summaries s
        \<and> status_writes (fst (handleCreate new_id id1 id2 id3 user categoryId s)) = status_writes s)
      \<or> (topic_summaries (fst (handleCreate new_id id1 id2 id3 user categoryId s)) =
            topic_summaries s @
              [\<lparr>ts_id = id1, ts_topic_id = new_id, ts_type = Short, ts_status = Pending\<rparr>,
               \<lparr>ts_id = id2, ts_topic_id = new_id, ts_type = Long, ts_status = Pending\<rparr>,
               \<lparr>ts_id = id3, ts_topic_id = new_id, ts_type = Key_concepts, ts_status = Pending\<rparr>]
        \<and> status_writes (fst (handleCreate new_id id1 id2 id3 user categoryId s)) =
            status_writes s @
              [(Frontend, Summary_job id1, Pending), (Frontend, Summary_job id2, Pending),
               (Frontend, Summary_job id3, Pending)]))"
proof -
  let ?t = "\<lparr>topic_id = new_id, topic_user_id = user, category_id = categoryId\<rparr>"
  let ?rows = "[\<lparr>ts_id = id1, ts_topic_id = new_id, ts_type = Short, ts_status = Pending\<rparr>,
               \<lparr>ts_id = id2, ts_topic_id = new_id, ts_type = Long, ts_status = Pending\<rparr>,
               \<lparr>ts_id = id3, ts_topic_id = new_id, ts_type = Key_concepts, ts_status = Pending\<rparr>]"
  show ?thesis
  proof (cases "insert_topic ?t s")
    case (Inl e)
    then show ?thesis by (simp add: handleCreate_def)
  next
    case (Inr s1)
    then have s1: "s1 = s\<lparr>topics := topics s @ [?t]\<rparr>"
      by (auto simp: insert_topic_def split: if_splits)
    show ?thesis
    proof (cases "insert_all insert_topic_summary ?rows s1")
      case (Inl e)
      with Inr s1 show ?thesis by (simp add: handleCreate_def)
    next
      case (Inr s2)
      from insert_all_summaries_Inr [OF Inr]
      have "s2 = s1\<lparr>topic_summaries := topic_summaries s1 @ ?rows\<rparr>" .
      with \<open>insert_topic ?t s = Inr s1\<close> Inr s1 show ?thesis by (simp add: handleCreate_def)
    qed
  qed
qed

text \<open>
  C7 (as amended). Switching a file's \<open>include_in_rag\<close> off and on again sets
  \<open>is_active\<close> of the chunks of its documents to false, then to true, and changes no
  other chunk. Each switch writes \<open>chunks.is_active\<close> twice with the same value: first
  the trigger function \<open>sync_chunks_active_from_file\<close>, then the frontend's
  \<open>setChunksActiveForFile\<close>, which leaves the chunks as the trigger left them. The
  frontend writes the status of a job when it creates the row, and then it writes
  \<open>pending\<close>: \<open>generate\<close> for the new quiz, \<open>handleCreate\<close> for the three summaries of the
  new topic (or for none, when their insert fails). The status of a stored quiz or
  summary is not written by these two, nor by an upload, a switch of \<open>include_in_rag\<close>,
  the deletion of a file or the submission of a quiz.
\<close>

theorem toggle_writes_chunks:
  assumes pk: "distinct (map tf_id (topic_files s))"
    and row: "f \<in> set (topic_files s)"
  shows "(\<forall>c \<in> set (chunks (toggleInclude (tf_id f) False s)).
            document_id c \<in> set (file_document_ids s (tf_id f)) \<longrightarrow> \<not> is_active c)
       \<and> (\<forall>c \<in> set (chunks (toggleInclude (tf_id f) True (toggleInclude (tf_id f) False s))).
            document_id c \<in> set (file_document_ids s (tf_id f)) \<longrightarrow> is_active c)
       \<and> chunks (toggleInclude (tf_id f) next s) =
           chunks (update_topic_files (tf_id f) (Some next)
                     (Some (if next then Ingested else Excluded)) None s)
       \<and> is_active_writes (toggleInclude (tf_id f) next s) =
           is_active_writes s
           @ map (\<lambda>c. (Synchronizer, chunk_id c, next))
               (filter (\<lambda>c. document_id c \<in> set (file_document_ids s (tf_id f))) (chunks s))
           @ map (\<lambda>c. (Frontend, chunk_id c, next))
               (filter (\<lambda>c. document_id c \<in> set (file_document_ids s (tf_id f))) (chunks s))
       \<and> chunks (toggleInclude (tf_id f) next s) =
           map (\<lambda>c. if document_id c \<in> set (file_document_ids s (tf_id f))
                     then c\<lparr>is_active := next\<rparr> else c) (chunks s)
       \<and> (\<forall>s'. generate_insert new_id tid user len s = Inr s' \<longrightarrow>
             quizzes s' = quizzes s @
               [\<lparr>quiz_id = new_id, quiz_topic_id = tid, quiz_user_id = user,
                 quiz_length = the len, quiz_status = Pending\<rparr>]
             \<and> status_writes s' = status_writes s @ [(Frontend, Quiz_job new_id, Pending)]
             \<and> topic_summaries s' = topic_summaries s)
       \<and> quizzes (fst (handleCreate new_id id1 id2 id3 user categoryId s)) = quizzes s
       \<and> ((topic_summaries (fst (handleCreate new_id id1 id2 id3 user categoryId s)) =
              topic_summaries s
            \<and> status_writes (fst (handleCreate new_id id1 id2 id3 user categoryId s)) =
              status_writes s)
          \<or> (topic_summaries (fst (handleCreate new_id id1 id2 id3 user categoryId s)) =
                topic_summaries s @
                  [\<lparr>ts_id = id1, ts_topic_id = new_id, ts_type = Short, ts_status = Pending\<rparr>,
                   \<lparr>ts_id = id2, ts_topic_id = new_id, ts_type = Long, ts_status = Pending\<rparr>,
                   \<lparr>ts_id = id3, ts_topic_id = new_id, ts_type = Key_concepts,
                     ts_status = Pending\<rparr>]
            \<and> status_writes (fst (handleCreate new_id id1 id2 id3 user categoryId s)) =
                status_writes s @
                  [(Frontend, Summary_job id1, Pending), (Frontend, Summary_job id2, Pending),
                   (Frontend, Summary_job id3, Pending)]))
       \<and> (\<forall>s'. handleFiles_insert new_id tid user storagePath s = Inr s' \<longrightarrow>
             quizzes s' = quizzes s \<and> topic_summaries s' = topic_summaries s
             \<and> status_writes s' = status_writes s)
       \<and> quizzes (toggleInclude fid next s) = quizzes s
       \<and> topic_summaries (toggleInclude fid next s) = topic_summaries s
       \<and> status_writes (toggleInclude fid next s) = status_writes s
       \<and> quizzes (deleteFile fid now s) = quizzes s
       \<and> topic_summaries (deleteFile fid now s) = topic_summaries s
       \<and> status_writes (deleteFile fid now s) = status_writes s
       \<and> quizzes (fst (submit attemptId user quizId now questions answers s)) = quizzes s
       \<and> topic_summaries (fst (submit attemptId user quizId now questions answers s)) =
           topic_summaries s
       \<and> status_writes (fst (submit attemptId user quizId now questions answers s)) =
           status_writes s"
proof -
  let ?s1 = "toggleInclude (tf_id f) False s"
  let ?f1 = "f\<lparr>include_in_rag := False, vector_status := Excluded\<rparr>"
  have off: "\<forall>c \<in> set (chunks ?s1).
      document_id c \<in> set (file_document_ids s (tf_id f)) \<longrightarrow> \<not> is_active c"
    by (auto simp: toggle_effect(1) [OF pk row])
  have rows1: "topic_files ?s1 =
      map (\<lambda>g. if tf_id g = tf_id f then g\<lparr>include_in_rag := False, vector_status := Excluded\<rparr>
                else g) (topic_files s)"
    by (simp add: toggle_rows)
  have ids1: "map tf_id (topic_files ?s1) = map tf_id (topic_files s)"
    by (simp add: rows1 comp_def if_distrib cong: if_cong)
  from pk have pk1: "distinct (map tf_id (topic_files ?s1))" by (simp only: ids1)
  from row have row1: "?f1 \<in> set (topic_files ?s1)" by (auto simp: rows1 image_iff)
  have id1: "tf_id ?f1 = tf_id f" by simp
  have docs1: "file_document_ids ?s1 (tf_id f) = file_document_ids s (tf_id f)"
    by (simp add: file_document_ids_def)
  have on: "\<forall>c \<in> set (chunks (toggleInclude (tf_id f) True ?s1)).
      document_id c \<in> set (file_document_ids s (tf_id f)) \<longrightarrow> is_active c"
    using toggle_effect(1) [OF pk1 row1, of True] by (auto simp: id1 docs1)
  have gen: "\<forall>s'. generate_insert new_id tid user len s = Inr s' \<longrightarrow>
             quizzes s' = quizzes s @
               [\<lparr>quiz_id = new_id, quiz_topic_id = tid, quiz_user_id = user,
                 quiz_length = the len, quiz_status = Pending\<rparr>]
             \<and> status_writes s' = status_writes s @ [(Frontend, Quiz_job new_id, Pending)]
             \<and> topic_summaries s' = topic_summaries s"
  proof (intro allI impI)
    fix s' assume "generate_insert new_id tid user len s = Inr s'"
    from generate_insert_Inr [OF this] obtain n where "len = Some n"
      and "s' = s\<lparr>quizzes := quizzes s @
                     [\<lparr>quiz_id = new_id, quiz_topic_id = tid, quiz_user_id = user,
                       quiz_length = n, quiz_status = Pending\<rparr>],
                   status_writes := status_writes s @ [(Frontend, Quiz_job new_id, Pending)]\<rparr>"
      by blast
    then show "quizzes s' = quizzes s @
               [\<lparr>quiz_id = new_id, quiz_topic_id = tid, quiz_user_id = user,
                 quiz_length = the len, quiz_status = Pending\<rparr>]
             \<and> status_writes s' = status_writes s @ [(Frontend, Quiz_job new_id, Pending)]
             \<and> topic_summaries s' = topic_summaries s"
      by simp
  qed
  have up: "\<forall>s'. handleFiles_insert new_id tid user storagePath s = Inr s' \<longrightarrow>
             quizzes s' = quizzes s \<and> topic_summaries s' = topic_summaries s
             \<and> status_writes s' = status_writes s"
    by (blast dest: handleFiles_insert_jobs)
  note hc = handleCreate_jobs [of new_id id1 id2 id3 user categoryId s]
  note sj = submit_jobs [of attemptId user quizId now questions answers s]
  from off on toggle_effect(2) [OF pk row, of "next"] toggle_effect(3) [OF pk row, of "next"]
    toggle_effect(1) [OF pk row, of "next"] gen conjunct1 [OF hc] conjunct2 [OF hc] up
    frontend_file_operations_jobs(1-3) [where fid = fid and ?next = "next" and s = s]
    frontend_file_operations_jobs(4-6) [where fid = fid and now = now and s = s]
    conjunct1 [OF sj] conjunct1 [OF conjunct2 [OF sj]] conjunct2 [OF conjunct2 [OF sj]]
  show ?thesis by (intro conjI)
qed

lemma generate_db0:
  "generate_insert 5 1 1 (Some 10) db0 =
     Inr (db0\<lparr>quizzes := [\<lparr>quiz_id = 5, quiz_topic_id = 1, quiz_user_id = 1,
                             quiz_length = 10, quiz_status = Pending\<rparr>],
               status_writes := [(Frontend, Quiz_job 5, Pending)]\<rparr>)"
  by (simp add: generate_insert_def insert_quiz_def db0_def)

lemma create_db0:
  "map ts_status (topic_summaries (fst (handleCreate 2 11 12 13 1 None db0))) =
     [Pending, Pending, Pending]"
  "status_writes (fst (handleCreate 2 11 12 13 1 None db0)) =
     [(Frontend, Summary_job 11, Pending), (Frontend, Summary_job 12, Pending),
      (Frontend, Summary_job 13, Pending)]"
  by (simp_all add: handleCreate_def insert_topic_def insert_topic_summary_def db0_def)

theorem toggle_writes_chunks_witness:
  "distinct (map tf_id (topic_files db0)) \<and> file1 \<in> set (topic_files db0)
   \<and> list_all (\<lambda>c. \<not> is_active c) (chunks (toggleInclude (tf_id file1) False db0))
   \<and> list_all is_active
        (chunks (toggleInclude (tf_id file1) True (toggleInclude (tf_id file1) False db0)))
   \<and> is_active_writes (toggleInclude (tf_id file1) False db0) =
        [(Synchronizer, 1, False), (Synchronizer, 2, False), (Frontend, 1, False), (Frontend, 2, False)]
   \<and> generate_insert 5 1 1 (Some 10) db0 =
        Inr (db0\<lparr>quizzes := [\<lparr>quiz_id = 5, quiz_topic_id = 1, quiz_user_id = 1,
                                quiz_length = 10, quiz_status = Pending\<rparr>],
                  status_writes := [(Frontend, Quiz_job 5, Pending)]\<rparr>)
   \<and> map quiz_status
        (quizzes (db0\<lparr>quizzes := [\<lparr>quiz_id = 5, quiz_topic_id = 1, quiz_user_id = 1,
                                     quiz_length = 10, quiz_status = Pending\<rparr>],
                       status_writes := [(Frontend, Quiz_job 5, Pending)]\<rparr>)) = [Pending]
   \<and> map ts_status (topic_summaries (fst (handleCreate 2 11 12 13 1 None db0))) =
        [Pending, Pending, Pending]
   \<and> status_writes (fst (handleCreate 2 11 12 13 1 None db0)) =
        [(Frontend, Summary_job 11, Pending), (Frontend, Summary_job 12, Pending),
         (Frontend, Summary_job 13, Pending)]"
proof -
  have pk: "distinct (map tf_id (topic_files db0))" by (simp add: db0_def)
  have row: "file1 \<in> set (topic_files db0)" by (simp add: db0_def)
  have id1: "tf_id file1 = 1" by (simp add: file1_def)
  have docs: "file_document_ids db0 (tf_id file1) = [1]"
    by (simp add: file_document_ids_def db0_def file1_def)
  have owned1: "map document_id (chunks (toggleInclude (tf_id file1) False db0)) = [1, 1]"
    by (simp add: id1 toggleInclude_def setChunksActiveForFile_def update_topic_files_def
      sync_chunks_active_from_file_def file_document_ids_def set_columns_def db0_def file1_def
      chunk1_def chunk2_def Let_def)
  have owned2: "map document_id (chunks (toggleInclude (tf_id file1) True
      (toggleInclude (tf_id file1) False db0))) = [1, 1]"
    by (simp add: id1 toggleInclude_def setChunksActiveForFile_def update_topic_files_def
      sync_chunks_active_from_file_def file_document_ids_def set_columns_def db0_def file1_def
      chunk1_def chunk2_def Let_def)
  note inst = toggle_writes_chunks [OF pk row, of False]
  have a: "list_all (\<lambda>c. \<not> is_active c) (chunks (toggleInclude (tf_id file1) False db0))"
    unfolding list_all_iff
  proof
    fix c assume c: "c \<in> set (chunks (toggleInclude (tf_id file1) False db0))"
    then have "document_id c \<in> set (map document_id (chunks (toggleInclude (tf_id file1) False db0)))"
      by (simp only: set_map) (rule imageI)
    then have "document_id c \<in> set (file_document_ids db0 (tf_id file1))"
      by (simp only: owned1 docs) simp
    with inst c show "\<not> is_active c" by blast
  qed
  have b: "list_all is_active
        (chunks (toggleInclude (tf_id file1) True (toggleInclude (tf_id file1) False db0)))"
    unfolding list_all_iff
  proof
    fix c assume c: "c \<in> set (chunks (toggleInclude (tf_id file1) True
        (toggleInclude (tf_id file1) False db0)))"
    then have "document_id c \<in> set (map document_id (chunks (toggleInclude (tf_id file1) True
        (toggleInclude (tf_id file1) False db0))))"
      by (simp only: set_map) (rule imageI)
    then have "document_id c \<in> set (file_document_ids db0 (tf_id file1))"
      by (simp only: owned2 docs) simp
    with inst c show "is_active c" by blast
  qed
  from inst have "is_active_writes (toggleInclude (tf_id file1) False db0) =
           is_active_writes db0
           @ map (\<lambda>c. (Synchronizer, chunk_id c, False))
               (filter (\<lambda>c. document_id c \<in> set (file_document_ids db0 (tf_id file1))) (chunks db0))
           @ map (\<lambda>c. (Frontend, chunk_id c, False))
               (filter (\<lambda>c. document_id c \<in> set (file_document_ids db0 (tf_id file1))) (chunks db0))"
    by blast
  then have w: "is_active_writes (toggleInclude (tf_id file1) False db0) =
        [(Synchronizer, 1, False), (Synchronizer, 2, False), (Frontend, 1, False), (Frontend, 2, False)]"
    by (simp add: docs) (simp add: db0_def chunk1_def chunk2_def)
  note jobs = toggle_writes_chunks [OF pk row, where new_id = 5 and tid = 1 and user = 1
      and len = "Some 10" and ?id1.0 = 11 and ?id2.0 = 12 and ?id3.0 = 13 and categoryId = None]
  from jobs generate_db0
  have "quizzes (db0\<lparr>quizzes := [\<lparr>quiz_id = 5, quiz_topic_id = 1, quiz_user_id = 1,
                                    quiz_length = 10, quiz_status = Pending\<rparr>],
                      status_writes := [(Frontend, Quiz_job 5, Pending)]\<rparr>) =
          quizzes db0 @ [\<lparr>quiz_id = 5, quiz_topic_id = 1, quiz_user_id = 1,
                          quiz_length = the (Some 10), quiz_status = Pending\<rparr>]"
    by blast
  then have g: "map quiz_status
      (quizzes (db0\<lparr>quizzes := [\<lparr>quiz_id = 5, quiz_topic_id = 1, quiz_user_id = 1,
                                    quiz_length = 10, quiz_status = Pending\<rparr>],
                      status_writes := [(Frontend, Quiz_job 5, Pending)]\<rparr>)) = [Pending]"
    by simp
  from pk row a b w generate_db0 g create_db0 show ?thesis by (intro conjI)
qed

text \<open>
  C7, the claim as stated: in the first switch of the example, two of the four writes of
  \<open>chunks.is_active\<close> come from the frontend; and the status of the quiz that \<open>generate\<close>
  creates, like the status of the three summaries that \<open>handleCreate\<close> creates, is
  written by the frontend.
\<close>

theorem frontend_writes_is_active_counterexample:
  "is_active_writes db0 = []
   \<and> is_active_writes (toggleInclude 1 False db0) =
        [(Synchronizer, 1, False), (Synchronizer, 2, False), (Frontend, 1, False), (Frontend, 2, False)]
   \<and> \<not> list_all (\<lambda>w. fst w = Synchronizer) (is_active_writes (toggleInclude 1 False db0))
   \<and> status_writes db0 = []
   \<and> (\<exists>s'. generate_insert 5 1 1 (Some 10) db0 = Inr s'
          \<and> map quiz_status (quizzes s') = [Pending]
          \<and> status_writes s' = [(Frontend, Quiz_job 5, Pending)]
          \<and> \<not> list_all (\<lambda>w. fst w = Orchestrator) (status_writes s'))
   \<and> map ts_status (topic_summaries (fst (handleCreate 2 11 12 13 1 None db0))) =
        [Pending, Pending, Pending]
   \<and> status_writes (fst (handleCreate 2 11 12 13 1 None db0)) =
        [(Frontend, Summary_job 11, Pending), (Frontend, Summary_job 12, Pending),
         (Frontend, Summary_job 13, Pending)]
   \<and> \<not> list_all (\<lambda>w. fst w = Orchestrator)
         (status_writes (fst (handleCreate 2 11 12 13 1 None db0)))"
proof -
  have a: "is_active_writes db0 = []" by (simp add: db0_def)
  have b: "\<not> list_all (\<lambda>w. fst w = Synchronizer) (is_active_writes (toggleInclude 1 False db0))"
    unfolding toggle_db0_off(2) by simp
  have c: "status_writes db0 = []" by (simp add: db0_def)
  have d: "\<exists>s'. generate_insert 5 1 1 (Some 10) db0 = Inr s'
          \<and> map quiz_status (quizzes s') = [Pending]
          \<and> status_writes s' = [(Frontend, Quiz_job 5, Pending)]
          \<and> \<not> list_all (\<lambda>w. fst w = Orchestrator) (status_writes s')"
    unfolding generate_db0 by simp
  have e: "\<not> list_all (\<lambda>w. fst w = Orchestrator)
         (status_writes (fst (handleCreate 2 11 12 13 1 None db0)))"
    unfolding create_db0(2) by simp
  from a toggle_db0_off(2) b c d create_db0 e show ?thesis by (intro conjI)
qed

lemma deleteFile_rows:
  "topic_files (deleteFile fid now s) =
     map (\<lambda>f. if tf_id f = fid
               then f\<lparr>include_in_rag := False, vector_status := Deleted, deleted_at := Some now\<rparr>
               else f) (topic_files s)"
  by (simp add: deleteFile_def Let_def update_topic_files_rows set_columns_def)

lemma handleFiles_insert_Inr:
  assumes "handleFiles_insert new_id tid user storagePath s = Inr s'"
  shows "topic_files s' = topic_files s @
           [\<lparr>tf_id = new_id, tf_topic_id = tid, tf_user_id = user, storage_path = storagePath,
             include_in_rag = True, vector_status = Ingesting, deleted_at = None\<rparr>]"
  using assms by (auto simp: handleFiles_insert_def insert_topic_file_def split: if_splits)

text \<open>
  C6 (as amended). The frontend writes \<open>vector_status\<close> as follows. An upload creates
  the file row directly in \<open>ingesting\<close>, with \<open>include_in_rag\<close> set. Switching
  \<open>include_in_rag\<close> off moves the file to \<open>excluded\<close> from any state; switching it on
  moves an excluded file directly to \<open>ingested\<close>. Deleting a file moves it to \<open>deleted\<close>
  from any state, with \<open>include_in_rag\<close> off and \<open>deleted_at\<close> set. The rows of other
  files keep their state.
\<close>

theorem frontend_vector_status_moves:
  "(handleFiles_insert new_id tid user storagePath s = Inr s' \<longrightarrow>
      topic_files s' = topic_files s @
        [\<lparr>tf_id = new_id, tf_topic_id = tid, tf_user_id = user, storage_path = storagePath,
          include_in_rag = True, vector_status = Ingesting, deleted_at = None\<rparr>])
   \<and> map (\<lambda>f. (tf_id f, vector_status f, include_in_rag f)) (topic_files (toggleInclude fid False s)) =
       map (\<lambda>f. if tf_id f = fid then (fid, Excluded, False)
                 else (tf_id f, vector_status f, include_in_rag f)) (topic_files s)
   \<and> (\<forall>f \<in> set (topic_files s). tf_id f = fid \<and> vector_status f = Excluded \<longrightarrow>
         f\<lparr>include_in_rag := True, vector_status := Ingested\<rparr>
           \<in> set (topic_files (toggleInclude fid True s)))
   \<and> (\<forall>f \<in> set (topic_files s). tf_id f \<noteq> fid \<longrightarrow> f \<in> set (topic_files (toggleInclude fid True s)))
   \<and> map (\<lambda>f. (tf_id f, vector_status f, include_in_rag f, deleted_at f))
         (topic_files (deleteFile fid now s)) =
       map (\<lambda>f. if tf_id f = fid then (fid, Deleted, False, Some now)
                 else (tf_id f, vector_status f, include_in_rag f, deleted_at f)) (topic_files s)"
proof (intro conjI)
  show "handleFiles_insert new_id tid user storagePath s = Inr s' \<longrightarrow>
      topic_files s' = topic_files s @
        [\<lparr>tf_id = new_id, tf_topic_id = tid, tf_user_id = user, storage_path = storagePath,
          include_in_rag = True, vector_status = Ingesting, deleted_at = None\<rparr>]"
    by (blast dest: handleFiles_insert_Inr)
  show "map (\<lambda>f. (tf_id f, vector_status f, include_in_rag f)) (topic_files (toggleInclude fid False s)) =
       map (\<lambda>f. if tf_id f = fid then (fid, Excluded, False)
                 else (tf_id f, vector_status f, include_in_rag f)) (topic_files s)"
    by (simp add: toggle_rows comp_def if_distrib cong: if_cong)
  show "\<forall>f \<in> set (topic_files s). tf_id f = fid \<and> vector_status f = Excluded \<longrightarrow>
         f\<lparr>include_in_rag := True, vector_status := Ingested\<rparr>
           \<in> set (topic_files (toggleInclude fid True s))"
    by (auto simp: toggle_rows image_iff)
  show "\<forall>f \<in> set (topic_files s). tf_id f \<noteq> fid \<longrightarrow> f \<in> set (topic_files (toggleInclude fid True s))"
    by (auto simp: toggle_rows image_iff)
  show "map (\<lambda>f. (tf_id f, vector_status f, include_in_rag f, deleted_at f))
         (topic_files (deleteFile fid now s)) =
       map (\<lambda>f. if tf_id f = fid then (fid, Deleted, False, Some now)
                 else (tf_id f, vector_status f, include_in_rag f, deleted_at f)) (topic_files s)"
    by (simp add: deleteFile_rows comp_def if_distrib cong: if_cong)
qed

lemma upload_db0:
  "handleFiles_insert 2 1 1 ''1/1/1_b.pdf'' db0 =
     Inr (db0\<lparr>topic_files := [file1, \<lparr>tf_id = 2, tf_topic_id = 1, tf_user_id = 1,
         storage_path = ''1/1/1_b.pdf'', include_in_rag = True, vector_status = Ingesting,
         deleted_at = None\<rparr>]\<rparr>)"
  by (simp add: handleFiles_insert_def insert_topic_file_def db0_def file1_def)

theorem frontend_vector_status_moves_witness:
  "file_excluded \<in> set (topic_files db_excluded) \<and> tf_id file_excluded = 1
   \<and> vector_status file_excluded = Excluded
   \<and> file_excluded\<lparr>include_in_rag := True, vector_status := Ingested\<rparr>
        \<in> set (topic_files (toggleInclude 1 True db_excluded))
   \<and> map vector_status
        (topic_files (db0\<lparr>topic_files := [file1, \<lparr>tf_id = 2, tf_topic_id = 1, tf_user_id = 1,
           storage_path = ''1/1/1_b.pdf'', include_in_rag = True, vector_status = Ingesting,
           deleted_at = None\<rparr>]\<rparr>)) = [Ingested, Ingesting]"
proof -
  have a: "file_excluded \<in> set (topic_files db_excluded)" by (simp add: db_excluded_def)
  have b: "tf_id file_excluded = 1" by (simp add: file_excluded_def file1_def)
  have c: "vector_status file_excluded = Excluded" by (simp add: file_excluded_def)
  note inst = frontend_vector_status_moves [where fid = 1 and s = db_excluded]
  from inst a b c have d: "file_excluded\<lparr>include_in_rag := True, vector_status := Ingested\<rparr>
        \<in> set (topic_files (toggleInclude 1 True db_excluded))"
    by blast
  have e: "map vector_status
        (topic_files (db0\<lparr>topic_files := [file1, \<lparr>tf_id = 2, tf_topic_id = 1, tf_user_id = 1,
           storage_path = ''1/1/1_b.pdf'', include_in_rag = True, vector_status = Ingesting,
           deleted_at = None\<rparr>]\<rparr>)) = [Ingested, Ingesting]"
    by (simp add: file1_def)
  from a b c d e show ?thesis by (intro conjI)
qed

text \<open>
  C6, the claim as stated: the switch moves the excluded file of the example directly to
  \<open>ingested\<close>, and the upload creates a file in \<open>ingesting\<close>; neither is among the
  admitted moves.
\<close>

theorem vector_status_edges_counterexample:
  "map vector_status (topic_files db_excluded) = [Excluded]
   \<and> map vector_status (topic_files (toggleInclude 1 True db_excluded)) = [Ingested]
   \<and> \<not> spec_vector_status_edge Excluded Ingested
   \<and> map vector_status (topic_files db0) = [Ingested]
   \<and> (\<exists>s'. handleFiles_insert 2 1 1 ''1/1/1_b.pdf'' db0 = Inr s'
            \<and> map vector_status (topic_files s') = [Ingested, Ingesting])"
proof -
  have a: "map vector_status (topic_files db_excluded) = [Excluded]"
    by (simp add: db_excluded_def file_excluded_def)
  have b: "map vector_status (topic_files (toggleInclude 1 True db_excluded)) = [Ingested]"
    by (simp add: toggle_rows db_excluded_def file_excluded_def file1_def)
  have c: "\<not> spec_vector_status_edge Excluded Ingested"
    by (simp add: spec_vector_status_edge_def)
  have d: "map vector_status (topic_files db0) = [Ingested]" by (simp add: db0_def file1_def)
  have e: "\<exists>s'. handleFiles_insert 2 1 1 ''1/1/1_b.pdf'' db0 = Inr s'
            \<and> map vector_status (topic_files s') = [Ingested, Ingesting]"
    unfolding upload_db0 by (simp add: file1_def)
  from a b c d e show ?thesis by (intro conjI)
qed

section \<open>Quiz regeneration: proofs\<close>

lemma delete_attempt_answers_frame [simp]:
  "quiz_questions (delete_attempt_answers P s) = quiz_questions s"
  "quiz_options (delete_attempt_answers P s) = quiz_options s"
  "quiz_attempts (delete_attempt_answers P s) = quiz_attempts s"
  "quizzes (delete_attempt_answers P s) = quizzes s"
  "topics (delete_attempt_answers P s) = topics s"
  "categories (delete_attempt_answers P s) = categories s"
  by (simp_all add: delete_attempt_answers_def)

lemma delete_quiz_attempts_frame [simp]:
  "quiz_questions (delete_quiz_attempts P s) = quiz_questions s"
  "quiz_options (delete_quiz_attempts P s) = quiz_options s"
  "quizzes (delete_quiz_attempts P s) = quizzes s"
  "topics (delete_quiz_attempts P s) = topics s"
  "categories (delete_quiz_attempts P s) = categories s"
  by (simp_all add: delete_quiz_attempts_def Let_def)

lemma delete_quiz_content_steps_result:
  "delete_quiz_content_steps p s =
     Inr (s\<lparr>attempt_answers :=
              filter (\<lambda>a. aa_question_id a \<notin> set (quiz_question_ids s p)) (attempt_answers s)\<rparr>)
     # Inr (s\<lparr>attempt_answers :=
              filter (\<lambda>a. aa_question_id a \<notin> set (quiz_question_ids s p)
                        \<and> aa_attempt_id a \<notin> qa_id ` {t \<in> set (quiz_attempts s). qa_quiz_id t = p})
                (attempt_answers s),
            quiz_attempts := filter (\<lambda>t. qa_quiz_id t \<noteq> p) (quiz_attempts s)\<rparr>)
     # (if \<exists>a \<in> set (attempt_answers s).
             aa_question_id a \<notin> set (quiz_question_ids s p)
             \<and> aa_attempt_id a \<notin> qa_id ` {t \<in> set (quiz_attempts s). qa_quiz_id t = p}
             \<and> (\<exists>x \<in> set (quiz_options s).
                   qo_question_id x \<in> set (quiz_question_ids s p) \<and> qo_id x = selected_option_id a)
        then [Inl Foreign_key_violation]
        else [Inr (s\<lparr>attempt_answers :=
                filter (\<lambda>a. aa_question_id a \<notin> set (quiz_question_ids s p)
                          \<and> aa_attempt_id a \<notin> qa_id ` {t \<in> set (quiz_attempts s). qa_quiz_id t = p})
                  (attempt_answers s),
              quiz_attempts := filter (\<lambda>t. qa_quiz_id t \<noteq> p) (quiz_attempts s),
              quiz_options := filter (\<lambda>x. qo_question_id x \<notin> set (quiz_question_ids s p))
                                (quiz_options s)\<rparr>),
              Inr (s\<lparr>attempt_answers :=
                filter (\<lambda>a. aa_question_id a \<notin> set (quiz_question_ids s p)
                          \<and> aa_attempt_id a \<notin> qa_id ` {t \<in> set (quiz_attempts s). qa_quiz_id t = p})
                  (attempt_answers s),
              quiz_attempts := filter (\<lambda>t. qa_quiz_id t \<noteq> p) (quiz_attempts s),
              quiz_options := filter (\<lambda>x. qo_question_id x \<notin> set (quiz_question_ids s p))
                                (quiz_options s),
              quiz_questions := filter (\<lambda>q. qq_quiz_id q \<noteq> p) (quiz_questions s)\<rparr>)])"
proof -
  let ?Q = "set (quiz_question_ids s p)"
  let ?A = "qa_id ` {t \<in> set (quiz_attempts s). qa_quiz_id t = p}"
  let ?blocked = "\<exists>a \<in> set (attempt_answers s). aa_question_id a \<notin> ?Q \<and> aa_attempt_id a \<notin> ?A
           \<and> (\<exists>x \<in> set (quiz_options s). qo_question_id x \<in> ?Q \<and> qo_id x = selected_option_id a)"
  define s2 where "s2 = delete_quiz_attempts (\<lambda>qa. qa_quiz_id qa = p)
                          (delete_attempt_answers (\<lambda>aa. aa_question_id aa \<in> ?Q) s)"
  have s2: "s2 = s\<lparr>attempt_answers :=
              filter (\<lambda>a. aa_question_id a \<notin> ?Q \<and> aa_attempt_id a \<notin> ?A) (attempt_answers s),
            quiz_attempts := filter (\<lambda>t. qa_quiz_id t \<noteq> p) (quiz_attempts s)\<rparr>"
    by (simp add: s2_def delete_attempt_answers_def delete_quiz_attempts_def Let_def conj_commute
        cong: filter_cong)
  have q2: "quiz_question_ids s2 p = quiz_question_ids s p"
    by (simp add: s2_def quiz_question_ids_def)
  have check: "(\<exists>a \<in> set (attempt_answers s2).
      selected_option_id a \<in> set (map qo_id (filter (\<lambda>qo. qo_question_id qo \<in> ?Q) (quiz_options s2))))
      = ?blocked"
  proof
    assume "\<exists>a \<in> set (attempt_answers s2).
      selected_option_id a \<in> set (map qo_id (filter (\<lambda>qo. qo_question_id qo \<in> ?Q) (quiz_options s2)))"
    then obtain a x where "a \<in> set (attempt_answers s)" "aa_question_id a \<notin> ?Q"
      "aa_attempt_id a \<notin> ?A" "x \<in> set (quiz_options s)" "qo_question_id x \<in> ?Q"
      "qo_id x = selected_option_id a"
      unfolding s2 by auto
    then show ?blocked by blast
  next
    assume ?blocked
    then obtain a x where "a \<in> set (attempt_answers s)" "aa_question_id a \<notin> ?Q"
      "aa_attempt_id a \<notin> ?A" "x \<in> set (quiz_options s)" "qo_question_id x \<in> ?Q"
      "qo_id x = selected_option_id a"
      by blast
    then have "a \<in> set (attempt_answers s2)"
      and "selected_option_id a \<in> set (map qo_id (filter (\<lambda>qo. qo_question_id qo \<in> ?Q) (quiz_options s2)))"
      unfolding s2 by (simp_all add: image_iff) metis
    then show "\<exists>a \<in> set (attempt_answers s2).
      selected_option_id a \<in> set (map qo_id (filter (\<lambda>qo. qo_question_id qo \<in> ?Q) (quiz_options s2)))"
      by blast
  qed
  define s3 where "s3 = s2\<lparr>quiz_options := filter (\<lambda>x. qo_question_id x \<notin> ?Q) (quiz_options s2)\<rparr>"
  have step3: "delete_quiz_options (\<lambda>qo. qo_question_id qo \<in> set (quiz_question_ids s2 p)) s2 =
      (if ?blocked then Inl Foreign_key_violation else Inr s3)"
    unfolding delete_quiz_options_def restrict_selected_options_def q2 s3_def
    using check by simp
  define s4 where "s4 = s3\<lparr>quiz_questions := filter (\<lambda>q. qq_quiz_id q \<noteq> p) (quiz_questions s3)\<rparr>"
  have ids4: "set (map qq_id (filter (\<lambda>qq3. qq_quiz_id qq3 = p) (quiz_questions s3))) = ?Q"
    by (simp add: s3_def s2_def quiz_question_ids_def)
  have no_opts: "filter (\<lambda>x. qo_question_id x \<in> ?Q) (quiz_options s3) = []"
    by (simp add: s3_def filter_empty_conv)
  have all_opts: "filter (\<lambda>x. qo_question_id x \<notin> ?Q) (quiz_options s3) = quiz_options s3"
    by (simp add: s3_def)
  have "\<forall>a \<in> set (attempt_answers s3). aa_question_id a \<notin> ?Q"
    by (simp add: s3_def s2)
  then have all_answers:
    "filter (\<lambda>a. aa_question_id a \<notin> ?Q) (attempt_answers s3) = attempt_answers s3"
    by (simp only: filter_id_conv)
  have step4: "delete_quiz_questions (\<lambda>qq3. qq_quiz_id qq3 = p) s3 = Inr s4"
    unfolding delete_quiz_questions_def Let_def ids4
    by (simp add: restrict_selected_options_def delete_attempt_answers_def no_opts all_opts
        all_answers s4_def)
  have s4: "s4 = s\<lparr>attempt_answers :=
              filter (\<lambda>a. aa_question_id a \<notin> ?Q \<and> aa_attempt_id a \<notin> ?A) (attempt_answers s),
            quiz_attempts := filter (\<lambda>t. qa_quiz_id t \<noteq> p) (quiz_attempts s),
            quiz_options := filter (\<lambda>x. qo_question_id x \<notin> ?Q) (quiz_options s),
            quiz_questions := filter (\<lambda>q. qq_quiz_id q \<noteq> p) (quiz_questions s)\<rparr>"
    by (simp add: s4_def s3_def s2)
  have s3': "s3 = s\<lparr>attempt_answers :=
              filter (\<lambda>a. aa_question_id a \<notin> ?Q \<and> aa_attempt_id a \<notin> ?A) (attempt_answers s),
            quiz_attempts := filter (\<lambda>t. qa_quiz_id t \<noteq> p) (quiz_attempts s),
            quiz_options := filter (\<lambda>x. qo_question_id x \<notin> ?Q) (quiz_options s)\<rparr>"
    by (simp add: s3_def s2)
  have s1: "delete_attempt_answers (\<lambda>aa. aa_question_id aa \<in> ?Q) s =
      s\<lparr>attempt_answers := filter (\<lambda>a. aa_question_id a \<notin> ?Q) (attempt_answers s)\<rparr>"
    by (simp add: delete_attempt_answers_def)
  have "delete_quiz_content_steps p s =
      Inr (delete_attempt_answers (\<lambda>aa. aa_question_id aa \<in> ?Q) s) # Inr s2 #
      (if ?blocked then [Inl Foreign_key_violation] else [Inr s3, Inr s4])"
    unfolding delete_quiz_content_steps_def Let_def s2_def [symmetric] step3 by (simp add: step4)
  then show ?thesis unfolding s1 s2 s3' s4 .
qed

lemma delete_quiz_content_result:
  "delete_quiz_content p s =
     (if \<exists>a \<in> set (attempt_answers s).
           aa_question_id a \<notin> set (quiz_question_ids s p)
           \<and> aa_attempt_id a \<notin> qa_id ` {t \<in> set (quiz_attempts s). qa_quiz_id t = p}
           \<and> (\<exists>x \<in> set (quiz_options s).
                 qo_question_id x \<in> set (quiz_question_ids s p) \<and> qo_id x = selected_option_id a)
      then Inl Foreign_key_violation
      else Inr (s\<lparr>attempt_answers :=
              filter (\<lambda>a. aa_question_id a \<notin> set (quiz_question_ids s p)
                        \<and> aa_attempt_id a \<notin> qa_id ` {t \<in> set (quiz_attempts s). qa_quiz_id t = p})
                (attempt_answers s),
            quiz_attempts := filter (\<lambda>t. qa_quiz_id t \<noteq> p) (quiz_attempts s),
            quiz_options := filter (\<lambda>x. qo_question_id x \<notin> set (quiz_question_ids s p))
                              (quiz_options s),
            quiz_questions := filter (\<lambda>q. qq_quiz_id q \<noteq> p) (quiz_questions s)\<rparr>))"
  unfolding delete_quiz_content_def delete_quiz_content_steps_result by simp

lemma own_options_not_blocked:
  assumes own: "answers_select_own_options s"
  shows "\<not> (\<exists>a \<in> set (attempt_answers s).
           aa_question_id a \<notin> Q \<and> aa_attempt_id a \<notin> A
           \<and> (\<exists>x \<in> set (quiz_options s). qo_question_id x \<in> Q \<and> qo_id x = selected_option_id a))"
proof
  assume "\<exists>a \<in> set (attempt_answers s).
           aa_question_id a \<notin> Q \<and> aa_attempt_id a \<notin> A
           \<and> (\<exists>x \<in> set (quiz_options s). qo_question_id x \<in> Q \<and> qo_id x = selected_option_id a)"
  then obtain a x where a: "a \<in> set (attempt_answers s)" and keep: "aa_question_id a \<notin> Q"
    and x: "x \<in> set (quiz_options s)" and xq: "qo_question_id x \<in> Q"
    and sel: "qo_id x = selected_option_id a"
    by blast
  from own a x sel have "qo_question_id x = aa_question_id a"
    by (auto simp: answers_select_own_options_def)
  with xq keep show False by simp
qed

lemma insert_all_questions_Inr:
  "insert_all insert_quiz_question qs s = Inr s1 \<Longrightarrow>
     s1 = s\<lparr>quiz_questions := quiz_questions s @ qs\<rparr>"
proof (induction qs arbitrary: s)
  case Nil
  then show ?case by simp
next
  case (Cons q qs)
  from Cons.prems obtain s0 where first: "insert_quiz_question q s = Inr s0"
    and rest: "insert_all insert_quiz_question qs s0 = Inr s1"
    by (auto split: sum.splits)
  from first have "s0 = s\<lparr>quiz_questions := quiz_questions s @ [q]\<rparr>"
    by (auto simp: insert_quiz_question_def split: if_splits)
  with Cons.IH [OF rest] show ?case by simp
qed

lemma insert_all_options_Inr:
  "insert_all insert_quiz_option xs s = Inr s1 \<Longrightarrow>
     s1 = s\<lparr>quiz_options := quiz_options s @ xs\<rparr>"
proof (induction xs arbitrary: s)
  case Nil
  then show ?case by simp
next
  case (Cons x xs)
  from Cons.prems obtain s0 where first: "insert_quiz_option x s = Inr s0"
    and rest: "insert_all insert_quiz_option xs s0 = Inr s1"
    by (auto split: sum.splits)
  from insert_quiz_option_Inr [OF first] Cons.IH [OF rest] show ?case by simp
qed

lemma insert_attempt_answer_keeps_fk:
  assumes "insert_attempt_answer r s = Inr s1" and "answers_have_questions s"
  shows "answers_have_questions s1"
  using assms
  by (auto simp: insert_attempt_answer_def answers_have_questions_def
      split: option.splits if_splits)

lemma insert_all_answers_keep_fk:
  "insert_all insert_attempt_answer rows s = Inr s1 \<Longrightarrow> answers_have_questions s \<Longrightarrow>
     answers_have_questions s1"
proof (induction rows arbitrary: s)
  case Nil
  then show ?case by simp
next
  case (Cons r rows)
  from Cons.prems(1) obtain s0 where first: "insert_attempt_answer r s = Inr s0"
    and rest: "insert_all insert_attempt_answer rows s0 = Inr s1"
    by (auto split: sum.splits)
  from insert_attempt_answer_keeps_fk [OF first Cons.prems(2)] Cons.IH [OF rest]
  show ?case by simp
qed

lemma submit_keeps_fk:
  assumes fk: "answers_have_questions s"
  shows "answers_have_questions (fst (submit attemptId user quizId now questions answers s))"
proof -
  let ?a = "\<lparr>qa_id = attemptId, qa_quiz_id = quizId, qa_user_id = user,
              submitted_at = None, score_percent = None\<rparr>"
  let ?rows = "map (\<lambda>d. \<lparr>ar_attempt_id = attemptId, ar_question_id = d_id d,
                           ar_selected_option_id = yourChoiceId d,
                           ar_is_correct = strict_equal (yourChoiceId d) (correctChoiceId d)\<rparr>)
                 (details_of questions answers)"
  show ?thesis
  proof (cases "insert_quiz_attempt ?a s")
    case (Inl e)
    with fk show ?thesis by (simp add: submit_def)
  next
    case (Inr s1)
    from insert_quiz_attempt_Inr(1) [OF Inr] fk have fk1: "answers_have_questions s1"
      by (simp add: answers_have_questions_def)
    show ?thesis
    proof (cases "insert_all insert_attempt_answer ?rows s1")
      case (Inl e)
      with Inr fk1 show ?thesis by (simp add: submit_def Let_def)
    next
      case (Inr s2)
      note a2 = this
      from insert_all_answers_keep_fk [OF a2 fk1] have fk2: "answers_have_questions s2" .
      let ?score = "score_of (length (filter (\<lambda>d. strict_equal (yourChoiceId d) (correctChoiceId d))
                                  (details_of questions answers))) (length questions)"
      show ?thesis
      proof (cases "finalize_attempt attemptId now ?score s2")
        case (Inl e)
        with \<open>insert_quiz_attempt ?a s = Inr s1\<close> a2 fk2 show ?thesis
          by (simp add: submit_def Let_def)
      next
        case (Inr s3)
        from finalize_attempt_Inr [OF Inr] fk2 have "answers_have_questions s3"
          by (simp add: answers_have_questions_def)
        with \<open>insert_quiz_attempt ?a s = Inr s1\<close> a2 Inr show ?thesis
          by (simp add: submit_def Let_def)
      qed
    qed
  qed
qed

text \<open>
  C3. \<open>delete_quiz_content\<close> runs four deletes. After the first, the answers to the
  quiz's questions are gone and every attempt, option and question is still stored;
  after the second, the quiz's attempts are gone too, with the answers given in them;
  after the third, the options of the quiz's questions are gone and every question is
  still stored; after the fourth, the quiz's questions are gone. The third delete is
  the only one that can fail, by the \<open>restrict\<close> of an answer of another quiz that
  selects an option of this quiz; then the fourth does not run and nothing is changed.
  The function returns whenever every answer selects an option of its own question.
  When it returns, the rows of other quizzes are as before, and every answer still
  refers to a stored question if that was so before. A regeneration that goes through
  adds the new questions and options to the emptied state and touches no attempt and no
  answer: the quiz has the new questions only, and no answer refers to a missing
  question. Nor does a submission of the quiz runner, whatever questions it has loaded,
  ever store an answer that refers to a missing question.
\<close>

theorem quiz_regeneration_discards_old_content:
  "delete_quiz_content_steps p s =
     Inr (s\<lparr>attempt_answers :=
              filter (\<lambda>a. aa_question_id a \<notin> set (quiz_question_ids s p)) (attempt_answers s)\<rparr>)
     # Inr (s\<lparr>attempt_answers :=
              filter (\<lambda>a. aa_question_id a \<notin> set (quiz_question_ids s p)
                        \<and> aa_attempt_id a \<notin> qa_id ` {t \<in> set (quiz_attempts s). qa_quiz_id t = p})
                (attempt_answers s),
            quiz_attempts := filter (\<lambda>t. qa_quiz_id t \<noteq> p) (quiz_attempts s)\<rparr>)
     # (if \<exists>a \<in> set (attempt_answers s).
             aa_question_id a \<notin> set (quiz_question_ids s p)
             \<and> aa_attempt_id a \<notin> qa_id ` {t \<in> set (quiz_attempts s). qa_quiz_id t = p}
             \<and> (\<exists>x \<in> set (quiz_options s).
                   qo_question_id x \<in> set (quiz_question_ids s p) \<and> qo_id x = selected_option_id a)
        then [Inl Foreign_key_violation]
        else [Inr (s\<lparr>attempt_answers :=
                filter (\<lambda>a. aa_question_id a \<notin> set (quiz_question_ids s p)
                          \<and> aa_attempt_id a \<notin> qa_id ` {t \<in> set (quiz_attempts s). qa_quiz_id t = p})
                  (attempt_answers s),
              quiz_attempts := filter (\<lambda>t. qa_quiz_id t \<noteq> p) (quiz_attempts s),
              quiz_options := filter (\<lambda>x. qo_question_id x \<notin> set (quiz_question_ids s p))
                                (quiz_options s)\<rparr>),
              Inr (s\<lparr>attempt_answers :=
                filter (\<lambda>a. aa_question_id a \<notin> set (quiz_question_ids s p)
                          \<and> aa_attempt_id a \<notin> qa_id ` {t \<in> set (quiz_attempts s). qa_quiz_id t = p})
                  (attempt_answers s),
              quiz_attempts := filter (\<lambda>t. qa_quiz_id t \<noteq> p) (quiz_attempts s),
              quiz_options := filter (\<lambda>x. qo_question_id x \<notin> set (quiz_question_ids s p))
                                (quiz_options s),
              quiz_questions := filter (\<lambda>q. qq_quiz_id q \<noteq> p) (quiz_questions s)\<rparr>)])
   \<and> delete_quiz_content p s = last (delete_quiz_content_steps p s)
   \<and> (answers_select_own_options s \<longrightarrow> length (delete_quiz_content_steps p s) = 4)
   \<and> (answers_select_own_options s \<longrightarrow> (\<exists>s1. delete_quiz_content p s = Inr s1))
   \<and> (\<forall>e. delete_quiz_content p s = Inl e \<longrightarrow> e = Foreign_key_violation)
   \<and> (\<forall>s1. delete_quiz_content p s = Inr s1 \<longrightarrow>
         quiz_questions s1 = filter (\<lambda>q. qq_quiz_id q \<noteq> p) (quiz_questions s)
         \<and> quiz_options s1 =
             filter (\<lambda>x. qo_question_id x \<notin> set (quiz_question_ids s p)) (quiz_options s)
         \<and> quiz_attempts s1 = filter (\<lambda>t. qa_quiz_id t \<noteq> p) (quiz_attempts s)
         \<and> attempt_answers s1 =
             filter (\<lambda>a. aa_question_id a \<notin> set (quiz_question_ids s p)
                       \<and> aa_attempt_id a \<notin> qa_id ` {t \<in> set (quiz_attempts s). qa_quiz_id t = p})
               (attempt_answers s)
         \<and> (answers_have_questions s \<longrightarrow> answers_have_questions s1)
         \<and> (\<forall>s2. regenerate_quiz p new_questions new_options s = Inr s2 \<longrightarrow>
               quiz_questions s2 = quiz_questions s1 @ new_questions
               \<and> quiz_options s2 = quiz_options s1 @ new_options
               \<and> quiz_attempts s2 = quiz_attempts s1
               \<and> attempt_answers s2 = attempt_answers s1
               \<and> (answers_have_questions s \<longrightarrow> answers_have_questions s2)))
   \<and> (answers_have_questions s \<longrightarrow>
         answers_have_questions (fst (submit attemptId user quizId now questions answers s)))"
proof (intro conjI allI impI)
  let ?Q = "set (quiz_question_ids s p)"
  let ?A = "qa_id ` {t \<in> set (quiz_attempts s). qa_quiz_id t = p}"
  show "delete_quiz_content_steps p s =
     Inr (s\<lparr>attempt_answers :=
              filter (\<lambda>a. aa_question_id a \<notin> set (quiz_question_ids s p)) (attempt_answers s)\<rparr>)
     # Inr (s\<lparr>attempt_answers :=
              filter (\<lambda>a. aa_question_id a \<notin> set (quiz_question_ids s p)
                        \<and> aa_attempt_id a \<notin> qa_id ` {t \<in> set (quiz_attempts s). qa_quiz_id t = p})
                (attempt_answers s),
            quiz_attempts := filter (\<lambda>t. qa_quiz_id t \<noteq> p) (quiz_attempts s)\<rparr>)
     # (if \<exists>a \<in> set (attempt_answers s).
             aa_question_id a \<notin> set (quiz_question_ids s p)
             \<and> aa_attempt_id a \<notin> qa_id ` {t \<in> set (quiz_attempts s). qa_quiz_id t = p}
             \<and> (\<exists>x \<in> set (quiz_options s).
                   qo_question_id x \<in> set (quiz_question_ids s p) \<and> qo_id x = selected_option_id a)
        then [Inl Foreign_key_violation]
        else [Inr (s\<lparr>attempt_answers :=
                filter (\<lambda>a. aa_question_id a \<notin> set (quiz_question_ids s p)
                          \<and> aa_attempt_id a \<notin> qa_id ` {t \<in> set (quiz_attempts s). qa_quiz_id t = p})
                  (attempt_answers s),
              quiz_attempts := filter (\<lambda>t. qa_quiz_id t \<noteq> p) (quiz_attempts s),
              quiz_options := filter (\<lambda>x. qo_question_id x \<notin> set (quiz_question_ids s p))
                                (quiz_options s)\<rparr>),
              Inr (s\<lparr>attempt_answers :=
                filter (\<lambda>a. aa_question_id a \<notin> set (quiz_question_ids s p)
                          \<and> aa_attempt_id a \<notin> qa_id ` {t \<in> set (quiz_attempts s). qa_quiz_id t = p})
                  (attempt_answers s),
              quiz_attempts := filter (\<lambda>t. qa_quiz_id t \<noteq> p) (quiz_attempts s),
              quiz_options := filter (\<lambda>x. qo_question_id x \<notin> set (quiz_question_ids s p))
                                (quiz_options s),
              quiz_questions := filter (\<lambda>q. qq_quiz_id q \<noteq> p) (quiz_questions s)\<rparr>)])"
    by (rule delete_quiz_content_steps_result)
  show "delete_quiz_content p s = last (delete_quiz_content_steps p s)"
    by (rule delete_quiz_content_def)
  show "length (delete_quiz_content_steps p s) = 4" if "answers_select_own_options s"
    using own_options_not_blocked [OF that, of ?Q ?A]
    by (simp add: delete_quiz_content_steps_result)
  show "\<exists>s1. delete_quiz_content p s = Inr s1" if "answers_select_own_options s"
    using own_options_not_blocked [OF that, of ?Q ?A]
    by (simp add: delete_quiz_content_result)
  show "e = Foreign_key_violation" if "delete_quiz_content p s = Inl e" for e
    using that by (simp only: delete_quiz_content_result split: if_splits) simp_all
  show "answers_have_questions (fst (submit attemptId user quizId now questions answers s))"
    if "answers_have_questions s"
    using that by (rule submit_keeps_fk)
  fix s1 assume run: "delete_quiz_content p s = Inr s1"
  then have s1: "s1 = s\<lparr>attempt_answers :=
              filter (\<lambda>a. aa_question_id a \<notin> ?Q \<and> aa_attempt_id a \<notin> ?A) (attempt_answers s),
            quiz_attempts := filter (\<lambda>t. qa_quiz_id t \<noteq> p) (quiz_attempts s),
            quiz_options := filter (\<lambda>x. qo_question_id x \<notin> ?Q) (quiz_options s),
            quiz_questions := filter (\<lambda>q. qq_quiz_id q \<noteq> p) (quiz_questions s)\<rparr>"
    by (simp only: delete_quiz_content_result split: if_splits) simp_all
  show "quiz_questions s1 = filter (\<lambda>q. qq_quiz_id q \<noteq> p) (quiz_questions s)"
    and "quiz_options s1 = filter (\<lambda>x. qo_question_id x \<notin> ?Q) (quiz_options s)"
    and "quiz_attempts s1 = filter (\<lambda>t. qa_quiz_id t \<noteq> p) (quiz_attempts s)"
    and "attempt_answers s1 =
             filter (\<lambda>a. aa_question_id a \<notin> ?Q \<and> aa_attempt_id a \<notin> ?A) (attempt_answers s)"
    by (simp_all add: s1)
  have kept: "answers_have_questions s1" if fk: "answers_have_questions s"
    unfolding answers_have_questions_def
  proof
    fix a assume "a \<in> set (attempt_answers s1)"
    then have a: "a \<in> set (attempt_answers s)" and out: "aa_question_id a \<notin> ?Q"
      by (simp_all add: s1)
    from fk a obtain q where q: "q \<in> set (quiz_questions s)" and id: "qq_id q = aa_question_id a"
      by (auto simp: answers_have_questions_def)
    have "qq_quiz_id q \<noteq> p"
    proof
      assume "qq_quiz_id q = p"
      with q have "qq_id q \<in> ?Q" by (simp add: quiz_question_ids_def image_iff) blast
      with out id show False by simp
    qed
    with q id show "aa_question_id a \<in> qq_id ` set (quiz_questions s1)"
      by (auto simp: s1 image_iff)
  qed
  then show "answers_have_questions s1" if "answers_have_questions s" using that .
  fix s2 assume "regenerate_quiz p new_questions new_options s = Inr s2"
  with run obtain m where m: "insert_all insert_quiz_question new_questions s1 = Inr m"
    and s2: "insert_all insert_quiz_option new_options m = Inr s2"
    by (auto simp: regenerate_quiz_def split: sum.splits)
  from insert_all_questions_Inr [OF m] insert_all_options_Inr [OF s2]
  have eq: "s2 = s1\<lparr>quiz_questions := quiz_questions s1 @ new_questions,
                    quiz_options := quiz_options s1 @ new_options\<rparr>"
    by simp
  show "quiz_questions s2 = quiz_questions s1 @ new_questions"
    and "quiz_options s2 = quiz_options s1 @ new_options"
    and "quiz_attempts s2 = quiz_attempts s1"
    and "attempt_answers s2 = attempt_answers s1"
    by (simp_all add: eq)
  show "answers_have_questions s2" if "answers_have_questions s"
    using kept [OF that] by (auto simp: eq answers_have_questions_def)
qed

lemma db_quiz_wellformed:
  "answers_select_own_options db_quiz" "answers_have_questions db_quiz"
  by (simp_all add: answers_select_own_options_def answers_have_questions_def db_quiz_def opt1_def)

lemma regenerate_db_quiz:
  "regenerate_quiz 1 [\<lparr>qq_id = 7, qq_quiz_id = 1, order_index = 0\<rparr>]
       [\<lparr>qo_id = 8, qo_question_id = 7, qo_is_correct = True\<rparr>] db_quiz =
     Inr (db_quiz\<lparr>quiz_questions := [\<lparr>qq_id = 7, qq_quiz_id = 1, order_index = 0\<rparr>],
                  quiz_options := [\<lparr>qo_id = 8, qo_question_id = 7, qo_is_correct = True\<rparr>],
                  quiz_attempts := [], attempt_answers := []\<rparr>)"
  by (simp add: regenerate_quiz_def delete_quiz_content_def delete_quiz_content_steps_def
      delete_attempt_answers_def delete_quiz_attempts_def delete_quiz_options_def delete_quiz_questions_def
      restrict_selected_options_def quiz_question_ids_def insert_quiz_question_def
      insert_quiz_option_def Let_def db_quiz_def db0_def opt1_def)

theorem quiz_regeneration_discards_old_content_witness:
  "answers_select_own_options db_quiz \<and> answers_have_questions db_quiz
   \<and> (\<exists>s1. delete_quiz_content 1 db_quiz = Inr s1
          \<and> quiz_questions s1 = [] \<and> quiz_options s1 = [] \<and> quiz_attempts s1 = []
          \<and> attempt_answers s1 = [] \<and> answers_have_questions s1)
   \<and> delete_quiz_options (\<lambda>qo. qo_question_id qo \<in> set (quiz_question_ids db_quiz 1)) db_quiz
        = Inl Foreign_key_violation
   \<and> regenerate_quiz 1 [\<lparr>qq_id = 7, qq_quiz_id = 1, order_index = 0\<rparr>]
       [\<lparr>qo_id = 8, qo_question_id = 7, qo_is_correct = True\<rparr>] db_quiz =
     Inr (db_quiz\<lparr>quiz_questions := [\<lparr>qq_id = 7, qq_quiz_id = 1, order_index = 0\<rparr>],
                  quiz_options := [\<lparr>qo_id = 8, qo_question_id = 7, qo_is_correct = True\<rparr>],
                  quiz_attempts := [], attempt_answers := []\<rparr>)
   \<and> answers_have_questions
       (db_quiz\<lparr>quiz_questions := [\<lparr>qq_id = 7, qq_quiz_id = 1, order_index = 0\<rparr>],
                quiz_options := [\<lparr>qo_id = 8, qo_question_id = 7, qo_is_correct = True\<rparr>],
                quiz_attempts := [], attempt_answers := []\<rparr>)
   \<and> map (\<lambda>r. case r of
                 Inl e \<Rightarrow> None
               | Inr t \<Rightarrow> Some (map aa_question_id (attempt_answers t), map qa_id (quiz_attempts t),
                                map qo_id (quiz_options t), map qq_id (quiz_questions t)))
        (Inr db_two_quizzes # delete_quiz_content_steps 1 db_two_quizzes) =
        [Some ([1, 2, 3], [1, 2], [1, 2, 3, 4, 5, 6], [1, 2, 3]),
         Some ([3], [1, 2], [1, 2, 3, 4, 5, 6], [1, 2, 3]),
         Some ([3], [2], [1, 2, 3, 4, 5, 6], [1, 2, 3]),
         Some ([3], [2], [5, 6], [1, 2, 3]),
         Some ([3], [2], [5, 6], [3])]"
proof -
  have q: "quiz_question_ids db_quiz 1 = [1, 2]"
    by (simp add: quiz_question_ids_def db_quiz_def)
  have f1: "filter (\<lambda>q. qq_quiz_id q \<noteq> 1) (quiz_questions db_quiz) = []"
    by (simp add: db_quiz_def)
  have f2: "filter (\<lambda>x. qo_question_id x \<notin> set [1, 2]) (quiz_options db_quiz) = []"
    by (simp add: db_quiz_def opt1_def)
  have f3: "filter (\<lambda>t. qa_quiz_id t \<noteq> 1) (quiz_attempts db_quiz) = []"
    by (simp add: db_quiz_def)
  have f4: "filter (\<lambda>a. aa_question_id a \<notin> set [1, 2]
                   \<and> aa_attempt_id a \<notin> qa_id ` {t \<in> set (quiz_attempts db_quiz). qa_quiz_id t = 1})
           (attempt_answers db_quiz) = []"
    by (simp add: db_quiz_def)
  note inst = conjunct2 [OF conjunct2 [OF conjunct2 [OF quiz_regeneration_discards_old_content
    [where s = db_quiz and p = 1
       and new_questions = "[\<lparr>qq_id = 7, qq_quiz_id = 1, order_index = 0\<rparr>]"
       and new_options = "[\<lparr>qo_id = 8, qo_question_id = 7, qo_is_correct = True\<rparr>]"]]],
    unfolded q f1 f2 f3 f4]
  have q2: "quiz_question_ids db_two_quizzes 1 = [1, 2]"
    by (simp add: quiz_question_ids_def db_two_quizzes_def db_quiz_def)
  have a2: "qa_id ` {t \<in> set (quiz_attempts db_two_quizzes). qa_quiz_id t = 1} = {1}"
    by (simp only: set_filter [symmetric]) (simp add: db_two_quizzes_def db_quiz_def)
  have trace: "map (\<lambda>r. case r of
                 Inl e \<Rightarrow> None
               | Inr t \<Rightarrow> Some (map aa_question_id (attempt_answers t), map qa_id (quiz_attempts t),
                                map qo_id (quiz_options t), map qq_id (quiz_questions t)))
        (Inr db_two_quizzes # delete_quiz_content_steps 1 db_two_quizzes) =
        [Some ([1, 2, 3], [1, 2], [1, 2, 3, 4, 5, 6], [1, 2, 3]),
         Some ([3], [1, 2], [1, 2, 3, 4, 5, 6], [1, 2, 3]),
         Some ([3], [2], [1, 2, 3, 4, 5, 6], [1, 2, 3]),
         Some ([3], [2], [5, 6], [1, 2, 3]),
         Some ([3], [2], [5, 6], [3])]"
    by (simp only: conjunct1 [OF quiz_regeneration_discards_old_content
          [where s = db_two_quizzes and p = 1]] q2 a2)
      (simp add: db_two_quizzes_def db_quiz_def db0_def opt1_def)
  from inst db_quiz_wellformed(1) obtain s1 where run: "delete_quiz_content 1 db_quiz = Inr s1"
    by blast
  with inst db_quiz_wellformed(2)
  have "quiz_questions s1 = [] \<and> quiz_options s1 = [] \<and> quiz_attempts s1 = []
          \<and> attempt_answers s1 = [] \<and> answers_have_questions s1"
    by blast
  with run have emptied: "\<exists>s1. delete_quiz_content 1 db_quiz = Inr s1
          \<and> quiz_questions s1 = [] \<and> quiz_options s1 = [] \<and> quiz_attempts s1 = []
          \<and> attempt_answers s1 = [] \<and> answers_have_questions s1"
    by (intro exI [of _ s1] conjI) simp_all
  have blocked: "delete_quiz_options (\<lambda>qo. qo_question_id qo \<in> set (quiz_question_ids db_quiz 1)) db_quiz
        = Inl Foreign_key_violation"
    unfolding q
    by (simp add: delete_quiz_options_def restrict_selected_options_def db_quiz_def opt1_def)
  from inst run regenerate_db_quiz db_quiz_wellformed(2)
  have sound: "answers_have_questions
       (db_quiz\<lparr>quiz_questions := [\<lparr>qq_id = 7, qq_quiz_id = 1, order_index = 0\<rparr>],
                quiz_options := [\<lparr>qo_id = 8, qo_question_id = 7, qo_is_correct = True\<rparr>],
                quiz_attempts := [], attempt_answers := []\<rparr>)"
    by blast
  from db_quiz_wellformed emptied blocked regenerate_db_quiz sound trace
  show ?thesis by (intro conjI)
qed

section \<open>Category pruning: proofs\<close>

lemma cascade_frames [simp]:
  "topics (delete_chunks P s) = topics s"
  "categories (delete_chunks P s) = categories s"
  "topics (delete_documents Q s) = topics s"
  "categories (delete_documents Q s) = categories s"
  "topics (delete_topic_files R s) = topics s"
  "categories (delete_topic_files R s) = categories s"
  "topics (delete_topic_summaries S s) = topics s"
  "categories (delete_topic_summaries S s) = categories s"
  by (simp_all add: delete_chunks_def delete_documents_def delete_topic_files_def
      delete_topic_summaries_def Let_def)

lemma delete_quizzes_frame:
  assumes "delete_quizzes P s = Inr s1"
  shows "topics s1 = topics s" and "categories s1 = categories s"
  using assms
  by (auto simp: delete_quizzes_def restrict_selected_options_def Let_def split: if_splits)

text \<open>
  The trigger function in the session of the owner of the old row: when no topic of
  that user refers to the category, the category rows with that id that belong to the
  user are deleted and the reference is cleared in every topic that still has it;
  otherwise nothing is changed.
\<close>

lemma prune_unreferenced:
  assumes cat: "category_id old = Some c"
    and own: "topic_user_id old = uid"
    and none: "\<forall>u \<in> set (topics s). topic_user_id u = uid \<longrightarrow> category_id u \<noteq> Some c"
  shows "categories (prune_orphan_category uid old s) =
           filter (\<lambda>x. \<not> (cat_id x = c \<and> cat_user_id x = uid)) (categories s)"
    and "topics (prune_orphan_category uid old s) =
           map (\<lambda>u. if category_id u = Some c
                        \<and> (\<exists>x \<in> set (categories s). cat_id x = c \<and> cat_user_id x = uid)
                     then u\<lparr>category_id := None\<rparr> else u) (topics s)"
proof -
  let ?P = "\<lambda>x. cat_id x = c \<and> cat_user_id x = topic_user_id old"
  from cat none have run: "prune_orphan_category uid old s = delete_categories uid ?P s"
    by (auto simp: prune_orphan_category_def)
  show "categories (prune_orphan_category uid old s) =
           filter (\<lambda>x. \<not> (cat_id x = c \<and> cat_user_id x = uid)) (categories s)"
    using own by (simp add: run delete_categories_def Let_def cong: filter_cong)
  have ids: "d \<in> set (map cat_id (filter (\<lambda>x. ?P x \<and> cat_user_id x = uid) (categories s))) \<longleftrightarrow>
      d = c \<and> (\<exists>x \<in> set (categories s). cat_id x = c \<and> cat_user_id x = uid)" for d
    using own by (auto simp: image_iff)
  have tops: "topics (delete_categories uid ?P s) =
        map (\<lambda>t. case category_id t of None \<Rightarrow> t
                  | Some d \<Rightarrow> if d \<in> set (map cat_id (filter (\<lambda>x. ?P x \<and> cat_user_id x = uid)
                                                      (categories s)))
                              then t\<lparr>category_id := None\<rparr> else t) (topics s)"
    unfolding delete_categories_def Let_def by simp
  have eq: "map (\<lambda>t. case category_id t of None \<Rightarrow> t
                  | Some d \<Rightarrow> if d \<in> set (map cat_id (filter (\<lambda>x. ?P x \<and> cat_user_id x = uid)
                                                      (categories s)))
                              then t\<lparr>category_id := None\<rparr> else t) (topics s) =
        map (\<lambda>u. if category_id u = Some c
                     \<and> (\<exists>x \<in> set (categories s). cat_id x = c \<and> cat_user_id x = uid)
                  then u\<lparr>category_id := None\<rparr> else u) (topics s)"
  proof (rule map_cong [OF refl])
    fix t assume "t \<in> set (topics s)"
    show "(case category_id t of None \<Rightarrow> t
            | Some d \<Rightarrow> if d \<in> set (map cat_id (filter (\<lambda>x. ?P x \<and> cat_user_id x = uid)
                                                (categories s)))
                        then t\<lparr>category_id := None\<rparr> else t) =
          (if category_id t = Some c
              \<and> (\<exists>x \<in> set (categories s). cat_id x = c \<and> cat_user_id x = uid)
           then t\<lparr>category_id := None\<rparr> else t)"
    proof (cases "category_id t")
      case None
      then show ?thesis by simp
    next
      case (Some d)
      then show ?thesis by (simp only: option.case ids) auto
    qed
  qed
  show "topics (prune_orphan_category uid old s) =
           map (\<lambda>u. if category_id u = Some c
                        \<and> (\<exists>x \<in> set (categories s). cat_id x = c \<and> cat_user_id x = uid)
                     then u\<lparr>category_id := None\<rparr> else u) (topics s)"
    unfolding run tops by (rule eq)
qed

lemma prune_referenced:
  assumes "category_id old = Some c"
    and "\<exists>u \<in> set (topics s). topic_user_id u = uid \<and> category_id u = Some c"
  shows "prune_orphan_category uid old s = s"
  using assms by (simp add: prune_orphan_category_def)

lemma own_row_filter:
  assumes pk: "distinct (map topic_id (topics s))"
    and row: "t \<in> set (topics s)"
    and own: "topic_user_id t = uid"
  shows "filter (\<lambda>u. topic_id u = topic_id t \<and> topic_user_id u = uid) (topics s) = [t]"
    and "filter (\<lambda>u. \<not> (topic_id u = topic_id t \<and> topic_user_id u = uid)) (topics s) =
           filter (\<lambda>u. topic_id u \<noteq> topic_id t) (topics s)"
    and "map (\<lambda>u. if topic_id u = topic_id t \<and> topic_user_id u = uid then g u else u) (topics s) =
           map (\<lambda>u. if topic_id u = topic_id t then g u else u) (topics s)"
proof -
  have same: "topic_user_id u = uid" if "u \<in> set (topics s)" and "topic_id u = topic_id t" for u
    using key_row_unique [OF pk row that] own by simp
  have "filter (\<lambda>u. topic_id u = topic_id t \<and> topic_user_id u = uid) (topics s) =
        filter (\<lambda>u. topic_id u = topic_id t) (topics s)"
    by (rule filter_cong [OF refl]) (auto dest: same)
  then show "filter (\<lambda>u. topic_id u = topic_id t \<and> topic_user_id u = uid) (topics s) = [t]"
    by (simp only: filter_key_singleton [OF pk row])
  show "filter (\<lambda>u. \<not> (topic_id u = topic_id t \<and> topic_user_id u = uid)) (topics s) =
           filter (\<lambda>u. topic_id u \<noteq> topic_id t) (topics s)"
    by (rule filter_cong [OF refl]) (auto dest: same)
  show "map (\<lambda>u. if topic_id u = topic_id t \<and> topic_user_id u = uid then g u else u) (topics s) =
           map (\<lambda>u. if topic_id u = topic_id t then g u else u) (topics s)"
    by (rule map_cong [OF refl]) (auto dest: same)
qed

lemma delete_topics_Inr:
  assumes pk: "distinct (map topic_id (topics s))"
    and row: "t \<in> set (topics s)"
    and own: "topic_user_id t = uid"
    and run: "delete_topics uid (topic_id t) s = Inr s'"
  shows "\<exists>s5. s' = prune_orphan_category uid t s5
           \<and> topics s5 = filter (\<lambda>u. topic_id u \<noteq> topic_id t) (topics s)
           \<and> categories s5 = categories s"
proof -
  note one = own_row_filter(1,2) [OF pk row own]
  let ?s4 = "delete_chunks (\<lambda>c. chunk_topic_id c = topic_id t \<and> [t] \<noteq> [])
              (delete_documents (\<lambda>d. doc_topic_id d = topic_id t \<and> [t] \<noteq> [])
                (delete_topic_files (\<lambda>f. tf_topic_id f = topic_id t \<and> [t] \<noteq> [])
                  (delete_topic_summaries (\<lambda>x. ts_topic_id x = topic_id t \<and> [t] \<noteq> [])
                    (s\<lparr>topics := filter (\<lambda>u. topic_id u \<noteq> topic_id t) (topics s)\<rparr>))))"
  from run obtain s5 where q: "delete_quizzes (\<lambda>q. quiz_topic_id q = topic_id t \<and> [t] \<noteq> []) ?s4 = Inr s5"
    and s': "s' = prune_orphan_category uid t s5"
    unfolding delete_topics_def Let_def one by (auto split: sum.splits)
  from delete_quizzes_frame [OF q]
  have "topics s5 = filter (\<lambda>u. topic_id u \<noteq> topic_id t) (topics s)"
    and "categories s5 = categories s"
    by simp_all
  with s' show ?thesis by blast
qed

lemma update_topics_category_Inr:
  assumes pk: "distinct (map topic_id (topics s))"
    and row: "t \<in> set (topics s)"
    and own: "topic_user_id t = uid"
    and change: "category_id t \<noteq> cid"
    and run: "update_topics_category uid (topic_id t) cid s = Inr s'"
  shows "s' = prune_orphan_category uid t
                (s\<lparr>topics := map (\<lambda>u. if topic_id u = topic_id t then u\<lparr>category_id := cid\<rparr>
                                       else u) (topics s)\<rparr>)"
proof -
  note one = own_row_filter(1) [OF pk row own]
  have "filter (\<lambda>u. topic_id u = topic_id t \<and> topic_user_id u = uid \<and> category_id u \<noteq> cid)
          (topics s) =
        filter (\<lambda>u. category_id u \<noteq> cid)
          (filter (\<lambda>u. topic_id u = topic_id t \<and> topic_user_id u = uid) (topics s))"
    by (simp add: conj_commute conj_left_commute)
  with change have changed:
    "filter (\<lambda>u. topic_id u = topic_id t \<and> topic_user_id u = uid \<and> category_id u \<noteq> cid)
       (topics s) = [t]"
    by (simp only: one) simp
  from run show ?thesis
    unfolding update_topics_category_def Let_def changed
      own_row_filter(3) [OF pk row own, of "\<lambda>u. u\<lparr>category_id := cid\<rparr>"]
    by (simp split: if_splits)
qed

text \<open>
  C5 (as amended). Let a user delete one of the user's own topics that refers to a
  category, or re-point it to another category or to none. When another topic of that
  user refers to the category, all categories stay and no other topic is changed. When
  none does, the category rows with that id that belong to the user are deleted, and no
  other category row is: a category of another user stays; and when a row is deleted,
  the reference to it is cleared in the topics that still had it, which are topics of
  other users. So no category row is removed while a topic of the user whose statement
  fired the trigger refers to it.
\<close>

theorem category_pruned_with_last_topic:
  assumes pk: "distinct (map topic_id (topics s))"
    and row: "t \<in> set (topics s)"
    and own: "topic_user_id t = uid"
    and cat: "category_id t = Some c"
  shows "(\<forall>s'. delete_topics uid (topic_id t) s = Inr s' \<longrightarrow>
            (if \<exists>u \<in> set (topics s).
                  topic_id u \<noteq> topic_id t \<and> topic_user_id u = uid \<and> category_id u = Some c
             then categories s' = categories s
                \<and> topics s' = filter (\<lambda>u. topic_id u \<noteq> topic_id t) (topics s)
             else categories s' =
                    filter (\<lambda>x. \<not> (cat_id x = c \<and> cat_user_id x = uid)) (categories s)
                \<and> topics s' =
                    map (\<lambda>u. if category_id u = Some c
                                 \<and> (\<exists>x \<in> set (categories s). cat_id x = c \<and> cat_user_id x = uid)
                              then u\<lparr>category_id := None\<rparr> else u)
                      (filter (\<lambda>u. topic_id u \<noteq> topic_id t) (topics s)))
            \<and> (\<forall>x \<in> set (categories s). x \<notin> set (categories s') \<longrightarrow>
                 cat_id x = c \<and> cat_user_id x = uid
                 \<and> (\<forall>u \<in> set (topics s). topic_id u \<noteq> topic_id t \<and> topic_user_id u = uid \<longrightarrow>
                       category_id u \<noteq> Some c)))
       \<and> (\<forall>cid s'. update_topics_category uid (topic_id t) cid s = Inr s' \<and> cid \<noteq> Some c \<longrightarrow>
            (if \<exists>u \<in> set (topics s).
                  topic_id u \<noteq> topic_id t \<and> topic_user_id u = uid \<and> category_id u = Some c
             then categories s' = categories s
                \<and> topics s' = map (\<lambda>u. if topic_id u = topic_id t then u\<lparr>category_id := cid\<rparr>
                                          else u) (topics s)
             else categories s' =
                    filter (\<lambda>x. \<not> (cat_id x = c \<and> cat_user_id x = uid)) (categories s)
                \<and> topics s' =
                    map (\<lambda>u. if category_id u = Some c
                                 \<and> (\<exists>x \<in> set (categories s). cat_id x = c \<and> cat_user_id x = uid)
                              then u\<lparr>category_id := None\<rparr> else u)
                      (map (\<lambda>u. if topic_id u = topic_id t then u\<lparr>category_id := cid\<rparr> else u)
                         (topics s)))
            \<and> (\<forall>x \<in> set (categories s). x \<notin> set (categories s') \<longrightarrow>
                 cat_id x = c \<and> cat_user_id x = uid
                 \<and> (\<forall>u \<in> set (topics s). topic_id u \<noteq> topic_id t \<and> topic_user_id u = uid \<longrightarrow>
                       category_id u \<noteq> Some c)))"
proof (intro conjI allI impI)
  let ?others = "\<exists>u \<in> set (topics s).
      topic_id u \<noteq> topic_id t \<and> topic_user_id u = uid \<and> category_id u = Some c"
  fix s' assume run: "delete_topics uid (topic_id t) s = Inr s'"
  from delete_topics_Inr [OF pk row own run] obtain s5
    where s': "s' = prune_orphan_category uid t s5"
    and tops: "topics s5 = filter (\<lambda>u. topic_id u \<noteq> topic_id t) (topics s)"
    and cats: "categories s5 = categories s"
    by blast
  have ref: "(\<exists>u \<in> set (topics s5). topic_user_id u = uid \<and> category_id u = Some c) = ?others"
    by (auto simp: tops)
  show "if ?others
        then categories s' = categories s
           \<and> topics s' = filter (\<lambda>u. topic_id u \<noteq> topic_id t) (topics s)
        else categories s' =
               filter (\<lambda>x. \<not> (cat_id x = c \<and> cat_user_id x = uid)) (categories s)
           \<and> topics s' =
               map (\<lambda>u. if category_id u = Some c
                            \<and> (\<exists>x \<in> set (categories s). cat_id x = c \<and> cat_user_id x = uid)
                         then u\<lparr>category_id := None\<rparr> else u)
                 (filter (\<lambda>u. topic_id u \<noteq> topic_id t) (topics s))"
  proof (cases ?others)
    case True
    with ref have "prune_orphan_category uid t s5 = s5" by (simp add: prune_referenced [OF cat])
    with s' tops cats show ?thesis by (simp only: if_P [OF True])
  next
    case False
    with ref have none: "\<forall>u \<in> set (topics s5). topic_user_id u = uid \<longrightarrow> category_id u \<noteq> Some c"
      by blast
    from prune_unreferenced [OF cat own none] show ?thesis
      by (simp only: if_not_P [OF False]) (simp add: s' tops cats)
  qed
  then show "\<forall>x \<in> set (categories s). x \<notin> set (categories s') \<longrightarrow>
       cat_id x = c \<and> cat_user_id x = uid
       \<and> (\<forall>u \<in> set (topics s). topic_id u \<noteq> topic_id t \<and> topic_user_id u = uid \<longrightarrow>
             category_id u \<noteq> Some c)"
    by (auto split: if_splits)
next
  let ?others = "\<exists>u \<in> set (topics s).
      topic_id u \<noteq> topic_id t \<and> topic_user_id u = uid \<and> category_id u = Some c"
  fix cid s' assume "update_topics_category uid (topic_id t) cid s = Inr s' \<and> cid \<noteq> Some c"
  then have run: "update_topics_category uid (topic_id t) cid s = Inr s'" and new: "cid \<noteq> Some c"
    by simp_all
  from new cat have change: "category_id t \<noteq> cid" by auto
  define s5 where "s5 = s\<lparr>topics := map (\<lambda>u. if topic_id u = topic_id t
                                            then u\<lparr>category_id := cid\<rparr> else u) (topics s)\<rparr>"
  have s': "s' = prune_orphan_category uid t s5"
    unfolding s5_def by (rule update_topics_category_Inr [OF pk row own change run])
  have tops: "topics s5 = map (\<lambda>u. if topic_id u = topic_id t then u\<lparr>category_id := cid\<rparr> else u)
                             (topics s)"
    and cats: "categories s5 = categories s"
    by (simp_all add: s5_def)
  have ref: "(\<exists>u \<in> set (topics s5). topic_user_id u = uid \<and> category_id u = Some c) = ?others"
  proof
    assume "\<exists>u \<in> set (topics s5). topic_user_id u = uid \<and> category_id u = Some c"
    then obtain v where v: "v \<in> set (topics s)"
      and u: "topic_user_id (if topic_id v = topic_id t then v\<lparr>category_id := cid\<rparr> else v) = uid"
        "category_id (if topic_id v = topic_id t then v\<lparr>category_id := cid\<rparr> else v) = Some c"
      unfolding tops by auto
    from u new have "topic_id v \<noteq> topic_id t" by (auto split: if_splits)
    with u v show ?others by auto
  next
    assume ?others
    then obtain u where u: "u \<in> set (topics s)" "topic_id u \<noteq> topic_id t"
      "topic_user_id u = uid" "category_id u = Some c"
      by blast
    then have "u \<in> set (topics s5)" by (force simp: tops image_iff)
    with u show "\<exists>u \<in> set (topics s5). topic_user_id u = uid \<and> category_id u = Some c" by blast
  qed
  show "if ?others
        then categories s' = categories s
           \<and> topics s' = map (\<lambda>u. if topic_id u = topic_id t then u\<lparr>category_id := cid\<rparr>
                                     else u) (topics s)
        else categories s' =
               filter (\<lambda>x. \<not> (cat_id x = c \<and> cat_user_id x = uid)) (categories s)
           \<and> topics s' =
               map (\<lambda>u. if category_id u = Some c
                            \<and> (\<exists>x \<in> set (categories s). cat_id x = c \<and> cat_user_id x = uid)
                         then u\<lparr>category_id := None\<rparr> else u)
                 (map (\<lambda>u. if topic_id u = topic_id t then u\<lparr>category_id := cid\<rparr> else u)
                    (topics s))"
  proof (cases ?others)
    case True
    with ref have "prune_orphan_category uid t s5 = s5" by (simp add: prune_referenced [OF cat])
    with s' tops cats show ?thesis by (simp only: if_P [OF True])
  next
    case False
    with ref have none: "\<forall>u \<in> set (topics s5). topic_user_id u = uid \<longrightarrow> category_id u \<noteq> Some c"
      by blast
    from prune_unreferenced [OF cat own none] show ?thesis
      by (simp only: if_not_P [OF False]) (simp add: s' tops cats)
  qed
  then show "\<forall>x \<in> set (categories s). x \<notin> set (categories s') \<longrightarrow>
       cat_id x = c \<and> cat_user_id x = uid
       \<and> (\<forall>u \<in> set (topics s). topic_id u \<noteq> topic_id t \<and> topic_user_id u = uid \<longrightarrow>
             category_id u \<noteq> Some c)"
    by (auto split: if_splits)
qed

lemmas delete_topics_unfold =
  delete_topics_def delete_topic_summaries_def delete_topic_files_def delete_documents_def
  delete_chunks_def delete_quizzes_def restrict_selected_options_def prune_orphan_category_def
  delete_categories_def Let_def

lemma delete_first_topic:
  "delete_topics 1 (topic_id topic1) db_category = Inr (db_category\<lparr>topics := [topic2]\<rparr>)"
  by (simp add: delete_topics_unfold db_category_def db0_def topic1_def topic2_def)

lemma delete_last_topic:
  "delete_topics 1 (topic_id topic2) (db_category\<lparr>topics := [topic2]\<rparr>) =
     Inr (db_category\<lparr>topics := [], categories := []\<rparr>)"
  by (simp add: delete_topics_unfold db_category_def db0_def topic2_def)

lemma repoint_last_topic:
  "update_topics_category 1 (topic_id topic2) None (db_category\<lparr>topics := [topic2]\<rparr>) =
     Inr (db_category\<lparr>topics := [topic2\<lparr>category_id := None\<rparr>], categories := []\<rparr>)"
  by (simp add: update_topics_category_def prune_orphan_category_def delete_categories_def
      Let_def db_category_def db0_def topic2_def)

theorem category_pruned_with_last_topic_witness:
  "distinct (map topic_id (topics db_category)) \<and> topic1 \<in> set (topics db_category)
   \<and> topic_user_id topic1 = 1 \<and> topic_user_id topic2 = 1
   \<and> category_id topic1 = Some 1 \<and> category_id topic2 = Some 1
   \<and> delete_topics 1 (topic_id topic1) db_category = Inr (db_category\<lparr>topics := [topic2]\<rparr>)
   \<and> categories (db_category\<lparr>topics := [topic2]\<rparr>) = categories db_category
   \<and> delete_topics 1 (topic_id topic2) (db_category\<lparr>topics := [topic2]\<rparr>) =
        Inr (db_category\<lparr>topics := [], categories := []\<rparr>)
   \<and> categories (db_category\<lparr>topics := [], categories := []\<rparr>) = []
   \<and> update_topics_category 1 (topic_id topic2) None (db_category\<lparr>topics := [topic2]\<rparr>) =
        Inr (db_category\<lparr>topics := [topic2\<lparr>category_id := None\<rparr>], categories := []\<rparr>)
   \<and> categories (db_category\<lparr>topics := [topic2\<lparr>category_id := None\<rparr>], categories := []\<rparr>) = []"
proof -
  have pk: "distinct (map topic_id (topics db_category))"
    by (simp add: db_category_def topic1_def topic2_def)
  have row: "topic1 \<in> set (topics db_category)" by (simp add: db_category_def)
  have own: "topic_user_id topic1 = 1" by (simp add: topic1_def)
  have own2: "topic_user_id topic2 = 1" by (simp add: topic2_def)
  have cat: "category_id topic1 = Some 1" by (simp add: topic1_def)
  have cat2: "category_id topic2 = Some 1" by (simp add: topic2_def)
  have other: "\<exists>u \<in> set (topics db_category).
      topic_id u \<noteq> topic_id topic1 \<and> topic_user_id u = 1 \<and> category_id u = Some 1"
    by (simp add: db_category_def topic1_def topic2_def)
  from category_pruned_with_last_topic [OF pk row own cat] delete_first_topic
  have "if \<exists>u \<in> set (topics db_category).
            topic_id u \<noteq> topic_id topic1 \<and> topic_user_id u = 1 \<and> category_id u = Some 1
        then categories (db_category\<lparr>topics := [topic2]\<rparr>) = categories db_category
           \<and> topics (db_category\<lparr>topics := [topic2]\<rparr>) =
               filter (\<lambda>u. topic_id u \<noteq> topic_id topic1) (topics db_category)
        else categories (db_category\<lparr>topics := [topic2]\<rparr>) =
               filter (\<lambda>x. \<not> (cat_id x = 1 \<and> cat_user_id x = 1)) (categories db_category)
           \<and> topics (db_category\<lparr>topics := [topic2]\<rparr>) =
               map (\<lambda>u. if category_id u = Some 1
                            \<and> (\<exists>x \<in> set (categories db_category). cat_id x = 1 \<and> cat_user_id x = 1)
                         then u\<lparr>category_id := None\<rparr> else u)
                 (filter (\<lambda>u. topic_id u \<noteq> topic_id topic1) (topics db_category))"
    by blast
  with other have kept: "categories (db_category\<lparr>topics := [topic2]\<rparr>) = categories db_category"
    by (simp only: if_True)
  have pk2: "distinct (map topic_id (topics (db_category\<lparr>topics := [topic2]\<rparr>)))" by simp
  have row2: "topic2 \<in> set (topics (db_category\<lparr>topics := [topic2]\<rparr>))" by simp
  have last: "\<not> (\<exists>u \<in> set (topics (db_category\<lparr>topics := [topic2]\<rparr>)).
      topic_id u \<noteq> topic_id topic2 \<and> topic_user_id u = 1 \<and> category_id u = Some 1)"
    by simp
  note inst2 = category_pruned_with_last_topic [OF pk2 row2 own2 cat2]
  from inst2 delete_last_topic
  have "if \<exists>u \<in> set (topics (db_category\<lparr>topics := [topic2]\<rparr>)).
            topic_id u \<noteq> topic_id topic2 \<and> topic_user_id u = 1 \<and> category_id u = Some 1
        then categories (db_category\<lparr>topics := [], categories := []\<rparr>) =
               categories (db_category\<lparr>topics := [topic2]\<rparr>)
           \<and> topics (db_category\<lparr>topics := [], categories := []\<rparr>) =
               filter (\<lambda>u. topic_id u \<noteq> topic_id topic2) (topics (db_category\<lparr>topics := [topic2]\<rparr>))
        else categories (db_category\<lparr>topics := [], categories := []\<rparr>) =
               filter (\<lambda>x. \<not> (cat_id x = 1 \<and> cat_user_id x = 1))
                 (categories (db_category\<lparr>topics := [topic2]\<rparr>))
           \<and> topics (db_category\<lparr>topics := [], categories := []\<rparr>) =
               map (\<lambda>u. if category_id u = Some 1
                            \<and> (\<exists>x \<in> set (categories (db_category\<lparr>topics := [topic2]\<rparr>)).
                                  cat_id x = 1 \<and> cat_user_id x = 1)
                         then u\<lparr>category_id := None\<rparr> else u)
                 (filter (\<lambda>u. topic_id u \<noteq> topic_id topic2)
                    (topics (db_category\<lparr>topics := [topic2]\<rparr>)))"
    by blast
  with last have gone: "categories (db_category\<lparr>topics := [], categories := []\<rparr>) = []"
    by simp
  have gone2:
    "categories (db_category\<lparr>topics := [topic2\<lparr>category_id := None\<rparr>], categories := []\<rparr>) = []"
    by simp
  from pk row own own2 cat cat2 delete_first_topic kept delete_last_topic gone repoint_last_topic
    gone2
  show ?thesis by (intro conjI)
qed

text \<open>
  C5, the claim as stated. First: the only topic that refers to category 1 is deleted
  by its owner, and the category, which belongs to another user, is still there.
  Second: category 1 belongs to user 1, and a topic of user 1 and a topic of user 2
  refer to it; user 1 deletes the first, and the category is deleted while the topic of
  user 2 referred to it.
\<close>

theorem category_of_other_owner_counterexample:
  "topics db_foreign_category = [topic1] \<and> category_id topic1 = Some 1
   \<and> topic_user_id topic1 = 1
   \<and> delete_topics 1 (topic_id topic1) db_foreign_category =
        Inr (db_foreign_category\<lparr>topics := []\<rparr>)
   \<and> map cat_id (categories (db_foreign_category\<lparr>topics := []\<rparr>)) = [1]
   \<and> topics db_shared_category = [topic1, topic3]
   \<and> category_id topic3 = Some 1 \<and> topic_user_id topic3 = 2
   \<and> map cat_id (categories db_shared_category) = [1]
   \<and> delete_topics 1 (topic_id topic1) db_shared_category =
        Inr (db_shared_category\<lparr>topics := [topic3\<lparr>category_id := None\<rparr>], categories := []\<rparr>)"
  by (simp add: delete_topics_unfold db_foreign_category_def db_shared_category_def
      db_category_def db0_def topic1_def topic3_def)

end
